(* ===== verification/Go_Prelude.thy ===== *)
theory Go_Prelude
  imports Main "HOL-Library.Word" "HOL-Library.Signed_Division"
begin

section \<open>Go values and shared automation\<close>

text \<open>
  The part of the Go language every component of FinalWeave uses: machine integers at
  their width, results that may be a panic, the dynamic type of an interface value, and
  step systems with their reachable states.

  \<^item> \<open>int\<close>, \<open>uint64\<close> and \<open>time.Duration\<close> are 64-bit words, \<open>uint32\<close> a 32-bit word. A signed
    comparison is \<open><s\<close>, an unsigned one is \<open><\<close>; \<open>/\<close> and \<open>%\<close> on signed integers truncate
    towards zero (\<open>go_div\<close>, \<open>go_mod\<close>).
  \<^item> \<open>go_arith\<close> collects the facts that read a word result back as a mathematical integer
    under the bounds the code establishes first.
\<close>

named_theorems go_arith \<open>reading bounded machine arithmetic as integer arithmetic\<close>

type_synonym go_int = "64 word"
type_synonym uint64 = "64 word"
type_synonym uint32 = "32 word"
type_synonym duration = "64 word"

definition go_div :: "go_int \<Rightarrow> go_int \<Rightarrow> go_int" where
  "go_div a b = word_of_int (sint a sdiv sint b)"

definition go_mod :: "go_int \<Rightarrow> go_int \<Rightarrow> go_int" where
  "go_mod a b = word_of_int (sint a smod sint b)"

subsection \<open>Bounded words\<close>

lemma sint_of_int_in_range [go_arith]:
  fixes i :: int
  assumes "- (2 ^ 63) \<le> i" and "i < 2 ^ 63"
  shows "sint (word_of_int i :: go_int) = i"
  using assms by (simp add: signed_of_int signed_take_bit_int_eq_self)

lemma go_int_eq_iff: "(a :: go_int) = b \<longleftrightarrow> sint a = sint b"
  by (rule word_eq_iff_signed)

lemma sint_go_bounds: "- (2 ^ 63) \<le> sint (a :: go_int)" "sint (a :: go_int) < 2 ^ 63"
  using sint_range_size [of a] by (simp_all add: word_size)

lemma sint_add_in_range [go_arith]:
  fixes a b :: go_int
  assumes "- (2 ^ 63) \<le> sint a + sint b" and "sint a + sint b < 2 ^ 63"
  shows "sint (a + b) = sint a + sint b"
proof -
  have "a + b = word_of_int (sint a + sint b)" by simp
  then show ?thesis using assms by (metis sint_of_int_in_range)
qed


lemma sint_diff_in_range [go_arith]:
  fixes a b :: go_int
  assumes "- (2 ^ 63) \<le> sint a - sint b" and "sint a - sint b < 2 ^ 63"
  shows "sint (a - b) = sint a - sint b"
proof -
  have "a - b = word_of_int (sint a - sint b)" by simp
  then show ?thesis using assms by (metis sint_of_int_in_range)
qed

lemma sint_mult_in_range [go_arith]:
  fixes a b :: go_int
  assumes "- (2 ^ 63) \<le> sint a * sint b" and "sint a * sint b < 2 ^ 63"
  shows "sint (a * b) = sint a * sint b"
proof -
  have "a * b = word_of_int (sint a * sint b)" by simp
  then show ?thesis using assms by (metis sint_of_int_in_range)
qed

lemma sint_div_nonneg [go_arith]:
  assumes "0 \<le> sint a" and "0 < sint b"
  shows "sint (go_div a b) = sint a div sint b"
proof -
  have eq: "sint a sdiv sint b = sint a div sint b"
    using assms by (auto simp: signed_divide_int_def sgn_if)
  have "0 \<le> sint a div sint b" using assms by (simp add: pos_imp_zdiv_nonneg_iff)
  moreover have "sint a div sint b \<le> sint a"
    using assms zdiv_mono2 [of "sint a" 1 "sint b"] by simp
  ultimately show ?thesis
    using sint_go_bounds [of a] by (simp add: go_div_def eq sint_of_int_in_range)
qed

lemma sint_mod_nonneg [go_arith]:
  assumes "0 \<le> sint a" and "0 < sint b"
  shows "sint (go_mod a b) = sint a mod sint b"
proof -
  have eq: "sint a smod sint b = sint a mod sint b"
    using assms by (auto simp: signed_modulo_int_def signed_divide_int_def sgn_if minus_div_mult_eq_mod)
  have "0 \<le> sint a mod sint b" and "sint a mod sint b < sint b"
    using assms by simp_all
  then show ?thesis
    using sint_go_bounds [of b] by (simp add: go_mod_def eq sint_of_int_in_range)
qed

text \<open>A non-negative \<open>int\<close> converted to \<open>uint64\<close> keeps its value.\<close>

lemma uint_of_nonneg [go_arith]:
  fixes a :: go_int
  assumes "0 \<le> sint a"
  shows "uint a = sint a"
proof -
  have "uint a = uint (word_of_int (sint a) :: go_int)" by simp
  also have "\<dots> = take_bit 64 (sint a)" by (simp only: unsigned_of_int) simp
  also have "\<dots> = sint a"
    using assms sint_go_bounds [of a] by (simp add: take_bit_int_eq_self)
  finally show ?thesis .
qed

subsection \<open>Panics\<close>

text \<open>
  A Go call returns a value or panics with a message. Code that recovers sees the panic
  as a value of this type.
\<close>

datatype 'a outcome = Return 'a | Panic string

fun and_then :: "'a outcome \<Rightarrow> ('a \<Rightarrow> 'b outcome) \<Rightarrow> 'b outcome" where
  "and_then (Return x) f = f x"
| "and_then (Panic m) f = Panic m"

lemma and_then_Return_iff [simp]:
  "and_then r f = Return y \<longleftrightarrow> (\<exists>x. r = Return x \<and> f x = Return y)"
  by (cases r) auto

lemma and_then_unit: "and_then (r :: unit outcome) (\<lambda>_. Return x) = Return y \<longleftrightarrow> r = Return () \<and> x = y"
  by (cases r) auto

subsection \<open>Interface values\<close>

text \<open>
  What \<open>reflect.ValueOf\<close> sees of an interface value: nothing at all for the nil
  interface, otherwise the kind of the dynamic value and whether a value of a nillable
  kind is nil (a typed nil pointer stored in an interface is not the nil interface).
\<close>

datatype reflect_kind =
    KBool | KInt | KUint | KFloat | KComplex | KString | KArray | KStruct | KUnsafePointer
  | KChan | KFunc | KInterface | KMap | KPointer | KSlice

datatype interface_value = NilInterface | Dynamic reflect_kind bool

subsection \<open>Step systems\<close>

text \<open>
  A concurrent component is a set of initial states and a step relation; one step is one
  section of the code that the mutex or an atomic operation makes indivisible. A property
  of all interleavings is an invariant of the reachable states.
\<close>

inductive reach :: "('s \<Rightarrow> bool) \<Rightarrow> ('s \<Rightarrow> 's \<Rightarrow> bool) \<Rightarrow> 's \<Rightarrow> bool"
  for init :: "'s \<Rightarrow> bool" and step :: "'s \<Rightarrow> 's \<Rightarrow> bool"
where
  reach_init: "init s \<Longrightarrow> reach init step s"
| reach_step: "reach init step s \<Longrightarrow> step s t \<Longrightarrow> reach init step t"

lemma reach_steps: "reach init step s \<Longrightarrow> step\<^sup>*\<^sup>* s t \<Longrightarrow> reach init step t"
  by (rotate_tac, induction rule: rtranclp_induct) (auto intro: reach_step)

locale inductive_invariant =
  fixes init :: "'s \<Rightarrow> bool"
    and step :: "'s \<Rightarrow> 's \<Rightarrow> bool"
    and inv :: "'s \<Rightarrow> bool"
  assumes inv_init: "init s \<Longrightarrow> inv s"
    and inv_step: "inv s \<Longrightarrow> step s t \<Longrightarrow> inv t"
begin

lemma inv_reach: "reach init step s \<Longrightarrow> inv s"
  by (induction rule: reach.induct) (auto intro: inv_init inv_step)

lemma inv_steps: "step\<^sup>*\<^sup>* s t \<Longrightarrow> inv s \<Longrightarrow> inv t"
  by (induction rule: rtranclp_induct) (auto intro: inv_step)

end

text \<open>
  A relation between the two ends of a step that is reflexive and transitive and holds of
  every step from a reachable state holds of every run: the shape of a fact such as
  \<open>a result, once published, is never replaced\<close>.
\<close>

locale step_monotone = inductive_invariant +
  fixes rel :: "'s \<Rightarrow> 's \<Rightarrow> bool"
  assumes rel_refl: "rel s s"
    and rel_trans: "rel s t \<Longrightarrow> rel t u \<Longrightarrow> rel s u"
    and rel_step: "inv s \<Longrightarrow> step s t \<Longrightarrow> rel s t"
begin

lemma rel_steps: "step\<^sup>*\<^sup>* s t \<Longrightarrow> inv s \<Longrightarrow> rel s t"
proof (induction rule: rtranclp_induct)
  case base
  show ?case by (rule rel_refl)
next
  case (step t u)
  then have "rel t u" by (blast intro: rel_step inv_steps)
  with step show ?case by (blast intro: rel_trans)
qed

lemma rel_reach_steps: "reach init step s \<Longrightarrow> step\<^sup>*\<^sup>* s t \<Longrightarrow> rel s t"
  by (blast intro: rel_steps inv_reach)

end

text \<open>
  Termination of a concurrent component: the steps that the code and its documented
  environment owe (\<open>owed\<close>) use up a measure, and one is enabled as long as there is something
  left to do (\<open>busy\<close>). Then no run of owed steps goes on for ever, and one that cannot be
  extended has nothing left to do.
\<close>

locale owed_termination =
  fixes inv :: "'s \<Rightarrow> bool"
    and owed :: "'s \<Rightarrow> 's \<Rightarrow> bool"
    and total :: "'s \<Rightarrow> nat"
    and busy :: "'s \<Rightarrow> bool"
  assumes owed_inv: "inv s \<Longrightarrow> owed s t \<Longrightarrow> inv t"
    and owed_less: "inv s \<Longrightarrow> owed s t \<Longrightarrow> total t < total s"
    and busy_enabled: "inv s \<Longrightarrow> busy s \<Longrightarrow> \<exists>t. owed s t"
begin

lemma run_inv: "(owed ^^ n) s t \<Longrightarrow> inv s \<Longrightarrow> inv t"
  by (induction n arbitrary: t) (auto intro: owed_inv)

lemma run_bounded: "(owed ^^ n) s t \<Longrightarrow> inv s \<Longrightarrow> n + total t \<le> total s"
proof (induction n arbitrary: t)
  case (Suc n)
  then obtain u where u: "(owed ^^ n) s u" "owed u t" by auto
  from owed_less [OF run_inv [OF u(1) Suc.prems(2)] u(2)] Suc.IH [OF u(1) Suc.prems(2)] show ?case by simp
qed simp

lemma run_final: "inv s \<Longrightarrow> (\<And>t. \<not> owed s t) \<Longrightarrow> \<not> busy s"
  using busy_enabled by blast

lemma run_completes: "inv s \<Longrightarrow> \<exists>n t. (owed ^^ n) s t \<and> (\<forall>u. \<not> owed t u)"
proof (induction "total s" arbitrary: s rule: less_induct)
  case less
  show ?case
  proof (cases "\<exists>u. owed s u")
    case True
    then obtain u where u: "owed s u" by blast
    from less.hyps [OF owed_less [OF less.prems u] owed_inv [OF less.prems u]]
    obtain n t where "(owed ^^ n) u t" "\<forall>v. \<not> owed t v" by blast
    with u show ?thesis by (metis relpowp_Suc_I2)
  next
    case False
    then show ?thesis by (intro exI [of _ 0] exI [of _ s]) simp
  qed
qed

end

end
