(* ===== verification/Go_Errors.thy ===== *)
theory Go_Errors
  imports Go_Prelude
begin

section \<open>Go errors\<close>

text \<open>
  An \<open>error\<close> value as the program builds and inspects it. \<open>'e\<close> is the type of the
  sentinels of the package (its \<open>errors.New\<close> variables, compared by identity). A nil
  error is \<open>None\<close> of \<open>'e go_error option\<close>.

  \<open>Errorf\<close> is \<open>fmt.Errorf\<close> with one \<open>%w\<close> verb: the format string, the operands of its
  other verbs and the wrapped error, kept as data so that what a message discloses is
  visible. \<open>Foreign\<close> is an error of a library or of the caller that wraps the listed
  errors. \<open>FiberError\<close> is a \<open>*fiber.Error\<close>, \<open>None\<close> when that pointer is nil, and
  \<open>StatusError\<close> what \<open>status.Error\<close> builds.
\<close>

datatype std_error =
    NetErrClosed
  | ContextCanceled
  | ContextDeadlineExceeded
  | FiberErrNotRunning
  | GrpcErrServerStopped

datatype fmt_arg = FmtInt int | FmtString string | FmtDuration int

datatype grpc_code =
    CodeOK | CodeCanceled | CodeUnknown | CodeInvalidArgument | CodeDeadlineExceeded
  | CodeNotFound | CodeAlreadyExists | CodePermissionDenied | CodeResourceExhausted
  | CodeFailedPrecondition | CodeAborted | CodeOutOfRange | CodeUnimplemented
  | CodeInternal | CodeUnavailable | CodeDataLoss | CodeUnauthenticated

datatype 'e go_error =
    Sentinel 'e
  | Std std_error
  | Errorf string "fmt_arg list" "'e go_error"
  | Plain string "fmt_arg list"
  | Joined "'e go_error list"
  | FiberError "(go_int \<times> string) option"
  | StatusError grpc_code string
  | Foreign string "'e go_error list"

text \<open>
  \<open>errors.Is\<close> walks the tree of wrapped errors depth first and compares each error with
  the target; \<open>errors.As\<close> with a \<open>**fiber.Error\<close> target does the same walk and stops at
  the first error of that type.
\<close>

fun errors_is_err :: "'e go_error \<Rightarrow> 'e go_error \<Rightarrow> bool" where
  "errors_is_err (Errorf f as e) t \<longleftrightarrow> Errorf f as e = t \<or> errors_is_err e t"
| "errors_is_err (Joined es) t \<longleftrightarrow> Joined es = t \<or> (\<exists>e \<in> set es. errors_is_err e t)"
| "errors_is_err (Foreign m es) t \<longleftrightarrow> Foreign m es = t \<or> (\<exists>e \<in> set es. errors_is_err e t)"
| "errors_is_err e t \<longleftrightarrow> e = t"

fun errors_is :: "'e go_error option \<Rightarrow> 'e go_error \<Rightarrow> bool" where
  "errors_is None t \<longleftrightarrow> False"
| "errors_is (Some e) t \<longleftrightarrow> errors_is_err e t"

text \<open>The error of a \<open>(value, error)\<close> result.\<close>

fun error_of :: "'e + 'a \<Rightarrow> 'e option" where
  "error_of (Inl e) = Some e"
| "error_of (Inr v) = None"

fun first_some :: "'a option list \<Rightarrow> 'a option" where
  "first_some [] = None"
| "first_some (None # xs) = first_some xs"
| "first_some (Some x # xs) = Some x"

fun errors_as_fiber :: "'e go_error \<Rightarrow> (go_int \<times> string) option option" where
  "errors_as_fiber (FiberError p) = Some p"
| "errors_as_fiber (Errorf f as e) = errors_as_fiber e"
| "errors_as_fiber (Joined es) = first_some (map errors_as_fiber es)"
| "errors_as_fiber (Foreign m es) = first_some (map errors_as_fiber es)"
| "errors_as_fiber e = None"

text \<open>\<open>errors.Join\<close> drops nil errors and is nil when nothing is left.\<close>

definition errors_join :: "'e go_error option list \<Rightarrow> 'e go_error option" where
  "errors_join es = (case List.map_filter id es of [] \<Rightarrow> None | es' \<Rightarrow> Some (Joined es'))"

lemma errors_is_self [simp]: "errors_is (Some e) e"
  by (cases e) auto

lemma errors_join_nil [simp]: "errors_join [] = None"
  by (simp add: errors_join_def map_filter_def)

lemma errors_join_None_iff: "errors_join es = None \<longleftrightarrow> (\<forall>e \<in> set es. e = None)"
  by (induction es) (auto simp: errors_join_def map_filter_def split: list.splits option.splits)

lemma errors_join_is:
  assumes "e \<in> set es" and "errors_is e (Sentinel x)"
  shows "errors_is (errors_join es) (Sentinel x)"
proof -
  obtain e' where e': "e = Some e'" "errors_is_err e' (Sentinel x)"
    using assms(2) by (cases e) auto
  then have mem: "e' \<in> set (List.map_filter id es)"
    using assms(1) by (force simp: map_filter_def)
  then obtain a as where "List.map_filter id es = a # as"
    by (cases "List.map_filter id es") auto
  with mem e' show ?thesis by (auto simp: errors_join_def)
qed

lemma first_some_None_iff: "first_some xs = None \<longleftrightarrow> (\<forall>x \<in> set xs. x = None)"
  by (induction xs rule: first_some.induct) auto

end
