(* ===== verification/Quorum_Params.thy ===== *)
theory Quorum_Params
  imports Go_Errors
begin

section \<open>Quorum parameters (pkg/types/quorum.go)\<close>

text \<open>
  The validated n/f/q/k tuple of a validator set: its construction from a validator count,
  the accessors that panic on a tuple not built by the constructor, and the thresholds'
  meaning for sets of validators (\<open>threshold_system\<close>, interpreted on the model).
\<close>

datatype quorum_error = ErrValidatorCountOutOfRange | ErrValidatorCountNotThreeFPlusOne

definition MinValidatorCount :: go_int where "MinValidatorCount = 4"

definition MaxValidatorCount :: go_int where "MaxValidatorCount = 253"

record QuorumParameters =
  validatorCount :: go_int
  maxByzantine :: go_int
  quorum :: go_int
  recoveryThreshold :: go_int

definition zero_QuorumParameters :: QuorumParameters where
  "zero_QuorumParameters =
     \<lparr>validatorCount = 0, maxByzantine = 0, quorum = 0, recoveryThreshold = 0\<rparr>"

definition NewQuorumParameters :: "go_int \<Rightarrow> quorum_error go_error + QuorumParameters" where
  "NewQuorumParameters n =
     (if n <s MinValidatorCount \<or> MaxValidatorCount <s n then
        Inl (Errorf ''%w: got %d, want %d..%d''
               [FmtInt (sint n), FmtInt (sint MinValidatorCount), FmtInt (sint MaxValidatorCount)]
               (Sentinel ErrValidatorCountOutOfRange))
      else if go_mod (n - 1) 3 \<noteq> 0 then
        Inl (Errorf ''%w: got %d'' [FmtInt (sint n)]
               (Sentinel ErrValidatorCountNotThreeFPlusOne))
      else
        let f = go_div (n - 1) 3
        in Inr \<lparr>validatorCount = n, maxByzantine = f, quorum = 2 * f + 1,
                recoveryThreshold = f + 1\<rparr>)"

definition mustBeValid :: "QuorumParameters \<Rightarrow> unit outcome" where
  "mustBeValid p =
     (if validatorCount p <s MinValidatorCount \<or>
         MaxValidatorCount <s validatorCount p \<or>
         go_mod (validatorCount p - 1) 3 \<noteq> 0 \<or>
         maxByzantine p \<noteq> go_div (validatorCount p - 1) 3 \<or>
         quorum p \<noteq> 2 * maxByzantine p + 1 \<or>
         recoveryThreshold p \<noteq> maxByzantine p + 1
      then Panic ''types: invalid QuorumParameters; use NewQuorumParameters and handle its error''
      else Return ())"

definition ValidatorCount :: "QuorumParameters \<Rightarrow> go_int outcome" where
  "ValidatorCount p = and_then (mustBeValid p) (\<lambda>_. Return (validatorCount p))"

definition MaxByzantine :: "QuorumParameters \<Rightarrow> go_int outcome" where
  "MaxByzantine p = and_then (mustBeValid p) (\<lambda>_. Return (maxByzantine p))"

definition Quorum :: "QuorumParameters \<Rightarrow> go_int outcome" where
  "Quorum p = and_then (mustBeValid p) (\<lambda>_. Return (quorum p))"

definition RecoveryThreshold :: "QuorumParameters \<Rightarrow> go_int outcome" where
  "RecoveryThreshold p = and_then (mustBeValid p) (\<lambda>_. Return (recoveryThreshold p))"

definition MinimumQuorumIntersection :: "QuorumParameters \<Rightarrow> go_int outcome" where
  "MinimumQuorumIntersection p =
     and_then (mustBeValid p) (\<lambda>_. Return (2 * quorum p - validatorCount p))"

lemmas accessor_defs =
  ValidatorCount_def MaxByzantine_def Quorum_def RecoveryThreshold_def MinimumQuorumIntersection_def

subsection \<open>The constructor over the integers\<close>

lemma sint_small_counts [simp]:
  "sint (4 :: go_int) = 4" "sint (253 :: go_int) = 253" "sint (3 :: go_int) = 3" "sint (1 :: go_int) = 1"
  "sint (2 :: go_int) = 2"
  by simp_all

lemma count_minus_one:
  assumes "4 \<le> sint (n :: go_int)" and "sint n \<le> 253"
  shows "sint (n - 1) = sint n - 1"
  using assms by (simp add: sint_diff_in_range)

text \<open>The thresholds of an accepted count, as integers: no intermediate result overflows.\<close>

lemma threshold_arithmetic:
  assumes "4 \<le> sint (n :: go_int)" and "sint n \<le> 253"
  defines "f \<equiv> go_div (n - 1) 3"
  shows "sint f = (sint n - 1) div 3"
    and "sint (2 * f + 1) = 2 * ((sint n - 1) div 3) + 1"
    and "sint (f + 1) = (sint n - 1) div 3 + 1"
    and "sint (go_mod (n - 1) 3) = (sint n - 1) mod 3"
proof -
  note m = count_minus_one [OF assms(1,2)]
  show f: "sint f = (sint n - 1) div 3"
    using assms m by (simp add: f_def sint_div_nonneg)
  have b: "0 \<le> sint f" "sint f \<le> 84" using assms f by simp_all
  have d: "sint (2 * f) = 2 * sint f" using b by (simp add: sint_mult_in_range)
  show "sint (2 * f + 1) = 2 * ((sint n - 1) div 3) + 1"
    using b d f by (simp add: sint_add_in_range)
  show "sint (f + 1) = (sint n - 1) div 3 + 1"
    using b f by (simp add: sint_add_in_range)
  show "sint (go_mod (n - 1) 3) = (sint n - 1) mod 3"
    using assms m by (simp add: sint_mod_nonneg)
qed

definition accepted_count :: "int \<Rightarrow> bool" where
  "accepted_count i \<longleftrightarrow> 4 \<le> i \<and> i \<le> 253 \<and> i mod 3 = 1"

lemma mod_guard_iff:
  assumes "4 \<le> sint (n :: go_int)" and "sint n \<le> 253"
  shows "go_mod (n - 1) 3 = 0 \<longleftrightarrow> sint n mod 3 = 1"
proof -
  have "go_mod (n - 1) 3 = 0 \<longleftrightarrow> (sint n - 1) mod 3 = 0"
    using threshold_arithmetic(4) [OF assms] by (simp add: go_int_eq_iff)
  also have "\<dots> \<longleftrightarrow> sint n mod 3 = 1" by presburger
  finally show ?thesis .
qed

lemma range_guard_iff:
  "(n <s MinValidatorCount \<or> MaxValidatorCount <s n) \<longleftrightarrow> \<not> (4 \<le> sint n \<and> sint n \<le> 253)"
  by (auto simp: MinValidatorCount_def MaxValidatorCount_def word_sless_alt)

lemma NewQuorumParameters_Inr_iff:
  "NewQuorumParameters n = Inr p \<longleftrightarrow>
     accepted_count (sint n) \<and>
     p = \<lparr>validatorCount = n, maxByzantine = go_div (n - 1) 3,
          quorum = 2 * go_div (n - 1) 3 + 1, recoveryThreshold = go_div (n - 1) 3 + 1\<rparr>"
  using mod_guard_iff [of n]
  by (auto simp: NewQuorumParameters_def accepted_count_def range_guard_iff Let_def)

lemma mustBeValid_iff: "mustBeValid p = Return () \<longleftrightarrow> (\<exists>n. NewQuorumParameters n = Inr p)"
proof -
  have "mustBeValid p = Return () \<longleftrightarrow>
        accepted_count (sint (validatorCount p)) \<and>
        maxByzantine p = go_div (validatorCount p - 1) 3 \<and>
        quorum p = 2 * maxByzantine p + 1 \<and> recoveryThreshold p = maxByzantine p + 1"
    using mod_guard_iff [of "validatorCount p"] range_guard_iff [of "validatorCount p"]
    by (auto simp: mustBeValid_def accepted_count_def)
  also have "\<dots> \<longleftrightarrow> (\<exists>n. NewQuorumParameters n = Inr p)"
    by (cases p) (auto simp: NewQuorumParameters_Inr_iff)
  finally show ?thesis .
qed

subsection \<open>What the thresholds mean for sets of validators\<close>

text \<open>
  The contract the consensus layers rest on, for any carrier \<open>'p\<close> of parameters: \<open>n = 3f + 1\<close>,
  \<open>q = 2f + 1\<close>, \<open>k = f + 1\<close> on the valid ones, and the overlap bound \<open>ix\<close>.
\<close>

locale threshold_system =
  fixes valid :: "'p \<Rightarrow> bool"
    and n :: "'p \<Rightarrow> nat" and f :: "'p \<Rightarrow> nat" and q :: "'p \<Rightarrow> nat" and k :: "'p \<Rightarrow> nat"
    and ix :: "'p \<Rightarrow> nat"
  assumes n_eq: "valid p \<Longrightarrow> n p = 3 * f p + 1"
    and q_eq: "valid p \<Longrightarrow> q p = 2 * f p + 1"
    and k_eq: "valid p \<Longrightarrow> k p = f p + 1"
    and ix_eq: "valid p \<Longrightarrow> ix p = 2 * q p - n p"
begin

lemma ix_eq_k: "valid p \<Longrightarrow> ix p = k p"
  by (simp add: ix_eq n_eq q_eq k_eq)

lemma overlap:
  assumes "valid p" "finite V" "card V = n p" "A \<subseteq> V" "B \<subseteq> V" "q p \<le> card A" "q p \<le> card B"
  shows "ix p \<le> card (A \<inter> B)"
proof -
  have fin: "finite A" "finite B" using assms by (auto intro: finite_subset)
  have "card (A \<union> B) \<le> n p"
    using assms by (metis Un_least card_mono)
  moreover have "card A + card B = card (A \<union> B) + card (A \<inter> B)"
    by (rule card_Un_Int [OF fin])
  ultimately show ?thesis using assms by (simp add: ix_eq)
qed

lemma overlap_honest:
  assumes "valid p" "finite V" "card V = n p" "A \<subseteq> V" "B \<subseteq> V" "q p \<le> card A" "q p \<le> card B"
    and "finite F" "card F \<le> f p"
  shows "A \<inter> B - F \<noteq> {}"
proof
  assume "A \<inter> B - F = {}"
  then have "card (A \<inter> B) \<le> card F" using assms by (intro card_mono) auto
  moreover have "k p \<le> card (A \<inter> B)" using overlap [OF assms(1-7)] assms(1) by (simp add: ix_eq_k)
  ultimately show False using assms by (simp add: k_eq)
qed

lemma honest_quorum:
  assumes "valid p" "finite V" "card V = n p" "F \<subseteq> V" "card F \<le> f p"
  shows "q p \<le> card (V - F)"
  using assms by (simp add: card_Diff_subset finite_subset n_eq q_eq)

lemma quorum_recovers:
  assumes "valid p" "finite A" "q p \<le> card A" "finite F" "card F \<le> f p"
  shows "k p \<le> card (A - F)"
proof -
  have "card A \<le> card (A - F) + card F"
    using assms by (metis card_Un_le card_mono finite_Diff finite_Un Un_Diff_cancel2 Un_upper1 order_trans)
  then show ?thesis using assms by (simp add: q_eq k_eq)
qed

lemma recovery_not_byzantine:
  assumes "valid p" "k p \<le> card R" "finite F" "card F \<le> f p"
  shows "R - F \<noteq> {}"
proof
  assume "R - F = {}"
  then have "card R \<le> card F" using assms by (intro card_mono) auto
  then show False using assms by (simp add: k_eq)
qed

end

abbreviation count_of :: "go_int \<Rightarrow> nat" where
  "count_of w \<equiv> nat (sint w)"

lemma built_fields:
  assumes "mustBeValid p = Return ()"
  shows "1 \<le> sint (maxByzantine p)" "sint (maxByzantine p) \<le> 84"
    and "sint (validatorCount p) = 3 * sint (maxByzantine p) + 1"
    and "sint (quorum p) = 2 * sint (maxByzantine p) + 1"
    and "sint (recoveryThreshold p) = sint (maxByzantine p) + 1"
    and "sint (2 * quorum p - validatorCount p) = sint (maxByzantine p) + 1"
proof -
  obtain n where n: "accepted_count (sint n)"
    and p: "p = \<lparr>validatorCount = n, maxByzantine = go_div (n - 1) 3,
              quorum = 2 * go_div (n - 1) 3 + 1, recoveryThreshold = go_div (n - 1) 3 + 1\<rparr>"
    using assms by (auto simp: mustBeValid_iff NewQuorumParameters_Inr_iff)
  from n have r: "4 \<le> sint n" "sint n \<le> 253" and m: "sint n mod 3 = 1"
    by (auto simp: accepted_count_def)
  note t = threshold_arithmetic [OF r]
  have nf: "sint n = 3 * ((sint n - 1) div 3) + 1" using m by presburger
  show f1: "1 \<le> sint (maxByzantine p)" and f2: "sint (maxByzantine p) \<le> 84"
    using r p t by simp_all
  show v: "sint (validatorCount p) = 3 * sint (maxByzantine p) + 1" using nf p t by simp
  show qq: "sint (quorum p) = 2 * sint (maxByzantine p) + 1" using p t by simp
  show "sint (recoveryThreshold p) = sint (maxByzantine p) + 1" using p t by simp
  have "sint (2 * quorum p) = 4 * sint (maxByzantine p) + 2"
    using f1 f2 qq by (simp add: sint_mult_in_range)
  then show "sint (2 * quorum p - validatorCount p) = sint (maxByzantine p) + 1"
    using f1 f2 v by (simp add: sint_diff_in_range)
qed

interpretation thresholds: threshold_system
  "\<lambda>p. mustBeValid p = Return ()"
  "\<lambda>p. count_of (validatorCount p)" "\<lambda>p. count_of (maxByzantine p)" "\<lambda>p. count_of (quorum p)"
  "\<lambda>p. count_of (recoveryThreshold p)" "\<lambda>p. count_of (2 * quorum p - validatorCount p)"
proof
  fix p assume "mustBeValid p = Return ()"
  note b = built_fields [OF this]
  show "count_of (validatorCount p) = 3 * count_of (maxByzantine p) + 1" using b by simp
  show "count_of (quorum p) = 2 * count_of (maxByzantine p) + 1" using b by simp
  show "count_of (recoveryThreshold p) = count_of (maxByzantine p) + 1" using b by simp
  show "count_of (2 * quorum p - validatorCount p) = 2 * count_of (quorum p) - count_of (validatorCount p)"
    using b by simp
qed

subsection \<open>Properties\<close>

lemma accessor_Return_iff:
  "ValidatorCount p = Return v \<longleftrightarrow> mustBeValid p = Return () \<and> v = validatorCount p"
  "MaxByzantine p = Return v \<longleftrightarrow> mustBeValid p = Return () \<and> v = maxByzantine p"
  "Quorum p = Return v \<longleftrightarrow> mustBeValid p = Return () \<and> v = quorum p"
  "RecoveryThreshold p = Return v \<longleftrightarrow> mustBeValid p = Return () \<and> v = recoveryThreshold p"
  "MinimumQuorumIntersection p = Return v \<longleftrightarrow>
     mustBeValid p = Return () \<and> v = 2 * quorum p - validatorCount p"
  by (auto simp: accessor_defs)

lemma NewQuorumParameters_valid: "NewQuorumParameters n = Inr p \<Longrightarrow> mustBeValid p = Return ()"
  by (auto simp: mustBeValid_iff)

lemma accepted_count_form:
  "accepted_count i \<longleftrightarrow> 4 \<le> i \<and> i \<le> 253 \<and> (\<exists>f. i = 3 * f + 1)"
  unfolding accepted_count_def by presburger

text \<open>C2: the constructor classifies every machine integer: outside 4..253 the error is
  (wraps) \<open>ErrValidatorCountOutOfRange\<close>, inside but not of the form 3f+1 it is
  \<open>ErrValidatorCountNotThreeFPlusOne\<close>, and in every other case, and only then, a tuple is
  returned.\<close>

theorem new_quorum_outcomes:
  "(errors_is (error_of (NewQuorumParameters n)) (Sentinel ErrValidatorCountOutOfRange) \<longleftrightarrow>
      sint n < 4 \<or> 253 < sint n) \<and>
   (errors_is (error_of (NewQuorumParameters n)) (Sentinel ErrValidatorCountNotThreeFPlusOne) \<longleftrightarrow>
      4 \<le> sint n \<and> sint n \<le> 253 \<and> (\<nexists>f. sint n = 3 * f + 1)) \<and>
   ((\<exists>p. NewQuorumParameters n = Inr p) \<longleftrightarrow>
      4 \<le> sint n \<and> sint n \<le> 253 \<and> (\<exists>f. sint n = 3 * f + 1))"
proof -
  have form: "(sint n mod 3 = 1) = (\<exists>f. sint n = 3 * f + 1)" by presburger
  show ?thesis
    using mod_guard_iff [of n] form
    by (auto simp: NewQuorumParameters_def range_guard_iff Let_def)
qed

text \<open>C1: on a tuple the constructor returned no accessor panics, and with f its
  \<open>MaxByzantine\<close> (1 to 84) the others are exactly n = 3f+1, q = 2f+1, k = f+1, and the
  minimum quorum intersection equals k; no intermediate machine operation wraps.\<close>

theorem new_quorum_thresholds:
  assumes "NewQuorumParameters n = Inr p"
  shows "\<exists>f q k. MaxByzantine p = Return f \<and> 1 \<le> sint f \<and> sint f \<le> 84 \<and>
           ValidatorCount p = Return n \<and> sint n = 3 * sint f + 1 \<and>
           Quorum p = Return q \<and> sint q = 2 * sint f + 1 \<and>
           RecoveryThreshold p = Return k \<and> sint k = sint f + 1 \<and>
           MinimumQuorumIntersection p = Return k"
proof -
  have v: "mustBeValid p = Return ()" using assms by (rule NewQuorumParameters_valid)
  have n: "validatorCount p = n" using assms by (auto simp: NewQuorumParameters_Inr_iff)
  note b = built_fields [OF v]
  have "recoveryThreshold p = 2 * quorum p - validatorCount p"
    using b(5,6) by (simp add: go_int_eq_iff)
  with b v n show ?thesis by (simp add: accessor_Return_iff)
qed

theorem new_quorum_thresholds_witness:
  "\<exists>p. NewQuorumParameters 7 = Inr p \<and> MaxByzantine p = Return 2"
proof -
  have "accepted_count (sint (7 :: go_int))" by (simp add: accepted_count_def)
  then obtain p where p: "NewQuorumParameters 7 = Inr p"
    by (auto simp: NewQuorumParameters_Inr_iff)
  from new_quorum_thresholds [OF p] obtain f
    where f: "MaxByzantine p = Return f" and "sint (7 :: go_int) = 3 * sint f + 1" by blast
  then have "sint f = sint (2 :: go_int)" by simp
  then have "f = 2" by (simp only: go_int_eq_iff)
  with p f show ?thesis by blast
qed

text \<open>C3: every accessor fails closed: it returns a value exactly on the tuples some call of
  the constructor builds, and panics on every other one, the zero value included.\<close>

theorem accessors_fail_closed:
  "((\<exists>v. ValidatorCount p = Return v) \<longleftrightarrow> (\<exists>n. NewQuorumParameters n = Inr p)) \<and>
   ((\<exists>v. MaxByzantine p = Return v) \<longleftrightarrow> (\<exists>n. NewQuorumParameters n = Inr p)) \<and>
   ((\<exists>v. Quorum p = Return v) \<longleftrightarrow> (\<exists>n. NewQuorumParameters n = Inr p)) \<and>
   ((\<exists>v. RecoveryThreshold p = Return v) \<longleftrightarrow> (\<exists>n. NewQuorumParameters n = Inr p)) \<and>
   ((\<exists>v. MinimumQuorumIntersection p = Return v) \<longleftrightarrow> (\<exists>n. NewQuorumParameters n = Inr p)) \<and>
   (\<nexists>n. NewQuorumParameters n = Inr zero_QuorumParameters)"
  by (auto simp: accessor_Return_iff mustBeValid_iff [symmetric])
    (simp add: mustBeValid_def zero_QuorumParameters_def MinValidatorCount_def word_sless_alt)

text \<open>C4: quorum intersection. For a validator set V of \<open>ValidatorCount\<close> members, two quorums
  A and B share at least \<open>MinimumQuorumIntersection\<close> members, and one of them is outside any
  set F of at most \<open>MaxByzantine\<close> faulty members.\<close>

theorem quorums_share_honest_member:
  assumes "ValidatorCount p = Return n" and "Quorum p = Return q" and "MaxByzantine p = Return f"
    and "MinimumQuorumIntersection p = Return x"
    and "finite V" and "int (card V) = sint n" and "A \<subseteq> V" and "B \<subseteq> V"
    and "sint q \<le> int (card A)" and "sint q \<le> int (card B)"
    and "finite F" and "int (card F) \<le> sint f"
  shows "sint x \<le> int (card (A \<inter> B)) \<and> A \<inter> B - F \<noteq> {}"
proof -
  have v: "mustBeValid p = Return ()" and e: "n = validatorCount p" "q = quorum p"
    "f = maxByzantine p" "x = 2 * quorum p - validatorCount p"
    using assms(1-4) by (auto simp: accessor_Return_iff)
  note set = v assms(5) _ assms(7,8) _ _
  have "count_of x \<le> card (A \<inter> B)"
    using thresholds.overlap [OF set] assms e by simp
  moreover have "A \<inter> B - F \<noteq> {}"
    by (rule thresholds.overlap_honest [OF set assms(11)]) (use assms e in simp_all)
  ultimately show ?thesis by simp
qed

text \<open>C5: the thresholds leave the system live and batches recoverable: the members outside a
  fault set F of at most f form a quorum by themselves, every quorum keeps at least k members
  outside F, and any k fragments include one from outside F.\<close>

theorem quorum_available_and_recoverable:
  assumes "ValidatorCount p = Return n" and "Quorum p = Return q" and "MaxByzantine p = Return f"
    and "RecoveryThreshold p = Return k"
    and "finite V" and "int (card V) = sint n" and "F \<subseteq> V" and "int (card F) \<le> sint f"
    and "A \<subseteq> V" and "sint q \<le> int (card A)" and "sint k \<le> int (card R)"
  shows "sint q \<le> int (card (V - F)) \<and> sint k \<le> int (card (A - F)) \<and> R - F \<noteq> {}"
proof -
  have v: "mustBeValid p = Return ()" and e: "n = validatorCount p" "q = quorum p"
    "f = maxByzantine p" "k = recoveryThreshold p"
    using assms(1-4) by (auto simp: accessor_Return_iff)
  have fin: "finite F" "finite A" using assms(5,7,9) by (auto intro: finite_subset)
  have "count_of q \<le> card (V - F)"
    using thresholds.honest_quorum [OF v assms(5) _ assms(7)] assms e by simp
  moreover have "count_of k \<le> card (A - F)"
    using thresholds.quorum_recovers [OF v fin(2) _ fin(1)] assms e by simp
  moreover have "R - F \<noteq> {}"
    using thresholds.recovery_not_byzantine [OF v _ fin(1)] assms e by simp
  ultimately show ?thesis by (simp add: nat_le_iff)
qed

definition four_validators :: QuorumParameters where
  "four_validators = \<lparr>validatorCount = 4, maxByzantine = 1, quorum = 3, recoveryThreshold = 2\<rparr>"

lemma four_validators_valid: "mustBeValid four_validators = Return ()"
  by (simp add: mustBeValid_def four_validators_def MinValidatorCount_def MaxValidatorCount_def
      word_sless_alt go_mod_def go_div_def signed_divide_int_def signed_modulo_int_def)

lemma four_validators_accessors:
  "ValidatorCount four_validators = Return 4" "Quorum four_validators = Return 3"
  "MaxByzantine four_validators = Return 1" "RecoveryThreshold four_validators = Return 2"
  "MinimumQuorumIntersection four_validators = Return 2"
  using four_validators_valid by (simp_all add: accessor_Return_iff) (simp_all add: four_validators_def)

theorem quorums_share_honest_member_witness:
  "(2 :: int) \<le> int (card ({0, 1, 2} \<inter> {1, 2, 3 :: nat})) \<and> {0, 1, 2} \<inter> {1, 2, 3} - {1 :: nat} \<noteq> {}"
  using quorums_share_honest_member [OF four_validators_accessors(1-3,5), of "{0, 1, 2, 3 :: nat}" "{0, 1, 2}" "{1, 2, 3}" "{1}"]
  by simp

theorem quorum_available_and_recoverable_witness:
  "(3 :: int) \<le> int (card ({0, 1, 2, 3 :: nat} - {1})) \<and> 2 \<le> int (card ({0, 1, 2 :: nat} - {1})) \<and>
   {1, 3} - {1 :: nat} \<noteq> {}"
  using quorum_available_and_recoverable [OF four_validators_accessors(1-4), of "{0, 1, 2, 3 :: nat}" "{1}" "{0, 1, 2}" "{1, 3}"]
  by simp

end
