(* ===== verification/Readiness_Tracker.thy ===== *)
theory Readiness_Tracker
  imports Go_Prelude
begin

section \<open>Readiness tracker (pkg/api/health/readiness.go)\<close>

text \<open>
  The process readiness projection: a word in one atomic cell, written by the runtime owner
  and read by both transport adapters. A pointer to a \<open>Tracker\<close> is an \<open>option\<close> (a nil
  pointer makes \<open>Store\<close> and \<open>Snapshot\<close> panic). What a client relies on is the locale
  \<open>readiness_cell\<close>, interpreted on the tracker at the end of the model.
\<close>

type_synonym reason = string

definition ReasonUnavailable :: reason where "ReasonUnavailable = ''unavailable''"

definition ReasonRuntimeUnavailable :: reason where
  "ReasonRuntimeUnavailable = ''runtime_unavailable''"

definition ReasonRecovering :: reason where "ReasonRecovering = ''recovering''"

definition ReasonDraining :: reason where "ReasonDraining = ''draining''"

definition ReasonFailed :: reason where "ReasonFailed = ''failed''"

lemmas reason_defs = ReasonUnavailable_def ReasonRuntimeUnavailable_def ReasonRecovering_def
  ReasonDraining_def ReasonFailed_def

record Readiness =
  Ready :: bool
  Reason :: reason

record Tracker =
  tracker_state :: uint32

definition stateUnavailable :: uint32 where "stateUnavailable = 0"

definition stateRuntimeUnavailable :: uint32 where "stateRuntimeUnavailable = 1"

definition stateRecovering :: uint32 where "stateRecovering = 2"

definition stateDraining :: uint32 where "stateDraining = 3"

definition stateFailed :: uint32 where "stateFailed = 4"

definition stateReady :: uint32 where "stateReady = 5"

lemmas tracker_state_defs = stateUnavailable_def stateRuntimeUnavailable_def stateRecovering_def
  stateDraining_def stateFailed_def stateReady_def

definition encode :: "Readiness \<Rightarrow> uint32" where
  "encode r =
     (if Ready r then stateReady
      else if Reason r = ReasonRuntimeUnavailable then stateRuntimeUnavailable
      else if Reason r = ReasonRecovering then stateRecovering
      else if Reason r = ReasonDraining then stateDraining
      else if Reason r = ReasonFailed then stateFailed
      else stateUnavailable)"

definition decode :: "uint32 \<Rightarrow> Readiness" where
  "decode s =
     (if s = stateRuntimeUnavailable then \<lparr>Ready = False, Reason = ReasonRuntimeUnavailable\<rparr>
      else if s = stateRecovering then \<lparr>Ready = False, Reason = ReasonRecovering\<rparr>
      else if s = stateDraining then \<lparr>Ready = False, Reason = ReasonDraining\<rparr>
      else if s = stateFailed then \<lparr>Ready = False, Reason = ReasonFailed\<rparr>
      else if s = stateReady then \<lparr>Ready = True, Reason = ''''\<rparr>
      else \<lparr>Ready = False, Reason = ReasonUnavailable\<rparr>)"

definition zero_Tracker :: Tracker where
  "zero_Tracker = \<lparr>tracker_state = 0\<rparr>"

definition NewTracker :: Tracker where
  "NewTracker = zero_Tracker\<lparr>tracker_state := stateRuntimeUnavailable\<rparr>"

definition tracker_Store :: "Tracker option \<Rightarrow> Readiness \<Rightarrow> Tracker outcome" where
  "tracker_Store t r =
     (case t of
        None \<Rightarrow> Panic ''health: Tracker must not be nil''
      | Some tr \<Rightarrow> Return (tr\<lparr>tracker_state := encode r\<rparr>))"

definition tracker_Snapshot :: "Tracker option \<Rightarrow> Readiness outcome" where
  "tracker_Snapshot t =
     (case t of
        None \<Rightarrow> Panic ''health: Tracker must not be nil''
      | Some tr \<Rightarrow> Return (decode (tracker_state tr)))"

subsection \<open>The bounded projection\<close>

text \<open>
  What survives a store: readiness drops the reason, an unknown reason becomes
  \<open>unavailable\<close>.
\<close>

definition bounded_reasons :: "reason list" where
  "bounded_reasons =
     [ReasonUnavailable, ReasonRuntimeUnavailable, ReasonRecovering, ReasonDraining, ReasonFailed]"

definition project :: "Readiness \<Rightarrow> Readiness" where
  "project r =
     (if Ready r then \<lparr>Ready = True, Reason = ''''\<rparr>
      else \<lparr>Ready = False, Reason = if Reason r \<in> set bounded_reasons then Reason r else ReasonUnavailable\<rparr>)"

definition bounded_readiness :: "Readiness \<Rightarrow> bool" where
  "bounded_readiness r \<longleftrightarrow>
     (if Ready r then Reason r = '''' else Reason r \<in> set bounded_reasons)"

lemma decode_encode: "decode (encode r) = project r"
  by (simp add: decode_def encode_def project_def bounded_reasons_def tracker_state_defs reason_defs)

lemma bounded_project [simp]: "bounded_readiness (project r)"
  by (simp add: bounded_readiness_def project_def bounded_reasons_def)

lemma bounded_decode: "bounded_readiness (decode s)"
  by (simp add: bounded_readiness_def decode_def bounded_reasons_def)

lemma project_bounded: "bounded_readiness r \<Longrightarrow> project r = r"
  by (cases r) (auto simp: bounded_readiness_def project_def split: if_splits)

lemma project_Ready [simp]: "Ready (project r) = Ready r"
  by (simp add: project_def)

lemma Ready_decode_iff: "Ready (decode s) \<longleftrightarrow> s = stateReady"
  by (simp add: decode_def tracker_state_defs)

text \<open>
  The contract of a readiness cell, as the transport adapters use it: a snapshot reads the
  projection of the last store, and the projection is idempotent.
\<close>

locale readiness_cell =
  fixes store :: "'c \<Rightarrow> Readiness \<Rightarrow> 'c"
    and snapshot :: "'c \<Rightarrow> Readiness"
    and proj :: "Readiness \<Rightarrow> Readiness"
  assumes snapshot_store: "snapshot (store c r) = proj r"
    and snapshot_proj: "proj (snapshot c) = snapshot c"
begin

lemma proj_idem: "proj (proj r) = proj r"
  using snapshot_proj [of "store c r" for c] by (simp add: snapshot_store)

text \<open>A history of stores: only the last one is visible.\<close>

lemma snapshot_fold: "snapshot (fold (\<lambda>r c. store c r) rs c) =
    (if rs = [] then snapshot c else proj (last rs))"
  by (induction rs arbitrary: c) (auto simp: snapshot_store)

lemma snapshot_store_snapshot: "snapshot (store c (snapshot d)) = snapshot d"
  by (simp add: snapshot_store snapshot_proj)

end

interpretation tracker: readiness_cell
  "\<lambda>t r. t\<lparr>tracker_state := encode r\<rparr>" "\<lambda>t. decode (tracker_state t)" project
  by unfold_locales (simp_all add: decode_encode project_bounded bounded_decode)

text \<open>Runs of stores through the pointer, panics included.\<close>

fun store_all :: "Tracker option \<Rightarrow> Readiness list \<Rightarrow> Tracker option outcome" where
  "store_all t [] = Return t"
| "store_all t (r # rs) = and_then (tracker_Store t r) (\<lambda>t'. store_all (Some t') rs)"

lemma store_all_Some:
  "store_all (Some t) rs = Return (Some (fold (\<lambda>r t. t\<lparr>tracker_state := encode r\<rparr>) rs t))"
  by (induction rs arbitrary: t) (simp_all add: tracker_Store_def)

subsection \<open>Properties\<close>

text \<open>C15: after any non-empty history of stores into a tracker, no call panics and a
  snapshot is the last stored readiness with only bounded text left: ready with no reason,
  or not ready with the stored reason when it is one of the five published reasons and
  \<open>unavailable\<close> otherwise.\<close>

theorem snapshot_is_last_store:
  assumes "rs \<noteq> []"
  shows "\<exists>t'. store_all (Some t) rs = Return (Some t') \<and>
           tracker_Snapshot (Some t') =
             Return (if Ready (last rs) then \<lparr>Ready = True, Reason = ''''\<rparr>
                     else if Reason (last rs) \<in> {ReasonUnavailable, ReasonRuntimeUnavailable,
                            ReasonRecovering, ReasonDraining, ReasonFailed} then last rs
                     else \<lparr>Ready = False, Reason = ReasonUnavailable\<rparr>)"
proof -
  have "project (last rs) = (if Ready (last rs) then \<lparr>Ready = True, Reason = ''''\<rparr>
                     else if Reason (last rs) \<in> {ReasonUnavailable, ReasonRuntimeUnavailable,
                            ReasonRecovering, ReasonDraining, ReasonFailed} then last rs
                     else \<lparr>Ready = False, Reason = ReasonUnavailable\<rparr>)"
    by (cases "last rs") (simp add: project_def bounded_reasons_def)
  then show ?thesis
    using assms tracker.snapshot_fold [of rs t] by (simp add: store_all_Some tracker_Snapshot_def)
qed

theorem snapshot_is_last_store_witness:
  "\<exists>t'. store_all (Some NewTracker) [\<lparr>Ready = True, Reason = ReasonFailed\<rparr>,
            \<lparr>Ready = False, Reason = ''provider-secret''\<rparr>] = Return (Some t') \<and>
        tracker_Snapshot (Some t') = Return \<lparr>Ready = False, Reason = ReasonUnavailable\<rparr>"
  using snapshot_is_last_store [of "[\<lparr>Ready = True, Reason = ReasonFailed\<rparr>,
            \<lparr>Ready = False, Reason = ''provider-secret''\<rparr>]" NewTracker]
  by (simp add: reason_defs)

text \<open>C14: the tracker fails closed. The zero value and a new tracker are not ready, a snapshot
  is ready only for the one word \<open>stateReady\<close> that only a ready store writes, every word
  decodes to a bounded readiness, and a nil tracker panics instead of answering.\<close>

theorem tracker_fails_closed:
  "tracker_Snapshot (Some zero_Tracker) = Return \<lparr>Ready = False, Reason = ReasonUnavailable\<rparr> \<and>
   tracker_Snapshot (Some NewTracker) = Return \<lparr>Ready = False, Reason = ReasonRuntimeUnavailable\<rparr> \<and>
   (Ready (decode s) \<longleftrightarrow> s = stateReady) \<and> (encode r = stateReady \<longleftrightarrow> Ready r) \<and>
   bounded_readiness (decode s) \<and>
   (\<exists>m. tracker_Snapshot None = Panic m) \<and> (\<exists>m. tracker_Store None r = Panic m)"
proof -
  have "encode r = stateReady \<longleftrightarrow> Ready r"
    by (simp add: encode_def tracker_state_defs)
  then show ?thesis
    using bounded_decode [of s] Ready_decode_iff [of s]
    by (simp add: tracker_Snapshot_def tracker_Store_def zero_Tracker_def NewTracker_def decode_def
        tracker_state_defs)
qed

text \<open>C38: \<open>encode\<close> and \<open>decode\<close> are inverse on the bounded values: decoding an encoded bounded
  readiness gives it back, and re-encoding a decoded word gives the word back when it is one
  of the six states and \<open>stateUnavailable\<close> for every other word.\<close>

theorem encode_decode_roundtrip:
  "(bounded_readiness r \<longrightarrow> decode (encode r) = r) \<and>
   encode (decode s) = (if s \<le> stateReady then s else stateUnavailable)"
proof -
  have "s \<le> stateReady \<Longrightarrow> s = 0 \<or> s = 1 \<or> s = 2 \<or> s = 3 \<or> s = 4 \<or> s = 5"
    unfolding stateReady_def by unat_arith
  then have "encode (decode s) = (if s \<le> stateReady then s else stateUnavailable)"
    by (auto simp: encode_def decode_def tracker_state_defs reason_defs)
  then show ?thesis by (simp add: decode_encode project_bounded)
qed

theorem encode_decode_roundtrip_witness:
  "decode (encode \<lparr>Ready = False, Reason = ReasonDraining\<rparr>) = \<lparr>Ready = False, Reason = ReasonDraining\<rparr>"
  using encode_decode_roundtrip [of "\<lparr>Ready = False, Reason = ReasonDraining\<rparr>" 0]
  by (simp add: bounded_readiness_def bounded_reasons_def)

end
