(* ===== verification/Go_Strings.thy ===== *)
theory Go_Strings
  imports Go_Prelude
begin

section \<open>Go strings\<close>

text \<open>
  A Go string is a byte sequence, here a \<open>string\<close> whose characters are bytes. The library
  functions the program uses on strings: the \<open>range\<close> loop, which decodes UTF-8 and yields
  U+FFFD for each byte that starts no valid encoding, and \<open>strconv.FormatUint\<close>.
\<close>

subsection \<open>Runes of a range loop\<close>

definition byte :: "char \<Rightarrow> nat" where
  "byte c = of_char c"

definition rune_error :: nat where
  "rune_error = 0xFFFD"

text \<open>
  The lead bytes of a multi-byte encoding: its length and the range of its second byte.
\<close>

definition utf8_lead :: "nat \<Rightarrow> (nat \<times> nat \<times> nat) option" where
  "utf8_lead b =
     (if 0xC2 \<le> b \<and> b \<le> 0xDF then Some (2, 0x80, 0xBF)
      else if b = 0xE0 then Some (3, 0xA0, 0xBF)
      else if b = 0xED then Some (3, 0x80, 0x9F)
      else if 0xE1 \<le> b \<and> b \<le> 0xEF then Some (3, 0x80, 0xBF)
      else if b = 0xF0 then Some (4, 0x90, 0xBF)
      else if 0xF1 \<le> b \<and> b \<le> 0xF3 then Some (4, 0x80, 0xBF)
      else if b = 0xF4 then Some (4, 0x80, 0x8F)
      else None)"

definition is_cont :: "nat \<Rightarrow> bool" where
  "is_cont b \<longleftrightarrow> 0x80 \<le> b \<and> b \<le> 0xBF"

text \<open>The first rune of a non-empty string and the number of bytes it takes.\<close>

fun decode_rune :: "nat \<Rightarrow> nat list \<Rightarrow> nat \<times> nat" where
  "decode_rune b0 bs =
     (if b0 < 0x80 then (b0, 1)
      else case utf8_lead b0 of
        None \<Rightarrow> (rune_error, 1)
      | Some (n, lo, hi) \<Rightarrow>
          (case bs of
             [] \<Rightarrow> (rune_error, 1)
           | b1 # bs1 \<Rightarrow>
               if \<not> (lo \<le> b1 \<and> b1 \<le> hi) then (rune_error, 1)
               else if n = 2 then (b0 mod 32 * 64 + b1 mod 64, 2)
               else (case bs1 of
                       [] \<Rightarrow> (rune_error, 1)
                     | b2 # bs2 \<Rightarrow>
                         if \<not> is_cont b2 then (rune_error, 1)
                         else if n = 3 then ((b0 mod 16 * 64 + b1 mod 64) * 64 + b2 mod 64, 3)
                         else (case bs2 of
                                 [] \<Rightarrow> (rune_error, 1)
                               | b3 # _ \<Rightarrow>
                                   if \<not> is_cont b3 then (rune_error, 1)
                                   else (((b0 mod 8 * 64 + b1 mod 64) * 64 + b2 mod 64) * 64 + b3 mod 64, 4)))))"

declare decode_rune.simps [simp del]

lemma decode_rune_width: "1 \<le> snd (decode_rune b bs)"
  by (auto simp: decode_rune.simps split: option.splits list.splits)

function byte_runes :: "nat list \<Rightarrow> nat list" where
  "byte_runes [] = []"
| "byte_runes (b # bs) =
     fst (decode_rune b bs) # byte_runes (drop (snd (decode_rune b bs) - 1) bs)"
  by pat_completeness auto
termination
  by (relation "measure length") auto

definition runes :: "string \<Rightarrow> nat list" where
  "runes s = byte_runes (map byte s)"

lemma byte_less [simp]: "byte c < 256"
  by (simp add: byte_def of_char_def)

lemma byte_inject [simp]: "byte c = byte d \<longleftrightarrow> c = d"
  by (simp add: byte_def)

text \<open>Only an ASCII byte decodes to an ASCII rune, and then to itself.\<close>

lemma decode_rune_ascii: "b < 0x80 \<Longrightarrow> decode_rune b bs = (b, 1)"
  by (simp add: decode_rune.simps)

lemma mod_window:
  fixes b :: nat
  assumes "m * a + k \<le> b" and "b < m * a + m"
  shows "k \<le> b mod m"
proof -
  obtain r where r: "b = m * a + k + r" using assms(1) by (auto simp: le_iff_add)
  with assms(2) have "b mod m = k + r" by (simp add: add.assoc)
  then show ?thesis by simp
qed

lemma lead_mod:
  fixes b :: nat
  shows "0xC2 \<le> b \<Longrightarrow> b \<le> 0xDF \<Longrightarrow> 2 \<le> b mod 32"
    and "0xE1 \<le> b \<Longrightarrow> b \<le> 0xEF \<Longrightarrow> 1 \<le> b mod 16"
    and "0xF1 \<le> b \<Longrightarrow> b \<le> 0xF4 \<Longrightarrow> 1 \<le> b mod 8"
  using mod_window [of 32 6 2 b] mod_window [of 16 14 1 b] mod_window [of 8 30 1 b] by simp_all

lemma if_SomeE:
  "(if P then Some x else r) = Some y \<Longrightarrow> (P \<Longrightarrow> x = y \<Longrightarrow> C) \<Longrightarrow> (r = Some y \<Longrightarrow> C) \<Longrightarrow> C"
  by (cases P) auto

lemma utf8_lead_cases:
  assumes "utf8_lead b = Some (n, lo, hi)"
  shows "(n = 2 \<and> 0xC2 \<le> b \<and> b \<le> 0xDF \<or> n = 3 \<and> (lo = 0xA0 \<or> 0xE1 \<le> b \<and> b \<le> 0xEF) \<or>
          n = 4 \<and> (lo = 0x90 \<or> 0xF1 \<le> b \<and> b \<le> 0xF4)) \<and> hi \<le> 0xBF"
  using assms unfolding utf8_lead_def by (elim if_SomeE; simp)

lemma utf8_lead_bounds:
  assumes "utf8_lead b = Some (n, lo, hi)"
  shows "n \<noteq> 2 \<or> 2 \<le> b mod 32" and "n \<noteq> 3 \<or> 1 \<le> b mod 16 \<or> 0xA0 \<le> lo"
    and "n = 2 \<or> n = 3 \<or> 1 \<le> b mod 8 \<or> 0x90 \<le> lo" and "hi \<le> 0xBF"
proof -
  define m32 m16 m8 where m: "m32 = b mod 32" "m16 = b mod 16" "m8 = b mod 8"
  note l = lead_mod [of b, folded m]
  note c = utf8_lead_cases [OF assms]
  show "n \<noteq> 2 \<or> 2 \<le> b mod 32" using c l(1) unfolding m [symmetric] by auto
  show "n \<noteq> 3 \<or> 1 \<le> b mod 16 \<or> 0xA0 \<le> lo" using c l(2) unfolding m [symmetric] by auto
  show "n = 2 \<or> n = 3 \<or> 1 \<le> b mod 8 \<or> 0x90 \<le> lo" using c l(3) unfolding m [symmetric] by auto
  show "hi \<le> 0xBF" using c by simp
qed

lemma second_byte_bounds:
  assumes "lo \<le> b1" and "b1 \<le> hi" and "hi \<le> (0xBF :: nat)"
  shows "0xA0 \<le> lo \<Longrightarrow> 32 \<le> b1 mod 64" and "0x90 \<le> lo \<Longrightarrow> 16 \<le> b1 mod 64"
  using assms mod_window [of 64 2 32 b1] mod_window [of 64 2 16 b1] by simp_all

lemma decode_rune_non_ascii:
  assumes "0x80 \<le> b"
  shows "0x80 \<le> fst (decode_rune b bs)"
proof (cases "utf8_lead b")
  case None
  with assms show ?thesis by (simp add: decode_rune.simps rune_error_def)
next
  case (Some l)
  obtain n lo hi where l: "utf8_lead b = Some (n, lo, hi)" using Some by (cases l) auto
  note lead = utf8_lead_bounds [OF l]
  have rune: "decode_rune b bs =
      (case bs of [] \<Rightarrow> (rune_error, 1)
       | b1 # bs1 \<Rightarrow>
           if \<not> (lo \<le> b1 \<and> b1 \<le> hi) then (rune_error, 1)
           else if n = 2 then (b mod 32 * 64 + b1 mod 64, 2)
           else (case bs1 of [] \<Rightarrow> (rune_error, 1)
                 | b2 # bs2 \<Rightarrow>
                     if \<not> is_cont b2 then (rune_error, 1)
                     else if n = 3 then ((b mod 16 * 64 + b1 mod 64) * 64 + b2 mod 64, 3)
                     else (case bs2 of [] \<Rightarrow> (rune_error, 1)
                           | b3 # _ \<Rightarrow>
                               if \<not> is_cont b3 then (rune_error, 1)
                               else (((b mod 8 * 64 + b1 mod 64) * 64 + b2 mod 64) * 64 + b3 mod 64, 4))))"
    using assms l by (simp add: decode_rune.simps [of b bs])
  have big: "0x80 \<le> b mod 32 * 64 + x" if "2 \<le> b mod 32" for x using that by simp
  have err: "0x80 \<le> rune_error" by (simp add: rune_error_def)
  show ?thesis
  proof (cases bs)
    case Nil
    with rune err show ?thesis by simp
  next
    case (Cons b1 bs1)
    show ?thesis
    proof (cases "lo \<le> b1 \<and> b1 \<le> hi")
      case False
      with rune err Cons show ?thesis by simp
    next
      case True
      note sb = second_byte_bounds [OF conjunct1 [OF True] conjunct2 [OF True] lead(4)]
      have three: "0x80 \<le> (b mod 16 * 64 + b1 mod 64) * 64 + x" if "n = 3" for x
        using lead(2) sb(1) that by (elim disjE) auto
      have four: "0x80 \<le> ((b mod 8 * 64 + b1 mod 64) * 64 + x) * 64 + y" if "n \<noteq> 2" "n \<noteq> 3" for x y
        using lead(3) sb(2) that by (elim disjE) auto
      from lead(1) big err three four True Cons show ?thesis
        unfolding rune by (auto split: list.split)
    qed
  qed
qed

text \<open>
  A condition that holds of ASCII runes only can be checked byte by byte: the rune loop
  accepts a string exactly when every byte satisfies it.
\<close>

lemma byte_runes_ascii_all:
  assumes ascii: "\<And>r. P r \<Longrightarrow> r < 0x80"
  shows "(\<forall>r \<in> set (byte_runes bs). P r) \<longleftrightarrow> (\<forall>b \<in> set bs. P b)"
proof (induction bs rule: byte_runes.induct)
  case 1
  show ?case by simp
next
  case (2 b bs)
  show ?case
  proof (cases "b < 0x80")
    case True
    with "2.IH" show ?thesis by (simp add: decode_rune_ascii)
  next
    case False
    then have "\<not> P (fst (decode_rune b bs))" "\<not> P b"
      using decode_rune_non_ascii [of b bs] ascii by force+
    then show ?thesis by simp
  qed
qed

lemma runes_ascii_all:
  assumes "\<And>r. P r \<Longrightarrow> r < 0x80"
  shows "(\<forall>r \<in> set (runes s). P r) \<longleftrightarrow> (\<forall>c \<in> set s. P (byte c))"
  using byte_runes_ascii_all [of P "map byte s"] assms by (simp add: runes_def)

subsection \<open>strconv.FormatUint\<close>

definition base_digits :: string where
  "base_digits = ''0123456789abcdefghijklmnopqrstuvwxyz''"

fun format_digits :: "nat \<Rightarrow> nat \<Rightarrow> string" where
  "format_digits b n =
     (if b < 2 \<or> n < b then [base_digits ! n]
      else format_digits b (n div b) @ [base_digits ! (n mod b)])"

declare format_digits.simps [simp del]

definition FormatUint :: "uint64 \<Rightarrow> nat \<Rightarrow> string" where
  "FormatUint x b = format_digits b (unat x)"

definition digit_value :: "char \<Rightarrow> nat" where
  "digit_value c = length (takeWhile (\<lambda>d. d \<noteq> c) base_digits)"

definition parse_digits :: "nat \<Rightarrow> string \<Rightarrow> nat" where
  "parse_digits b s = foldl (\<lambda>a c. a * b + digit_value c) 0 s"

lemma base_digits_distinct: "distinct base_digits" and base_digits_length: "length base_digits = 36"
  by (simp_all add: base_digits_def)

lemma digit_value_nth: "n < 36 \<Longrightarrow> digit_value (base_digits ! n) = n"
  using takeWhile_eq_take_P_nth [of n base_digits "\<lambda>d. d \<noteq> base_digits ! n"]
  by (simp add: digit_value_def nth_eq_iff_index_eq base_digits_distinct base_digits_length)

lemma base_digit_in: "n < 36 \<Longrightarrow> base_digits ! n \<in> set base_digits"
  by (simp add: base_digits_length)

lemma format_digits_chars:
  "2 \<le> b \<Longrightarrow> b \<le> 36 \<Longrightarrow> set (format_digits b n) \<subseteq> set base_digits"
proof (induction b n rule: format_digits.induct)
  case (1 b n)
  have "n mod b < 36" using "1.prems" mod_less_divisor [of b n] by linarith
  with 1 show ?case
    by (subst format_digits.simps) (auto intro: base_digit_in)
qed

lemma parse_format_digits: "2 \<le> b \<Longrightarrow> b \<le> 36 \<Longrightarrow> parse_digits b (format_digits b n) = n"
proof (induction b n rule: format_digits.induct)
  case (1 b n)
  show ?case
  proof (cases "n < b")
    case True
    with "1.prems" show ?thesis
      by (subst format_digits.simps) (simp add: parse_digits_def digit_value_nth)
  next
    case False
    with "1.prems" have g: "\<not> (b < 2 \<or> n < b)" by simp
    have "n mod b < 36" using "1.prems" mod_less_divisor [of b n] by linarith
    then have "parse_digits b (format_digits b n) = n div b * b + n mod b"
      using "1.IH" [OF g "1.prems"] g
      by (subst format_digits.simps) (simp add: parse_digits_def digit_value_nth)
    then show ?thesis by simp
  qed
qed

lemma format_digits_length:
  "2 \<le> b \<Longrightarrow> n < b ^ Suc k \<Longrightarrow> length (format_digits b n) \<le> Suc k"
proof (induction k arbitrary: n)
  case 0
  then show ?case by (subst format_digits.simps) simp
next
  case (Suc k)
  show ?case
  proof (cases "n < b")
    case True
    then show ?thesis by (subst format_digits.simps) simp
  next
    case False
    have "n div b < b ^ Suc k"
      using Suc.prems by (simp add: less_mult_imp_div_less mult.commute)
    then have "length (format_digits b (n div b)) \<le> Suc k"
      using Suc by blast
    with False show ?thesis by (subst format_digits.simps) simp
  qed
qed

lemma format_digits_not_Nil [simp]: "format_digits b n \<noteq> []"
  by (subst format_digits.simps) simp

lemma FormatUint_inject: "2 \<le> b \<Longrightarrow> b \<le> 36 \<Longrightarrow> FormatUint x b = FormatUint y b \<longleftrightarrow> x = y"
  by (metis FormatUint_def parse_format_digits unsigned_word_eqI)

lemma FormatUint_36_length: "length (FormatUint x 36) \<le> 13"
proof -
  have "unat x < 2 ^ LENGTH(64)" by (rule unsigned_less)
  then have "unat x < 36 ^ Suc 12" by simp
  then show ?thesis
    unfolding FormatUint_def using format_digits_length [of 36 "unat x" 12] by simp
qed

end
