(* ===== verification/Request_Ids.thy ===== *)
theory Request_Ids
  imports Go_Strings "HOL-Library.Multiset"
begin

section \<open>Request identifiers (httpserver/server.go, grpcserver/interceptors.go)\<close>

text \<open>
  Both adapters give every request an identifier: the client's, when it is short and made of
  harmless bytes, otherwise a generated one from an atomic counter. The two packages hold
  their own copy of \<open>acceptedRequestID\<close>; what they promise is the locale \<open>request_id_source\<close>,
  interpreted once for each.
\<close>

definition http_acceptedRequestID :: "string \<Rightarrow> string" where
  "http_acceptedRequestID candidate =
     (if length candidate = 0 \<or> 64 < length candidate then ''''
      else if \<forall>r \<in> set (runes candidate).
                (byte CHR ''a'' \<le> r \<and> r \<le> byte CHR ''z'') \<or>
                (byte CHR ''A'' \<le> r \<and> r \<le> byte CHR ''Z'') \<or>
                (byte CHR ''0'' \<le> r \<and> r \<le> byte CHR ''9'') \<or>
                r = byte CHR ''-'' \<or> r = byte CHR ''_'' \<or> r = byte CHR ''.''
      then candidate else '''')"

definition grpc_acceptedRequestID :: "string \<Rightarrow> string" where
  "grpc_acceptedRequestID candidate =
     (if length candidate = 0 \<or> 64 < length candidate then ''''
      else if \<forall>r \<in> set (runes candidate).
                (byte CHR ''a'' \<le> r \<and> r \<le> byte CHR ''z'') \<or>
                (byte CHR ''A'' \<le> r \<and> r \<le> byte CHR ''Z'') \<or>
                (byte CHR ''0'' \<le> r \<and> r \<le> byte CHR ''9'') \<or>
                r = byte CHR ''-'' \<or> r = byte CHR ''_'' \<or> r = byte CHR ''.''
      then candidate else '''')"

text \<open>
  The HTTP identifier of a request with header value \<open>candidate\<close>, and the counter after it
  (\<open>sequence.Add(1)\<close> returns the new value).
\<close>

definition http_request_id :: "string \<Rightarrow> uint64 \<Rightarrow> string \<times> uint64" where
  "http_request_id candidate sequence =
     (let requestID = http_acceptedRequestID candidate
      in if requestID = '''' then (''fw-http-'' @ FormatUint (sequence + 1) 36, sequence + 1)
         else (requestID, sequence))"

definition requestIDMetadataKey :: string where
  "requestIDMetadataKey = ''x-request-id''"

text \<open>
  The gRPC identifier: \<open>incoming\<close> is what \<open>metadata.FromIncomingContext\<close> found, \<open>get\<close> the
  library's \<open>MD.Get\<close>.
\<close>

definition requestIDFromMetadata ::
  "('md \<Rightarrow> string \<Rightarrow> string list) \<Rightarrow> 'md option \<Rightarrow> uint64 \<Rightarrow> string \<times> uint64" where
  "requestIDFromMetadata get incoming sequence =
     (let generated = (''fw-grpc-'' @ FormatUint (sequence + 1) 36, sequence + 1)
      in case incoming of
           None \<Rightarrow> generated
         | Some md \<Rightarrow>
             (let values = get md requestIDMetadataKey
              in if length values = 1 then
                   (let accepted = grpc_acceptedRequestID (values ! 0)
                    in if accepted \<noteq> '''' then (accepted, sequence) else generated)
                 else generated))"

subsection \<open>Identifiers a log line can carry\<close>

definition id_bytes :: "char set" where
  "id_bytes = set ''abcdefghijklmnopqrstuvwxyzABCDEFGHIJKLMNOPQRSTUVWXYZ0123456789-_.''"

definition safe_id :: "string \<Rightarrow> bool" where
  "safe_id s \<longleftrightarrow> 1 \<le> length s \<and> length s \<le> 64 \<and> set s \<subseteq> id_bytes"

definition id_rune :: "nat \<Rightarrow> bool" where
  "id_rune r \<longleftrightarrow> (97 \<le> r \<and> r \<le> 122) \<or> (65 \<le> r \<and> r \<le> 90) \<or> (48 \<le> r \<and> r \<le> 57) \<or>
     r = 45 \<or> r = 95 \<or> r = 46"

lemma id_rune_ascii: "id_rune r \<Longrightarrow> r < 0x80"
  by (auto simp: id_rune_def)

lemma byte_id_bytes: "byte ` id_bytes = {r. id_rune r}"
proof -
  have "byte ` id_bytes = set (map byte ''abcdefghijklmnopqrstuvwxyzABCDEFGHIJKLMNOPQRSTUVWXYZ0123456789-_.'')"
    by (simp only: id_bytes_def set_map)
  also have "map byte ''abcdefghijklmnopqrstuvwxyzABCDEFGHIJKLMNOPQRSTUVWXYZ0123456789-_.'' =
      [97 ..< 123] @ [65 ..< 91] @ [48 ..< 58] @ [45, 95, 46]"
    by (simp add: byte_def upt_rec)
  also have "set \<dots> = {r. id_rune r}"
    by (simp only: set_append set_upt) (auto simp: id_rune_def)
  finally show ?thesis .
qed

lemma id_rune_byte_iff: "id_rune (byte c) \<longleftrightarrow> c \<in> id_bytes"
proof -
  have "id_rune (byte c) \<longleftrightarrow> byte c \<in> byte ` id_bytes" by (simp add: byte_id_bytes)
  then show ?thesis by (simp add: inj_image_mem_iff inj_def)
qed

lemma runes_id_iff: "(\<forall>r \<in> set (runes s). id_rune r) \<longleftrightarrow> set s \<subseteq> id_bytes"
  using runes_ascii_all [of id_rune s] id_rune_ascii by (auto simp: id_rune_byte_iff)

lemma acceptedRequestID_eq:
  "http_acceptedRequestID s = (if safe_id s then s else '''')"
  "grpc_acceptedRequestID s = (if safe_id s then s else '''')"
  using runes_id_iff [of s]
  by (auto simp: http_acceptedRequestID_def grpc_acceptedRequestID_def safe_id_def id_rune_def
      byte_def Suc_le_eq)

text \<open>The counter threads through the requests in the order their atomic adds happen.\<close>

fun assign_all :: "('i \<Rightarrow> uint64 \<Rightarrow> string \<times> uint64) \<Rightarrow> 'i list \<Rightarrow> uint64 \<Rightarrow> string list \<times> uint64" where
  "assign_all f [] s = ([], s)"
| "assign_all f (i # is) s =
     (let (x, s1) = f i s; (xs, s2) = assign_all f is s1 in (x # xs, s2))"

subsection \<open>The contract of an identifier source\<close>

locale request_id_source =
  fixes assign :: "'i \<Rightarrow> uint64 \<Rightarrow> string \<times> uint64"
    and supplied :: "'i \<Rightarrow> string option"
    and prefix :: string
  assumes assign_eq: "assign i s =
      (case supplied i of Some x \<Rightarrow> (x, s) | None \<Rightarrow> (prefix @ FormatUint (s + 1) 36, s + 1))"
    and supplied_safe: "supplied i = Some x \<Longrightarrow> safe_id x"
    and prefix_safe: "set prefix \<subseteq> id_bytes" "length prefix \<le> 51"
begin

lemma generated_safe: "safe_id (prefix @ FormatUint x 36)"
proof -
  have "set base_digits \<subseteq> id_bytes" by (simp add: base_digits_def id_bytes_def)
  then have "set (FormatUint x 36) \<subseteq> id_bytes"
    using format_digits_chars [of 36 "unat x"] by (auto simp: FormatUint_def)
  moreover have "1 \<le> length (FormatUint x 36)"
    by (simp add: FormatUint_def Suc_le_eq)
  ultimately show ?thesis
    using prefix_safe FormatUint_36_length [of x] by (auto simp: safe_id_def)
qed

lemma assign_safe: "safe_id (fst (assign i s))"
  using generated_safe supplied_safe by (auto simp: assign_eq split: option.splits)

definition generated :: "'i list \<Rightarrow> nat \<Rightarrow> nat" where
  "generated is k = length (filter (\<lambda>i. supplied i = None) (take k is))"

lemma assign_all_length: "length (fst (assign_all assign is s)) = length is"
proof (induction "is" arbitrary: s)
  case (Cons i "is")
  show ?case using Cons [of "snd (assign i s)"] by (simp add: Let_def case_prod_beta)
qed simp

lemma assign_all_nth:
  "k < length is \<Longrightarrow> fst (assign_all assign is s) ! k =
     (case supplied (is ! k) of Some x \<Rightarrow> x
      | None \<Rightarrow> prefix @ FormatUint (s + of_nat (generated is (Suc k))) 36)"
proof (induction "is" arbitrary: s k)
  case Nil
  then show ?case by simp
next
  case (Cons i "is")
  obtain x s1 where a: "assign i s = (x, s1)" by fastforce
  obtain xs s2 where b: "assign_all assign is s1 = (xs, s2)" by fastforce
  have all: "fst (assign_all assign (i # is) s) = x # xs" using a b by simp
  show ?case
  proof (cases k)
    case 0
    with a all assign_eq [of i s] show ?thesis
      by (auto simp: generated_def split: option.splits)
  next
    case (Suc k')
    with Cons.prems have "fst (assign_all assign is s1) ! k' = (case supplied (is ! k') of Some x \<Rightarrow> x
      | None \<Rightarrow> prefix @ FormatUint (s1 + of_nat (generated is (Suc k'))) 36)"
      using Cons.IH by simp
    with a b all Suc assign_eq [of i s] show ?thesis
      by (auto simp: generated_def add.assoc split: option.splits)
  qed
qed

lemma generated_less:
  assumes "j < k" and "k < length is" and "supplied (is ! k) = None"
  shows "generated is (Suc j) < generated is (Suc k)"
proof -
  have "take k is = take (Suc j) is @ take (k - Suc j) (drop (Suc j) is)"
    using take_add [of "Suc j" "k - Suc j" "is"] assms(1) by simp
  then have "take (Suc k) is = take (Suc j) is @ take (k - Suc j) (drop (Suc j) is) @ [is ! k]"
    using assms(2) by (simp add: take_Suc_conv_app_nth)
  then show ?thesis using assms(3) by (simp add: generated_def)
qed

lemma advances_iff: "snd (assign i 0) = 1 \<longleftrightarrow> supplied i = None"
  by (simp add: assign_eq split: option.splits)

lemma generated_le: "generated is k \<le> length is"
  unfolding generated_def by (rule order_trans [OF length_filter_le]) simp

lemma generated_distinct:
  assumes jk: "j < k" "k < length is" and none: "supplied (is ! j) = None" "supplied (is ! k) = None"
    and len: "length is \<le> 2 ^ 64"
  shows "fst (assign_all assign is s) ! j \<noteq> fst (assign_all assign is s) ! k"
proof
  assume "fst (assign_all assign is s) ! j = fst (assign_all assign is s) ! k"
  with jk none have eq: "(of_nat (generated is (Suc j)) :: uint64) = of_nat (generated is (Suc k))"
    by (simp add: assign_all_nth FormatUint_inject)
  have lt: "generated is (Suc j) < generated is (Suc k)" using generated_less jk none by blast
  have pos: "0 < generated is (Suc j)"
    using jk none by (simp add: generated_def take_Suc_conv_app_nth)
  have le: "generated is (Suc k) \<le> 2 ^ 64" using generated_le len by (rule order_trans)
  define d where "d = generated is (Suc k) - generated is (Suc j)"
  have "(of_nat d :: uint64) = 0" using eq lt by (simp add: d_def)
  then have "2 ^ 64 dvd d" by (simp add: word_of_nat_eq_0_iff)
  moreover have "0 < d" "d < 2 ^ 64" using lt pos le by (simp_all add: d_def)
  ultimately show False using nat_dvd_not_less by blast
qed

end

text \<open>What each adapter takes from the client.\<close>

definition http_supplied :: "string \<Rightarrow> string option" where
  "http_supplied h = (if safe_id h then Some h else None)"

definition grpc_supplied :: "('md \<Rightarrow> string \<Rightarrow> string list) \<Rightarrow> 'md option \<Rightarrow> string option" where
  "grpc_supplied get incoming =
     (case incoming of None \<Rightarrow> None
      | Some md \<Rightarrow> (case get md requestIDMetadataKey of [v] \<Rightarrow> if safe_id v then Some v else None | _ \<Rightarrow> None))"

lemma not_safe_Nil [simp]: "\<not> safe_id ''''"
  by (simp add: safe_id_def)

interpretation http_ids: request_id_source http_request_id http_supplied "''fw-http-''"
proof
  fix h s x
  show "http_request_id h s = (case http_supplied h of Some x \<Rightarrow> (x, s)
      | None \<Rightarrow> (''fw-http-'' @ FormatUint (s + 1) 36, s + 1))"
    by (auto simp: http_request_id_def http_supplied_def acceptedRequestID_eq Let_def)
  show "http_supplied h = Some x \<Longrightarrow> safe_id x"
    by (auto simp: http_supplied_def split: if_splits)
qed (simp_all add: id_bytes_def)

interpretation grpc_ids: request_id_source "requestIDFromMetadata get" "grpc_supplied get" "''fw-grpc-''"
  for get :: "'md \<Rightarrow> string \<Rightarrow> string list"
proof
  fix m :: "'md option" and s x
  show "requestIDFromMetadata get m s = (case grpc_supplied get m of Some x \<Rightarrow> (x, s)
      | None \<Rightarrow> (''fw-grpc-'' @ FormatUint (s + 1) 36, s + 1))"
    by (auto simp: requestIDFromMetadata_def grpc_supplied_def acceptedRequestID_eq Let_def
        split: option.splits list.splits)
  show "grpc_supplied get m = Some x \<Longrightarrow> safe_id x"
    by (auto simp: grpc_supplied_def split: if_splits option.splits list.splits)
qed (simp_all add: id_bytes_def)

subsection \<open>Properties\<close>

text \<open>C32: the two copies of \<open>acceptedRequestID\<close> agree, and although they loop over decoded
  UTF-8 runes they accept exactly the strings of 1 to 64 bytes from the unreserved set
  (letters, digits, dash, underscore, dot); what they accept they return unchanged, anything
  else becomes the empty string.\<close>

theorem acceptedRequestID_exact:
  "http_acceptedRequestID s = grpc_acceptedRequestID s \<and>
   http_acceptedRequestID s =
     (if 1 \<le> length s \<and> length s \<le> 64 \<and>
         set s \<subseteq> set ''abcdefghijklmnopqrstuvwxyzABCDEFGHIJKLMNOPQRSTUVWXYZ0123456789-_.''
      then s else '''')"
  unfolding acceptedRequestID_eq safe_id_def id_bytes_def by (rule conjI refl)+

text \<open>C33: every request gets an identifier that is safe to log and to return in a header:
  whatever the client sends, over HTTP and over gRPC, it has 1 to 64 bytes, all of them
  unreserved; the client's own value is used only when it is such a string (over gRPC: the
  single value of its key), and the counter advances exactly when one is generated.\<close>

theorem request_ids_safe:
  "safe_id (fst (http_request_id h s)) \<and> safe_id (fst (requestIDFromMetadata get m s)) \<and>
   http_request_id h s =
     (if safe_id h then (h, s) else (''fw-http-'' @ FormatUint (s + 1) 36, s + 1)) \<and>
   requestIDFromMetadata get m s =
     (case m of
        Some md \<Rightarrow> (case get md ''x-request-id'' of
            [v] \<Rightarrow> if safe_id v then (v, s) else (''fw-grpc-'' @ FormatUint (s + 1) 36, s + 1)
          | _ \<Rightarrow> (''fw-grpc-'' @ FormatUint (s + 1) 36, s + 1))
      | None \<Rightarrow> (''fw-grpc-'' @ FormatUint (s + 1) 36, s + 1))"
proof (intro conjI)
  show "http_request_id h s =
      (if safe_id h then (h, s) else (''fw-http-'' @ FormatUint (s + 1) 36, s + 1))"
    by (simp add: http_ids.assign_eq http_supplied_def)
  show "requestIDFromMetadata get m s =
     (case m of
        Some md \<Rightarrow> (case get md ''x-request-id'' of
            [v] \<Rightarrow> if safe_id v then (v, s) else (''fw-grpc-'' @ FormatUint (s + 1) 36, s + 1)
          | _ \<Rightarrow> (''fw-grpc-'' @ FormatUint (s + 1) 36, s + 1))
      | None \<Rightarrow> (''fw-grpc-'' @ FormatUint (s + 1) 36, s + 1))"
    by (simp add: grpc_ids.assign_eq grpc_supplied_def requestIDMetadataKey_def
        split: option.splits list.splits)
qed (rule http_ids.assign_safe grpc_ids.assign_safe)+

text \<open>C34: generated identifiers do not collide: in any sequence of at most 2^64 requests served
  from one counter (in the order of their atomic adds, from any start value, wrapping
  included), two requests that advance the counter get different identifiers; so for the HTTP
  middleware, and so for \<open>requestIDFromMetadata\<close> whatever metadata the calls carry.\<close>

theorem generated_ids_distinct:
  assumes http: "j < k" "k < length hs" "length hs \<le> 2 ^ 64"
      "snd (http_request_id (hs ! j) 0) = 1" "snd (http_request_id (hs ! k) 0) = 1"
    and grpc: "j' < k'" "k' < length ms" "length ms \<le> 2 ^ 64"
      "snd (requestIDFromMetadata get (ms ! j') 0) = 1" "snd (requestIDFromMetadata get (ms ! k') 0) = 1"
  shows "fst (assign_all http_request_id hs s) ! j \<noteq> fst (assign_all http_request_id hs s) ! k \<and>
    fst (assign_all (requestIDFromMetadata get) ms s) ! j' \<noteq> fst (assign_all (requestIDFromMetadata get) ms s) ! k'"
proof
  show "fst (assign_all http_request_id hs s) ! j \<noteq> fst (assign_all http_request_id hs s) ! k"
    by (rule http_ids.generated_distinct) (use http in \<open>simp_all add: http_ids.advances_iff\<close>)
  show "fst (assign_all (requestIDFromMetadata get) ms s) ! j' \<noteq> fst (assign_all (requestIDFromMetadata get) ms s) ! k'"
    by (rule grpc_ids.generated_distinct) (use grpc in \<open>simp_all add: grpc_ids.advances_iff\<close>)
qed

theorem generated_ids_distinct_witness:
  "fst (assign_all http_request_id ['''', ''ok'', ''bad id''] (- 1)) ! 0 \<noteq>
     fst (assign_all http_request_id ['''', ''ok'', ''bad id''] (- 1)) ! 2 \<and>
   fst (assign_all (requestIDFromMetadata (\<lambda>md _. md)) [None, Some [''a'', ''b'']] (- 1)) ! 0 \<noteq>
     fst (assign_all (requestIDFromMetadata (\<lambda>md _. md)) [None, Some [''a'', ''b'']] (- 1)) ! 1"
proof -
  have "\<not> safe_id ''bad id''" by (simp add: safe_id_def id_bytes_def)
  then show ?thesis
    using generated_ids_distinct [of 0 2 "['''', ''ok'', ''bad id'']" 0 1 "[None, Some [''a'', ''b'']]" "\<lambda>md _. md" "- 1"]
    by (simp add: http_ids.advances_iff http_supplied_def grpc_ids.advances_iff grpc_supplied_def)
qed

subsection \<open>The metadata budget\<close>

text \<open>
  \<open>metadataSize\<close>: the incoming metadata is a Go map, here its entries in the order one
  \<open>range\<close> loop happens to visit them. Lengths are converted to \<open>uint64\<close>.
\<close>

definition saturatingAdd :: "uint64 \<Rightarrow> uint64 \<Rightarrow> uint64" where
  "saturatingAdd left right =
     (let result = left + right in if result < left then not 0 else result)"

definition uint64_len :: "'a list \<Rightarrow> uint64" where
  "uint64_len xs = of_nat (length xs)"

fun metadata_values_size :: "string \<Rightarrow> string list \<Rightarrow> uint64 \<Rightarrow> uint64" where
  "metadata_values_size key [] size' = size'"
| "metadata_values_size key (value # values) size' =
     (let fieldSize = saturatingAdd (uint64_len key) (uint64_len value);
          fieldSize = saturatingAdd fieldSize 32
      in metadata_values_size key values (saturatingAdd size' fieldSize))"

fun metadata_fields_size :: "(string \<times> string list) list \<Rightarrow> uint64 \<Rightarrow> uint64" where
  "metadata_fields_size [] size' = size'"
| "metadata_fields_size ((key, values) # fields) size' =
     metadata_fields_size fields (metadata_values_size key values size')"

definition metadataSize :: "(string \<times> string list) list option \<Rightarrow> uint64" where
  "metadataSize incoming =
     (case incoming of None \<Rightarrow> 0 | Some fields \<Rightarrow> metadata_fields_size fields 0)"

definition max_u64 :: nat where
  "max_u64 = 2 ^ 64 - 1"

lemma unat_le_max_u64: "unat (s :: uint64) \<le> max_u64"
proof -
  have "unat s < 2 ^ LENGTH(64)" by (rule unsigned_less)
  then show ?thesis by (simp add: max_u64_def)
qed

lemma unat_saturatingAdd: "unat (saturatingAdd a b) = min (unat a + unat b) max_u64"
proof -
  have la: "unat a < 2 ^ 64" and lb: "unat b < 2 ^ 64"
    using unat_le_max_u64 [of a] unat_le_max_u64 [of b] by (simp_all add: max_u64_def)
  have ov: "a + b < a \<longleftrightarrow> 2 ^ 64 \<le> unat a + unat b"
  proof (cases "unat a + unat b < 2 ^ 64")
    case True
    then have "unat (a + b) = unat a + unat b" by (simp add: unat_word_ariths)
    with True show ?thesis by (simp add: word_less_nat_alt)
  next
    case False
    then have "unat (a + b) = unat a + unat b - 2 ^ 64"
      using la lb by (simp add: unat_word_ariths mod_if)
    with False lb show ?thesis by (simp add: word_less_nat_alt)
  qed
  show ?thesis
  proof (cases "a + b < a")
    case True
    have "unat (not 0 :: uint64) = max_u64"
      by (simp add: max_u64_def unsigned_minus_1_eq_mask mask_eq_exp_minus_1)
    with True ov show ?thesis by (simp add: saturatingAdd_def max_u64_def)
  next
    case False
    with ov have "unat (a + b) = unat a + unat b" by (simp add: unat_word_ariths)
    with False ov show ?thesis by (simp add: saturatingAdd_def max_u64_def)
  qed
qed

text \<open>
  The HTTP/2 header-list size over the integers, and the lengths a Go string can have.
\<close>

definition header_list_size :: "(string \<times> string list) list \<Rightarrow> nat" where
  "header_list_size fields =
     (\<Sum>(key, values) \<leftarrow> fields. \<Sum>value \<leftarrow> values. length key + length value + 32)"

definition go_sized :: "(string \<times> string list) list \<Rightarrow> bool" where
  "go_sized fields \<longleftrightarrow>
     (\<forall>(key, values) \<in> set fields. length key < 2 ^ 63 \<and> (\<forall>value \<in> set values. length value < 2 ^ 63))"

lemma unat_uint64_len: "length xs < 2 ^ 63 \<Longrightarrow> unat (uint64_len xs) = length xs"
  by (simp add: uint64_len_def unsigned_of_nat take_bit_nat_eq_self)

lemma min_max_u64_add: "min (min a max_u64 + b) max_u64 = min (a + b) max_u64"
  by (simp add: min_def)

lemma metadata_values_size_exact:
  assumes "length key < 2 ^ 63" and "\<forall>value \<in> set values. length value < 2 ^ 63"
  shows "unat (metadata_values_size key values s) =
    min (unat s + (\<Sum>value \<leftarrow> values. length key + length value + 32)) max_u64"
  using assms(2)
proof (induction "values" arbitrary: s)
  case Nil
  show ?case using unat_le_max_u64 [of s] by simp
next
  case (Cons v vs)
  have "unat (32 :: uint64) = 32" by simp
  then have f: "unat (saturatingAdd (saturatingAdd (uint64_len key) (uint64_len v)) 32) =
      min (length key + length v + 32) max_u64"
    using assms(1) Cons.prems by (simp add: unat_saturatingAdd unat_uint64_len min_max_u64_add)
  have step: "unat (saturatingAdd s (saturatingAdd (saturatingAdd (uint64_len key) (uint64_len v)) 32)) =
      min (unat s + min (length key + length v + 32) max_u64) max_u64"
    by (simp only: unat_saturatingAdd [of s] f)
  have "unat (metadata_values_size key (v # vs) s) =
      min (min (unat s + min (length key + length v + 32) max_u64) max_u64 +
           (\<Sum>value \<leftarrow> vs. length key + length value + 32)) max_u64"
    using Cons by (simp add: Let_def step)
  also have "\<dots> = min (unat s + (length key + length v + 32) +
           (\<Sum>value \<leftarrow> vs. length key + length value + 32)) max_u64"
    by (simp add: min_def)
  finally show ?case by (simp add: add.assoc)
qed

lemma metadata_fields_size_exact:
  "go_sized fields \<Longrightarrow>
     unat (metadata_fields_size fields s) = min (unat s + header_list_size fields) max_u64"
proof (induction fields s rule: metadata_fields_size.induct)
  case (1 s)
  show ?case using unat_le_max_u64 [of s] by (simp add: header_list_size_def)
next
  case (2 key "values" fields s)
  then have "unat (metadata_values_size key values s) =
      min (unat s + (\<Sum>value \<leftarrow> values. length key + length value + 32)) max_u64"
    by (intro metadata_values_size_exact) (auto simp: go_sized_def)
  with 2 show ?case
    by (simp add: go_sized_def header_list_size_def min_max_u64_add add.assoc)
qed

lemma header_list_size_mset:
  assumes "mset fields = mset fields'"
  shows "header_list_size fields = header_list_size fields'"
proof -
  have "mset (map (\<lambda>(key, values). \<Sum>value \<leftarrow> values. length key + length value + 32) fields) =
        mset (map (\<lambda>(key, values). \<Sum>value \<leftarrow> values. length key + length value + 32) fields')"
    using assms by simp
  then show ?thesis
    unfolding header_list_size_def by (metis sum_mset_sum_list)
qed

text \<open>C31: the metadata budget is exact up to saturation: \<open>metadataSize\<close> is the HTTP/2
  header-list size (name plus value plus 32 for every repeated value) capped at 2^64 - 1, so
  a size over any \<open>uint32\<close> limit is never missed by wrap-around, and the order in which the
  map loop visits the entries does not matter.\<close>

theorem metadataSize_exact:
  assumes "go_sized fields" and "mset fields' = mset fields"
  shows "unat (metadataSize (Some fields)) = min (header_list_size fields) (2 ^ 64 - 1) \<and>
         metadataSize (Some fields') = metadataSize (Some fields) \<and>
         (metadataSize (Some fields) > ucast (limit :: uint32) \<longleftrightarrow>
            header_list_size fields > unat limit)"
proof -
  have e: "unat (metadataSize (Some fields)) = min (header_list_size fields) max_u64"
    using metadata_fields_size_exact [OF assms(1), of 0] by (simp add: metadataSize_def)
  have "set fields' = set fields" using assms(2) by (metis set_mset_mset)
  then have "go_sized fields'" using assms(1) by (simp add: go_sized_def)
  from metadata_fields_size_exact [OF this, of 0]
  have "unat (metadataSize (Some fields')) = unat (metadataSize (Some fields))"
    using e header_list_size_mset [OF assms(2)] by (simp add: metadataSize_def)
  then have p: "metadataSize (Some fields') = metadataSize (Some fields)"
    by (simp only: word_unat_eq_iff)
  have "unat limit < 2 ^ LENGTH(32)" by (rule unsigned_less)
  moreover from this have "unat (ucast limit :: uint64) = unat limit"
    by (simp add: unsigned_ucast_eq take_bit_nat_eq_self)
  ultimately have "metadataSize (Some fields) > ucast limit \<longleftrightarrow> header_list_size fields > unat limit"
    by (auto simp: word_less_nat_alt e max_u64_def min_def)
  with e p show ?thesis by (simp add: max_u64_def)
qed

theorem metadataSize_exact_witness:
  "metadataSize (Some [(''a'', [''bc'', '''']), (''d'', [''e''])]) =
   metadataSize (Some [(''d'', [''e'']), (''a'', [''bc'', ''''])]) \<and>
   unat (metadataSize (Some [(''d'', [''e'']), (''a'', [''bc'', ''''])])) = 102"
  using metadataSize_exact [of "[(''d'', [''e'']), (''a'', [''bc'', ''''])]"
      "[(''a'', [''bc'', '''']), (''d'', [''e''])]" 0]
  by (simp add: go_sized_def header_list_size_def)

end
