(* ===== verification/Config_Checks.thy ===== *)
theory Config_Checks
  imports Go_Errors
begin

section \<open>Configuration checks\<close>

text \<open>
  Both adapters validate their limits with a sequence of guarded early returns. The contract
  the constructors rely on is the locale \<open>checked_config\<close>: the validation is the first
  failure of a list of independent checks, and each failure wraps one sentinel. It is
  interpreted on both \<open>validate\<close> methods. The durations of package \<open>time\<close> are nanoseconds in
  a 64-bit word.
\<close>

definition time_Nanosecond :: duration where "time_Nanosecond = 1"

definition time_Second :: duration where "time_Second = 1000000000"

definition time_Minute :: duration where "time_Minute = 60 * time_Second"

definition time_Hour :: duration where "time_Hour = 60 * time_Minute"

lemmas time_defs = time_Nanosecond_def time_Second_def time_Minute_def time_Hour_def

text \<open>\<open>or_else\<close> chains early returns: the first check that fails is the result.\<close>

definition or_else :: "'a option \<Rightarrow> 'a option \<Rightarrow> 'a option" where
  "or_else r rest = (case r of Some e \<Rightarrow> Some e | None \<Rightarrow> rest)"

lemma or_else_simps [simp]:
  "or_else (Some e) r = Some e" "or_else None r = r" "or_else r None = r"
  by (simp_all add: or_else_def split: option.splits)

lemma or_else_guard [simp]:
  "or_else (if g then Some e else None) r = (if g then Some e else r)"
  by simp

lemma first_some_or_else: "first_some (x # xs) = or_else x (first_some xs)"
  by (cases x) simp_all

locale checked_config =
  fixes validate :: "'c \<Rightarrow> 'e go_error option"
    and checks :: "('c \<Rightarrow> 'e go_error option) list"
    and invalid :: 'e
  assumes validate_first: "validate c = first_some (map (\<lambda>chk. chk c) checks)"
    and check_wraps: "chk \<in> set checks \<Longrightarrow> chk c = Some e \<Longrightarrow> errors_is_err e (Sentinel invalid)"
begin

lemma validate_None_iff: "validate c = None \<longleftrightarrow> (\<forall>chk \<in> set checks. chk c = None)"
  by (simp add: validate_first first_some_None_iff)

lemma first_some_in: "first_some xs = Some x \<Longrightarrow> Some x \<in> set xs"
  by (induction xs rule: first_some.induct) auto

lemma validate_wraps: "validate c = Some e \<Longrightarrow> errors_is_err e (Sentinel invalid)"
  using check_wraps by (fastforce simp: validate_first dest!: first_some_in)

lemma validate_is_iff: "errors_is (validate c) (Sentinel invalid) \<longleftrightarrow> validate c \<noteq> None"
  using validate_wraps by (cases "validate c") auto

text \<open>The reported failure is the first one: every earlier check passed.\<close>

lemma validate_first_failure:
  assumes "i < length checks" and "\<forall>j < i. (checks ! j) c = None" and "(checks ! i) c = Some e"
  shows "validate c = Some e"
  unfolding validate_first using assms
proof (induction checks arbitrary: i)
  case Nil
  then show ?case by simp
next
  case (Cons chk chks)
  show ?case
  proof (cases i)
    case 0
    with Cons.prems show ?thesis by simp
  next
    case (Suc k)
    then have "chk c = None" using Cons.prems(2) by force
    moreover have "first_some (map (\<lambda>chk. chk c) chks) = Some e"
      using Cons.prems Suc by (intro Cons.IH [of k]) auto
    ultimately show ?thesis by simp
  qed
qed

end

text \<open>A product bound checked by division never wraps: \<open>uint64(a) > limit / uint64(b)\<close>.\<close>

lemma division_guard_iff:
  fixes a b limit :: uint64
  assumes "0 < b"
  shows "a > limit div b \<longleftrightarrow> unat a * unat b > unat limit"
proof -
  have "0 < unat b" using assms by (simp add: word_less_nat_alt)
  then have "unat limit div unat b < unat a \<longleftrightarrow> unat limit < unat a * unat b"
    by (rule div_less_iff_less_mult)
  then show ?thesis by (simp add: word_less_nat_alt unat_div)
qed

lemma division_guard_signed [go_arith]:
  fixes a b :: go_int and limit :: uint64
  assumes "0 < sint a" and "0 < sint b"
  shows "a > limit div b \<longleftrightarrow> sint a * sint b > uint limit"
proof -
  have "0 < b" using assms uint_of_nonneg [of b] by (simp add: word_less_def)
  then have "a > limit div b \<longleftrightarrow> unat a * unat b > unat limit" by (rule division_guard_iff)
  also have "\<dots> \<longleftrightarrow> uint a * uint b > uint limit"
    by (simp flip: of_nat_less_iff [where ?'a = int])
  finally show ?thesis using assms by (simp add: uint_of_nonneg)
qed

end
