(* ===== verification/Http_Config.thy ===== *)
theory Http_Config
  imports Config_Checks
begin

section \<open>HTTP limits (httpserver/server.go: Config, DefaultConfig, validate)\<close>

text \<open>
  The adapter's sentinels, its configuration record and the validation \<open>New\<close> runs before it
  builds anything.
\<close>

datatype http_error =
    HTTP_ErrNilRootContext
  | HTTP_ErrNilReadinessTracker
  | HTTP_ErrNilLogger
  | HTTP_ErrInvalidConfig
  | HTTP_ErrNilListener
  | HTTP_ErrNilShutdownContext
  | HTTP_ErrUnboundedShutdownContext
  | HTTP_ErrServerAlreadyServing
  | HTTP_ErrServerStopped

definition http_maxReadBuffer :: go_int where "http_maxReadBuffer = push_bit 10 64"

definition http_maxConnections :: go_int where "http_maxConnections = 65536"

definition http_maxAggregateReadBufferSize :: go_int where
  "http_maxAggregateReadBufferSize = push_bit 20 64"

definition http_maxTimeout :: duration where "http_maxTimeout = 10 * time_Minute"

lemmas http_limits = http_maxReadBuffer_def http_maxConnections_def
  http_maxAggregateReadBufferSize_def http_maxTimeout_def

record HttpConfig =
  ReadBufferBytes :: go_int
  MaxConnections :: go_int
  ReadTimeout :: duration
  WriteTimeout :: duration
  IdleTimeout :: duration
  RequestTimeout :: duration

definition http_DefaultConfig :: HttpConfig where
  "http_DefaultConfig =
     \<lparr>ReadBufferBytes = push_bit 10 16,
      MaxConnections = 1024,
      ReadTimeout = 10 * time_Second,
      WriteTimeout = 10 * time_Second,
      IdleTimeout = 2 * time_Minute,
      RequestTimeout = 10 * time_Second\<rparr>"

fun http_validate_timeouts :: "(string \<times> duration) list \<Rightarrow> http_error go_error option" where
  "http_validate_timeouts [] = None"
| "http_validate_timeouts ((name, value) # timeouts) =
     (if value <=s 0 \<or> http_maxTimeout <s value then
        Some (Errorf ''%w: %s must be in (0,%s]''
                [FmtString name, FmtDuration (sint http_maxTimeout)] (Sentinel HTTP_ErrInvalidConfig))
      else http_validate_timeouts timeouts)"

definition http_validate :: "HttpConfig \<Rightarrow> http_error go_error option" where
  "http_validate config =
     (if ReadBufferBytes config <=s 0 \<or> http_maxReadBuffer <s ReadBufferBytes config then
        Some (Errorf ''%w: ReadBufferBytes must be in [1,%d]''
                [FmtInt (sint http_maxReadBuffer)] (Sentinel HTTP_ErrInvalidConfig))
      else if MaxConnections config <=s 0 \<or> http_maxConnections <s MaxConnections config then
        Some (Errorf ''%w: MaxConnections must be in [1,%d]''
                [FmtInt (sint http_maxConnections)] (Sentinel HTTP_ErrInvalidConfig))
      else if MaxConnections config > http_maxAggregateReadBufferSize div ReadBufferBytes config then
        Some (Errorf ''%w: ReadBufferBytes * MaxConnections must not exceed %d''
                [FmtInt (sint http_maxAggregateReadBufferSize)] (Sentinel HTTP_ErrInvalidConfig))
      else
        http_validate_timeouts
          [(''ReadTimeout'', ReadTimeout config), (''WriteTimeout'', WriteTimeout config),
           (''IdleTimeout'', IdleTimeout config), (''RequestTimeout'', RequestTimeout config)])"

subsection \<open>The checks as a list\<close>

definition http_timeout_check :: "string \<Rightarrow> (HttpConfig \<Rightarrow> duration) \<Rightarrow> HttpConfig \<Rightarrow> http_error go_error option" where
  "http_timeout_check name field config = http_validate_timeouts [(name, field config)]"

definition http_checks :: "(HttpConfig \<Rightarrow> http_error go_error option) list" where
  "http_checks =
     [\<lambda>c. if ReadBufferBytes c <=s 0 \<or> http_maxReadBuffer <s ReadBufferBytes c then
            Some (Errorf ''%w: ReadBufferBytes must be in [1,%d]''
                    [FmtInt (sint http_maxReadBuffer)] (Sentinel HTTP_ErrInvalidConfig)) else None,
      \<lambda>c. if MaxConnections c <=s 0 \<or> http_maxConnections <s MaxConnections c then
            Some (Errorf ''%w: MaxConnections must be in [1,%d]''
                    [FmtInt (sint http_maxConnections)] (Sentinel HTTP_ErrInvalidConfig)) else None,
      \<lambda>c. if MaxConnections c > http_maxAggregateReadBufferSize div ReadBufferBytes c then
            Some (Errorf ''%w: ReadBufferBytes * MaxConnections must not exceed %d''
                    [FmtInt (sint http_maxAggregateReadBufferSize)] (Sentinel HTTP_ErrInvalidConfig)) else None,
      http_timeout_check ''ReadTimeout'' ReadTimeout,
      http_timeout_check ''WriteTimeout'' WriteTimeout,
      http_timeout_check ''IdleTimeout'' IdleTimeout,
      http_timeout_check ''RequestTimeout'' RequestTimeout]"

interpretation http_config: checked_config http_validate http_checks HTTP_ErrInvalidConfig
proof
  fix c
  show "http_validate c = first_some (map (\<lambda>chk. chk c) http_checks)"
    by (simp add: http_validate_def http_checks_def http_timeout_check_def)
next
  fix chk c e
  assume "chk \<in> set http_checks" and "chk c = Some e"
  then show "errors_is_err e (Sentinel HTTP_ErrInvalidConfig)"
    by (auto simp: http_checks_def http_timeout_check_def split: if_splits)
qed

lemma http_limit_values:
  "sint http_maxReadBuffer = 65536" "sint http_maxConnections = 65536"
  "uint http_maxAggregateReadBufferSize = 67108864" "sint http_maxTimeout = 600000000000"
  by (simp_all add: http_limits time_defs push_bit_eq_mult)

definition positive_up_to_ten_minutes :: "duration \<Rightarrow> bool" where
  "positive_up_to_ten_minutes t \<longleftrightarrow> 0 < sint t \<and> sint t \<le> 600000000000"

lemma http_validate_accepts:
  "http_validate c = None \<longleftrightarrow>
      1 \<le> sint (ReadBufferBytes c) \<and> sint (ReadBufferBytes c) \<le> 65536 \<and>
      1 \<le> sint (MaxConnections c) \<and> sint (MaxConnections c) \<le> 65536 \<and>
      sint (ReadBufferBytes c) * sint (MaxConnections c) \<le> 64 * 1024 * 1024 \<and>
      positive_up_to_ten_minutes (ReadTimeout c) \<and> positive_up_to_ten_minutes (WriteTimeout c) \<and>
      positive_up_to_ten_minutes (IdleTimeout c) \<and> positive_up_to_ten_minutes (RequestTimeout c)"
    using division_guard_signed [of "MaxConnections c" "ReadBufferBytes c" http_maxAggregateReadBufferSize]
    by (auto simp: http_config.validate_None_iff http_checks_def http_timeout_check_def http_limit_values
        word_sless_alt word_sle_eq not_le not_less mult.commute
        positive_up_to_ten_minutes_def)

lemma http_default_accepted: "http_validate http_DefaultConfig = None"
  by (simp add: http_validate_def http_DefaultConfig_def http_limits time_defs push_bit_eq_mult
      word_sless_alt word_sle_eq)

text \<open>C28: a configuration is accepted exactly when every limit is in range: buffer and
  connection count in 1..65536, their product (computed without wrap-around) at most 64 MiB,
  and each of the four timeouts positive and at most ten minutes; every rejection wraps
  \<open>ErrInvalidConfig\<close>, and the defaults are accepted.\<close>

theorem http_validate_iff:
  "(http_validate c = None \<longleftrightarrow>
      1 \<le> sint (ReadBufferBytes c) \<and> sint (ReadBufferBytes c) \<le> 65536 \<and>
      1 \<le> sint (MaxConnections c) \<and> sint (MaxConnections c) \<le> 65536 \<and>
      sint (ReadBufferBytes c) * sint (MaxConnections c) \<le> 64 * 1024 * 1024 \<and>
      positive_up_to_ten_minutes (ReadTimeout c) \<and> positive_up_to_ten_minutes (WriteTimeout c) \<and>
      positive_up_to_ten_minutes (IdleTimeout c) \<and> positive_up_to_ten_minutes (RequestTimeout c)) \<and>
   (errors_is (http_validate c) (Sentinel HTTP_ErrInvalidConfig) \<longleftrightarrow> http_validate c \<noteq> None) \<and>
   http_validate http_DefaultConfig = None"
proof (intro conjI)
  show "http_validate c = None \<longleftrightarrow>
      1 \<le> sint (ReadBufferBytes c) \<and> sint (ReadBufferBytes c) \<le> 65536 \<and>
      1 \<le> sint (MaxConnections c) \<and> sint (MaxConnections c) \<le> 65536 \<and>
      sint (ReadBufferBytes c) * sint (MaxConnections c) \<le> 64 * 1024 * 1024 \<and>
      positive_up_to_ten_minutes (ReadTimeout c) \<and> positive_up_to_ten_minutes (WriteTimeout c) \<and>
      positive_up_to_ten_minutes (IdleTimeout c) \<and> positive_up_to_ten_minutes (RequestTimeout c)"
    by (rule http_validate_accepts)
  show "errors_is (http_validate c) (Sentinel HTTP_ErrInvalidConfig) \<longleftrightarrow> http_validate c \<noteq> None"
    by (rule http_config.validate_is_iff)
  show "http_validate http_DefaultConfig = None"
    by (rule http_default_accepted)
qed

end
