(* ===== verification/Grpc_Config.thy ===== *)
theory Grpc_Config
  imports Config_Checks
begin

section \<open>gRPC limits (grpcserver/config.go)\<close>

text \<open>
  The adapter's sentinels (config.go and server.go), its configuration record and the
  validation \<open>New\<close> runs before it builds anything. Per-connection products are checked by
  division on \<open>uint64\<close>.
\<close>

datatype grpc_error =
    GRPC_ErrNilRootContext
  | GRPC_ErrNilReadinessTracker
  | GRPC_ErrNilLogger
  | GRPC_ErrNilListener
  | GRPC_ErrNilShutdownContext
  | GRPC_ErrUnboundedShutdownContext
  | GRPC_ErrServerAlreadyServing
  | GRPC_ErrServerStopped
  | GRPC_ErrInvalidConfig

definition maxMessageBytes :: go_int where "maxMessageBytes = push_bit 20 16"

definition minApplicationMetadataBytes :: uint32 where "minApplicationMetadataBytes = push_bit 10 1"

definition maxHeaderListBytes :: uint32 where "maxHeaderListBytes = push_bit 10 64"

definition maxPerConnectionReceiveBytes :: uint64 where "maxPerConnectionReceiveBytes = push_bit 20 64"

definition maxPerConnectionSendBytes :: uint64 where "maxPerConnectionSendBytes = push_bit 20 64"

definition maxPerConnectionHeaderBytes :: uint64 where "maxPerConnectionHeaderBytes = push_bit 20 16"

definition maxConcurrentStreams :: uint32 where
  "maxConcurrentStreams = ucast maxPerConnectionHeaderBytes div maxHeaderListBytes"

definition maxUnaryRequestTimeout :: duration where "maxUnaryRequestTimeout = 10 * time_Minute"

definition maxConnectionIdle :: duration where "maxConnectionIdle = time_Hour"

definition maxConnectionAge :: duration where "maxConnectionAge = 24 * time_Hour"

definition maxConnectionAgeGrace :: duration where "maxConnectionAgeGrace = 10 * time_Minute"

definition maxKeepaliveTime :: duration where "maxKeepaliveTime = time_Hour"

definition maxKeepaliveTimeout :: duration where "maxKeepaliveTimeout = time_Minute"

definition maxClientPingInterval :: duration where "maxClientPingInterval = time_Hour"

lemmas grpc_limits = maxMessageBytes_def minApplicationMetadataBytes_def maxHeaderListBytes_def
  maxPerConnectionReceiveBytes_def maxPerConnectionSendBytes_def maxPerConnectionHeaderBytes_def
  maxConcurrentStreams_def maxUnaryRequestTimeout_def maxConnectionIdle_def maxConnectionAge_def
  maxConnectionAgeGrace_def maxKeepaliveTime_def maxKeepaliveTimeout_def maxClientPingInterval_def

record GrpcConfig =
  MaxReceiveMessageBytes :: go_int
  MaxSendMessageBytes :: go_int
  MaxHeaderListBytes :: uint32
  MaxConcurrentStreams :: uint32
  UnaryRequestTimeout :: duration
  MaxConnectionIdle :: duration
  MaxConnectionAge :: duration
  MaxConnectionAgeGrace :: duration
  KeepaliveTime :: duration
  KeepaliveTimeout :: duration
  MinClientPingInterval :: duration

definition grpc_DefaultConfig :: GrpcConfig where
  "grpc_DefaultConfig =
     \<lparr>MaxReceiveMessageBytes = push_bit 10 64,
      MaxSendMessageBytes = push_bit 10 64,
      MaxHeaderListBytes = push_bit 10 16,
      MaxConcurrentStreams = 128,
      UnaryRequestTimeout = 10 * time_Second,
      MaxConnectionIdle = 2 * time_Minute,
      MaxConnectionAge = 30 * time_Minute,
      MaxConnectionAgeGrace = 30 * time_Second,
      KeepaliveTime = 2 * time_Minute,
      KeepaliveTimeout = 10 * time_Second,
      MinClientPingInterval = 30 * time_Second\<rparr>"

definition validateIntRange :: "string \<Rightarrow> go_int \<Rightarrow> go_int \<Rightarrow> grpc_error go_error option" where
  "validateIntRange name value maximum =
     (if value <=s 0 \<or> maximum <s value then
        Some (Errorf ''%w: %s must be in [1,%d]'' [FmtString name, FmtInt (sint maximum)]
                (Sentinel GRPC_ErrInvalidConfig))
      else None)"

text \<open>One entry of the duration table: name, value, maximum, minimum (zero when not given).\<close>

record duration_limit =
  dl_name :: string
  dl_value :: duration
  dl_maximum :: duration
  dl_minimum :: duration

fun validate_durations :: "duration_limit list \<Rightarrow> grpc_error go_error option" where
  "validate_durations [] = None"
| "validate_durations (d # durations) =
     (let minimum = (if dl_minimum d = 0 then time_Nanosecond else dl_minimum d)
      in if dl_value d <s minimum \<or> dl_maximum d <s dl_value d then
           Some (Errorf ''%w: %s must be in [%s,%s]''
                   [FmtString (dl_name d), FmtDuration (sint minimum), FmtDuration (sint (dl_maximum d))]
                   (Sentinel GRPC_ErrInvalidConfig))
         else validate_durations durations)"

definition duration_table :: "GrpcConfig \<Rightarrow> duration_limit list" where
  "duration_table config =
     [\<lparr>dl_name = ''UnaryRequestTimeout'', dl_value = UnaryRequestTimeout config,
       dl_maximum = maxUnaryRequestTimeout, dl_minimum = 0\<rparr>,
      \<lparr>dl_name = ''MaxConnectionIdle'', dl_value = MaxConnectionIdle config,
       dl_maximum = maxConnectionIdle, dl_minimum = 0\<rparr>,
      \<lparr>dl_name = ''MaxConnectionAge'', dl_value = MaxConnectionAge config,
       dl_maximum = maxConnectionAge, dl_minimum = 0\<rparr>,
      \<lparr>dl_name = ''MaxConnectionAgeGrace'', dl_value = MaxConnectionAgeGrace config,
       dl_maximum = maxConnectionAgeGrace, dl_minimum = 0\<rparr>,
      \<lparr>dl_name = ''KeepaliveTime'', dl_value = KeepaliveTime config,
       dl_maximum = maxKeepaliveTime, dl_minimum = time_Second\<rparr>,
      \<lparr>dl_name = ''KeepaliveTimeout'', dl_value = KeepaliveTimeout config,
       dl_maximum = maxKeepaliveTimeout, dl_minimum = 0\<rparr>,
      \<lparr>dl_name = ''MinClientPingInterval'', dl_value = MinClientPingInterval config,
       dl_maximum = maxClientPingInterval, dl_minimum = 10 * time_Second\<rparr>]"

definition product_error :: "string \<Rightarrow> uint64 \<Rightarrow> grpc_error go_error" where
  "product_error name limit =
     Errorf (''%w: '' @ name @ '' * MaxConcurrentStreams must not exceed %d'')
       [FmtInt (uint limit)] (Sentinel GRPC_ErrInvalidConfig)"

definition grpc_validate :: "GrpcConfig \<Rightarrow> grpc_error go_error option" where
  "grpc_validate config =
     or_else (validateIntRange ''MaxReceiveMessageBytes'' (MaxReceiveMessageBytes config) maxMessageBytes) (
     or_else (validateIntRange ''MaxSendMessageBytes'' (MaxSendMessageBytes config) maxMessageBytes) (
     if MaxHeaderListBytes config < minApplicationMetadataBytes \<or>
        MaxHeaderListBytes config > maxHeaderListBytes then
       Some (Errorf ''%w: MaxHeaderListBytes must be in [%d,%d]''
               [FmtInt (uint minApplicationMetadataBytes), FmtInt (uint maxHeaderListBytes)]
               (Sentinel GRPC_ErrInvalidConfig))
     else if MaxConcurrentStreams config = 0 \<or> MaxConcurrentStreams config > maxConcurrentStreams then
       Some (Errorf ''%w: MaxConcurrentStreams must be in [1,%d]'' [FmtInt (uint maxConcurrentStreams)]
               (Sentinel GRPC_ErrInvalidConfig))
     else
       let streams = ucast (MaxConcurrentStreams config) :: uint64 in
       if MaxReceiveMessageBytes config > maxPerConnectionReceiveBytes div streams then
         Some (product_error ''MaxReceiveMessageBytes'' maxPerConnectionReceiveBytes)
       else if MaxSendMessageBytes config > maxPerConnectionSendBytes div streams then
         Some (product_error ''MaxSendMessageBytes'' maxPerConnectionSendBytes)
       else if ucast (MaxHeaderListBytes config) > maxPerConnectionHeaderBytes div streams then
         Some (product_error ''MaxHeaderListBytes'' maxPerConnectionHeaderBytes)
       else
         or_else (validate_durations (duration_table config)) (
         if MaxConnectionAge config <s MaxConnectionAgeGrace config then
           Some (Errorf ''%w: MaxConnectionAgeGrace must not exceed MaxConnectionAge'' []
                   (Sentinel GRPC_ErrInvalidConfig))
         else if KeepaliveTime config <=s KeepaliveTimeout config then
           Some (Errorf ''%w: KeepaliveTimeout must be less than KeepaliveTime'' []
                   (Sentinel GRPC_ErrInvalidConfig))
         else None)))"

subsection \<open>The checks as a list\<close>

definition header_list_check :: "GrpcConfig \<Rightarrow> grpc_error go_error option" where
  "header_list_check c =
     (if MaxHeaderListBytes c < minApplicationMetadataBytes \<or> MaxHeaderListBytes c > maxHeaderListBytes
      then Some (Errorf ''%w: MaxHeaderListBytes must be in [%d,%d]''
               [FmtInt (uint minApplicationMetadataBytes), FmtInt (uint maxHeaderListBytes)]
               (Sentinel GRPC_ErrInvalidConfig)) else None)"

definition streams_check :: "GrpcConfig \<Rightarrow> grpc_error go_error option" where
  "streams_check c =
     (if MaxConcurrentStreams c = 0 \<or> MaxConcurrentStreams c > maxConcurrentStreams
      then Some (Errorf ''%w: MaxConcurrentStreams must be in [1,%d]'' [FmtInt (uint maxConcurrentStreams)]
               (Sentinel GRPC_ErrInvalidConfig)) else None)"

definition product_check :: "string \<Rightarrow> (GrpcConfig \<Rightarrow> uint64) \<Rightarrow> uint64 \<Rightarrow> GrpcConfig \<Rightarrow> grpc_error go_error option" where
  "product_check name field limit c =
     (if field c > limit div ucast (MaxConcurrentStreams c) then Some (product_error name limit) else None)"

definition grace_check :: "GrpcConfig \<Rightarrow> grpc_error go_error option" where
  "grace_check c =
     (if MaxConnectionAge c <s MaxConnectionAgeGrace c
      then Some (Errorf ''%w: MaxConnectionAgeGrace must not exceed MaxConnectionAge'' []
             (Sentinel GRPC_ErrInvalidConfig)) else None)"

definition keepalive_check :: "GrpcConfig \<Rightarrow> grpc_error go_error option" where
  "keepalive_check c =
     (if KeepaliveTime c <=s KeepaliveTimeout c
      then Some (Errorf ''%w: KeepaliveTimeout must be less than KeepaliveTime'' []
             (Sentinel GRPC_ErrInvalidConfig)) else None)"

lemmas grpc_check_defs = header_list_check_def streams_check_def product_check_def grace_check_def
  keepalive_check_def validateIntRange_def

definition grpc_checks :: "(GrpcConfig \<Rightarrow> grpc_error go_error option) list" where
  "grpc_checks =
     [\<lambda>c. validateIntRange ''MaxReceiveMessageBytes'' (MaxReceiveMessageBytes c) maxMessageBytes,
      \<lambda>c. validateIntRange ''MaxSendMessageBytes'' (MaxSendMessageBytes c) maxMessageBytes,
      header_list_check, streams_check,
      product_check ''MaxReceiveMessageBytes'' MaxReceiveMessageBytes maxPerConnectionReceiveBytes,
      product_check ''MaxSendMessageBytes'' MaxSendMessageBytes maxPerConnectionSendBytes,
      product_check ''MaxHeaderListBytes'' (\<lambda>c. ucast (MaxHeaderListBytes c)) maxPerConnectionHeaderBytes,
      \<lambda>c. validate_durations (duration_table c), grace_check, keepalive_check]"

lemma validate_durations_wraps:
  "validate_durations ds = Some e \<Longrightarrow> errors_is_err e (Sentinel GRPC_ErrInvalidConfig)"
  by (induction ds) (auto simp: Let_def split: if_splits)

lemma grpc_validate_first: "grpc_validate c = first_some (map (\<lambda>chk. chk c) grpc_checks)"
  by (simp add: grpc_validate_def grpc_checks_def header_list_check_def streams_check_def
      product_check_def grace_check_def keepalive_check_def Let_def first_some_or_else)

interpretation grpc_config: checked_config grpc_validate grpc_checks GRPC_ErrInvalidConfig
proof
  fix c
  show "grpc_validate c = first_some (map (\<lambda>chk. chk c) grpc_checks)"
    by (rule grpc_validate_first)
next
  fix chk c e
  assume "chk \<in> set grpc_checks" and "chk c = Some e"
  then show "errors_is_err e (Sentinel GRPC_ErrInvalidConfig)"
    by (auto simp: grpc_checks_def grpc_check_defs product_error_def validate_durations_wraps split: if_splits)
qed

subsection \<open>Properties\<close>

lemma grpc_limit_values:
  "sint maxMessageBytes = 16777216" "uint minApplicationMetadataBytes = 1024"
  "uint maxHeaderListBytes = 65536" "uint maxConcurrentStreams = 256"
  "uint maxPerConnectionReceiveBytes = 67108864" "uint maxPerConnectionSendBytes = 67108864"
  "uint maxPerConnectionHeaderBytes = 16777216"
  by (simp_all add: grpc_limits push_bit_eq_mult)

lemma grpc_duration_values:
  "sint maxUnaryRequestTimeout = 600000000000" "sint maxConnectionIdle = 3600000000000"
  "sint maxConnectionAge = 86400000000000" "sint maxConnectionAgeGrace = 600000000000"
  "sint maxKeepaliveTime = 3600000000000" "sint maxKeepaliveTimeout = 60000000000"
  "sint maxClientPingInterval = 3600000000000"
  "sint time_Nanosecond = 1" "sint time_Second = 1000000000" "sint (10 * time_Second) = 10000000000"
  "time_Second \<noteq> 0" "10 * time_Second \<noteq> 0"
  by (simp_all add: grpc_limits time_defs)

lemma uint_up: "uint (ucast (s :: uint32) :: uint64) = uint s"
proof -
  have "uint s < 2 ^ LENGTH(32)" by (rule unsigned_less)
  then show ?thesis by (simp add: unsigned_ucast_eq take_bit_int_eq_self)
qed

lemma validate_durations_None_iff:
  "validate_durations ds = None \<longleftrightarrow>
     (\<forall>d \<in> set ds. (if dl_minimum d = 0 then time_Nanosecond else dl_minimum d) <=s dl_value d \<and>
        dl_value d <=s dl_maximum d)"
  by (induction ds) (auto simp: Let_def word_sless_alt word_sle_eq)

definition nanos_between :: "int \<Rightarrow> duration \<Rightarrow> int \<Rightarrow> bool" where
  "nanos_between lo d hi \<longleftrightarrow> lo \<le> sint d \<and> sint d \<le> hi"

definition durations_in_range :: "GrpcConfig \<Rightarrow> bool" where
  "durations_in_range c \<longleftrightarrow>
     nanos_between 1 (UnaryRequestTimeout c) 600000000000 \<and>
     nanos_between 1 (MaxConnectionIdle c) 3600000000000 \<and>
     nanos_between 1 (MaxConnectionAge c) 86400000000000 \<and>
     nanos_between 1 (MaxConnectionAgeGrace c) 600000000000 \<and>
     nanos_between 1000000000 (KeepaliveTime c) 3600000000000 \<and>
     nanos_between 1 (KeepaliveTimeout c) 60000000000 \<and>
     nanos_between 10000000000 (MinClientPingInterval c) 3600000000000"

lemma duration_table_ok: "validate_durations (duration_table c) = None \<longleftrightarrow> durations_in_range c"
  by (simp add: validate_durations_None_iff duration_table_def durations_in_range_def nanos_between_def
      word_sle_eq grpc_duration_values del: validate_durations.simps)

lemma validateIntRange_None_iff: "validateIntRange n v m = None \<longleftrightarrow> 1 \<le> sint v \<and> sint v \<le> sint m"
  by (auto simp: validateIntRange_def word_sless_alt word_sle_eq)

lemma product_check_None_iff:
  assumes "0 < uint (MaxConcurrentStreams c)"
  shows "product_check name field limit c = None \<longleftrightarrow>
           uint (field c) * uint (MaxConcurrentStreams c) \<le> uint limit"
proof -
  have "0 < (ucast (MaxConcurrentStreams c) :: uint64)"
    using assms by (simp add: word_less_def uint_up)
  then have "field c > limit div ucast (MaxConcurrentStreams c) \<longleftrightarrow>
      unat (field c) * unat (ucast (MaxConcurrentStreams c) :: uint64) > unat limit"
    by (rule division_guard_iff)
  also have "\<dots> \<longleftrightarrow> uint (field c) * uint (MaxConcurrentStreams c) > uint limit"
    by (simp flip: of_nat_less_iff [where ?'a = int] uint_up)
  finally show ?thesis by (simp add: product_check_def not_less)
qed

lemma grpc_integer_checks:
  "header_list_check c = None \<longleftrightarrow> 1024 \<le> uint (MaxHeaderListBytes c) \<and> uint (MaxHeaderListBytes c) \<le> 65536"
  "streams_check c = None \<longleftrightarrow> 1 \<le> uint (MaxConcurrentStreams c) \<and> uint (MaxConcurrentStreams c) \<le> 256"
  "grace_check c = None \<longleftrightarrow> sint (MaxConnectionAgeGrace c) \<le> sint (MaxConnectionAge c)"
  "keepalive_check c = None \<longleftrightarrow> sint (KeepaliveTimeout c) < sint (KeepaliveTime c)"
proof -
  have zero_less: "0 \<le> uint w \<and> (uint w = 0 \<longleftrightarrow> w = 0)" for w :: uint32
    by (auto simp: uint_0_iff)
  have "MaxConcurrentStreams c = 0 \<longleftrightarrow> \<not> 1 \<le> uint (MaxConcurrentStreams c)"
    using zero_less [of "MaxConcurrentStreams c"] by linarith
  then show "streams_check c = None \<longleftrightarrow> 1 \<le> uint (MaxConcurrentStreams c) \<and> uint (MaxConcurrentStreams c) \<le> 256"
    by (auto simp: streams_check_def word_less_def grpc_limit_values)
qed (auto simp: header_list_check_def grace_check_def keepalive_check_def word_less_def word_sless_alt
    word_sle_eq grpc_limit_values)

lemma grpc_validate_accepts:
  "grpc_validate c = None \<longleftrightarrow>
      1 \<le> sint (MaxReceiveMessageBytes c) \<and> sint (MaxReceiveMessageBytes c) \<le> 16 * 1024 * 1024 \<and>
      1 \<le> sint (MaxSendMessageBytes c) \<and> sint (MaxSendMessageBytes c) \<le> 16 * 1024 * 1024 \<and>
      1024 \<le> uint (MaxHeaderListBytes c) \<and> uint (MaxHeaderListBytes c) \<le> 64 * 1024 \<and>
      1 \<le> uint (MaxConcurrentStreams c) \<and> uint (MaxConcurrentStreams c) \<le> 256 \<and>
      sint (MaxReceiveMessageBytes c) * uint (MaxConcurrentStreams c) \<le> 64 * 1024 * 1024 \<and>
      sint (MaxSendMessageBytes c) * uint (MaxConcurrentStreams c) \<le> 64 * 1024 * 1024 \<and>
      durations_in_range c \<and>
      sint (MaxConnectionAgeGrace c) \<le> sint (MaxConnectionAge c) \<and>
      sint (KeepaliveTimeout c) < sint (KeepaliveTime c)"
proof -
  have hp: "uint (MaxHeaderListBytes c) * uint (MaxConcurrentStreams c) \<le> 16777216"
    if "uint (MaxHeaderListBytes c) \<le> 65536" "uint (MaxConcurrentStreams c) \<le> 256"
    using mult_mono [OF that] by simp
  then show ?thesis
    by (auto simp: grpc_config.validate_None_iff grpc_checks_def validateIntRange_None_iff
        grpc_integer_checks product_check_None_iff duration_table_ok grpc_limit_values uint_of_nonneg uint_up)
qed

text \<open>C27: a gRPC configuration is accepted exactly when both message limits are in 1..16 MiB,
  the metadata budget in 1 KiB..64 KiB, the stream limit in 1..256, both message limits times
  the stream limit at most 64 MiB (computed without wrap-around), every duration within its
  bounds, the age grace at most the age and the keepalive timeout below the keepalive time.
  The product check of the header bytes never decides anything: it is implied. Every
  rejection wraps \<open>ErrInvalidConfig\<close>; the defaults are accepted.\<close>

theorem grpc_validate_iff:
  "(grpc_validate c = None \<longleftrightarrow>
      1 \<le> sint (MaxReceiveMessageBytes c) \<and> sint (MaxReceiveMessageBytes c) \<le> 16 * 1024 * 1024 \<and>
      1 \<le> sint (MaxSendMessageBytes c) \<and> sint (MaxSendMessageBytes c) \<le> 16 * 1024 * 1024 \<and>
      1024 \<le> uint (MaxHeaderListBytes c) \<and> uint (MaxHeaderListBytes c) \<le> 64 * 1024 \<and>
      1 \<le> uint (MaxConcurrentStreams c) \<and> uint (MaxConcurrentStreams c) \<le> 256 \<and>
      sint (MaxReceiveMessageBytes c) * uint (MaxConcurrentStreams c) \<le> 64 * 1024 * 1024 \<and>
      sint (MaxSendMessageBytes c) * uint (MaxConcurrentStreams c) \<le> 64 * 1024 * 1024 \<and>
      durations_in_range c \<and>
      sint (MaxConnectionAgeGrace c) \<le> sint (MaxConnectionAge c) \<and>
      sint (KeepaliveTimeout c) < sint (KeepaliveTime c)) \<and>
   (errors_is (grpc_validate c) (Sentinel GRPC_ErrInvalidConfig) \<longleftrightarrow> grpc_validate c \<noteq> None) \<and>
   grpc_validate grpc_DefaultConfig = None"
proof (intro conjI)
  show "grpc_validate c = None \<longleftrightarrow>
      1 \<le> sint (MaxReceiveMessageBytes c) \<and> sint (MaxReceiveMessageBytes c) \<le> 16 * 1024 * 1024 \<and>
      1 \<le> sint (MaxSendMessageBytes c) \<and> sint (MaxSendMessageBytes c) \<le> 16 * 1024 * 1024 \<and>
      1024 \<le> uint (MaxHeaderListBytes c) \<and> uint (MaxHeaderListBytes c) \<le> 64 * 1024 \<and>
      1 \<le> uint (MaxConcurrentStreams c) \<and> uint (MaxConcurrentStreams c) \<le> 256 \<and>
      sint (MaxReceiveMessageBytes c) * uint (MaxConcurrentStreams c) \<le> 64 * 1024 * 1024 \<and>
      sint (MaxSendMessageBytes c) * uint (MaxConcurrentStreams c) \<le> 64 * 1024 * 1024 \<and>
      durations_in_range c \<and>
      sint (MaxConnectionAgeGrace c) \<le> sint (MaxConnectionAge c) \<and>
      sint (KeepaliveTimeout c) < sint (KeepaliveTime c)"
    by (rule grpc_validate_accepts)
  show "errors_is (grpc_validate c) (Sentinel GRPC_ErrInvalidConfig) \<longleftrightarrow> grpc_validate c \<noteq> None"
    by (rule grpc_config.validate_is_iff)
  show "grpc_validate grpc_DefaultConfig = None"
    by (simp add: grpc_config.validate_None_iff grpc_checks_def validateIntRange_None_iff
        grpc_integer_checks product_check_None_iff duration_table_ok durations_in_range_def
        nanos_between_def grpc_limit_values grpc_DefaultConfig_def time_defs push_bit_eq_mult)
qed

end
