(* ===== verification/Health_Bridge.thy ===== *)
theory Health_Bridge
  imports Readiness_Tracker
begin

section \<open>gRPC health bridge (grpcserver/health.go)\<close>

text \<open>
  The bridge copies the readiness tracker into the standard gRPC health service. That service
  is library code: what the bridge does to it is the list of calls it makes (\<open>hb_calls\<close>), and
  what a client of the health service sees is a function of that list that only the
  documented behaviour constrains (\<open>health_service_contract\<close>).

  \<open>refresh\<close> reads the tracker before it takes the bridge's mutex, so one refresh is two
  indivisible steps; \<open>hb_step\<close> interleaves the refreshes of any number of callers with stores
  into the tracker and with the shutdown.
\<close>

datatype serving_status = SERVING | NOT_SERVING

datatype health_call = SetServingStatus string serving_status | HealthShutdown

record health_bridge =
  hb_calls :: "health_call list"
  hb_stopped :: bool

definition newHealthBridge :: health_bridge where
  "newHealthBridge = \<lparr>hb_calls = [SetServingStatus '''' NOT_SERVING], hb_stopped = False\<rparr>"

text \<open>The first half of \<open>refresh\<close>: the status to publish, from one snapshot of the tracker.\<close>

definition refresh_status :: "Tracker option \<Rightarrow> serving_status outcome" where
  "refresh_status t =
     and_then (tracker_Snapshot t) (\<lambda>r. Return (if Ready r then SERVING else NOT_SERVING))"

text \<open>The second half, under the mutex.\<close>

definition refresh_publish :: "serving_status \<Rightarrow> health_bridge \<Rightarrow> health_bridge" where
  "refresh_publish status b =
     (if hb_stopped b then b else b\<lparr>hb_calls := hb_calls b @ [SetServingStatus '''' status]\<rparr>)"

definition hb_refresh :: "Tracker option \<Rightarrow> health_bridge \<Rightarrow> health_bridge outcome" where
  "hb_refresh t b = and_then (refresh_status t) (\<lambda>status. Return (refresh_publish status b))"

definition hb_shutdown :: "health_bridge \<Rightarrow> health_bridge" where
  "hb_shutdown b =
     (if hb_stopped b then b
      else b\<lparr>hb_stopped := True, hb_calls := hb_calls b @ [HealthShutdown]\<rparr>)"

subsection \<open>Interleaved refreshes\<close>

datatype refresh_pc = RefreshIdle | RefreshRead serving_status

record hb_sys =
  hs_tracker :: Tracker
  hs_bridge :: health_bridge
  hs_pcs :: "nat \<Rightarrow> refresh_pc"

datatype hb_event = EStore Readiness | ERead nat | EPublish nat | EShutdown

definition hb_init :: hb_sys where
  "hb_init = \<lparr>hs_tracker = NewTracker, hs_bridge = newHealthBridge, hs_pcs = (\<lambda>_. RefreshIdle)\<rparr>"

fun hb_step :: "hb_event \<Rightarrow> hb_sys \<Rightarrow> hb_sys option" where
  "hb_step (EStore r) s =
     (case tracker_Store (Some (hs_tracker s)) r of
        Return t \<Rightarrow> Some (s\<lparr>hs_tracker := t\<rparr>) | Panic _ \<Rightarrow> None)"
| "hb_step (ERead i) s =
     (case hs_pcs s i of
        RefreshIdle \<Rightarrow>
          (case refresh_status (Some (hs_tracker s)) of
             Return st \<Rightarrow> Some (s\<lparr>hs_pcs := (hs_pcs s)(i := RefreshRead st)\<rparr>) | Panic _ \<Rightarrow> None)
      | RefreshRead _ \<Rightarrow> None)"
| "hb_step (EPublish i) s =
     (case hs_pcs s i of
        RefreshRead st \<Rightarrow>
          Some (s\<lparr>hs_bridge := refresh_publish st (hs_bridge s), hs_pcs := (hs_pcs s)(i := RefreshIdle)\<rparr>)
      | RefreshIdle \<Rightarrow> None)"
| "hb_step EShutdown s = Some (s\<lparr>hs_bridge := hb_shutdown (hs_bridge s)\<rparr>)"

fun hb_run :: "hb_event list \<Rightarrow> hb_sys \<Rightarrow> hb_sys option" where
  "hb_run [] s = Some s"
| "hb_run (e # es) s = (case hb_step e s of None \<Rightarrow> None | Some s' \<Rightarrow> hb_run es s')"

definition hb_trans :: "hb_sys \<Rightarrow> hb_sys \<Rightarrow> bool" where
  "hb_trans s t \<longleftrightarrow> (\<exists>e. hb_step e s = Some t)"

lemma hb_run_append: "hb_run (es @ fs) s = Option.bind (hb_run es s) (hb_run fs)"
  by (induction es arbitrary: s) (auto split: option.splits)

lemma hb_run_reach: "reach init hb_trans s \<Longrightarrow> hb_run es s = Some t \<Longrightarrow> reach init hb_trans t"
proof (induction es arbitrary: s)
  case (Cons e es)
  then obtain u where "hb_step e s = Some u" "hb_run es u = Some t" by (auto split: option.splits)
  with Cons show ?case by (meson hb_trans_def reach_step)
qed simp

subsection \<open>The call discipline\<close>

text \<open>
  The bridge only ever touches the aggregate service \<open>""\<close>, the first call publishes
  \<open>NOT_SERVING\<close>, and \<open>Shutdown\<close> is called at most once and is the last call.
\<close>

definition is_set :: "health_call \<Rightarrow> bool" where
  "is_set c \<longleftrightarrow> c = SetServingStatus '''' SERVING \<or> c = SetServingStatus '''' NOT_SERVING"

definition hb_wf :: "health_bridge \<Rightarrow> bool" where
  "hb_wf b \<longleftrightarrow>
     (\<exists>sets. hb_calls b = SetServingStatus '''' NOT_SERVING # sets @ (if hb_stopped b then [HealthShutdown] else []) \<and>
        list_all is_set sets)"

lemma hb_wf_new: "hb_wf newHealthBridge"
  by (simp add: hb_wf_def newHealthBridge_def)

lemma hb_wf_publish: "hb_wf b \<Longrightarrow> hb_wf (refresh_publish st b)"
  by (cases st) (auto simp: hb_wf_def refresh_publish_def is_set_def)

lemma hb_wf_shutdown: "hb_wf b \<Longrightarrow> hb_wf (hb_shutdown b)"
  by (auto simp: hb_wf_def hb_shutdown_def)

lemma hb_shutdown_stopped [simp]: "hb_stopped (hb_shutdown b)"
  by (simp add: hb_shutdown_def)

lemma refresh_publish_stopped [simp]: "hb_stopped (refresh_publish st b) = hb_stopped b"
  by (simp add: refresh_publish_def)

lemma publish_after_stop [simp]: "hb_stopped b \<Longrightarrow> refresh_publish st b = b"
  by (simp add: refresh_publish_def)

lemma shutdown_after_stop [simp]: "hb_stopped b \<Longrightarrow> hb_shutdown b = b"
  by (simp add: hb_shutdown_def)

text \<open>
  The documented behaviour of \<open>grpc_health.Server\<close>, as a function from the calls made on it
  to the status its clients see for the aggregate service: the last status set before a
  shutdown, \<open>NOT_SERVING\<close> from the shutdown on.
\<close>

definition health_service_contract :: "(health_call list \<Rightarrow> serving_status) \<Rightarrow> bool" where
  "health_service_contract status \<longleftrightarrow>
     (\<forall>calls s. HealthShutdown \<notin> set calls \<longrightarrow> status (calls @ [SetServingStatus '''' s]) = s) \<and>
     (\<forall>calls. status (calls @ [HealthShutdown]) = NOT_SERVING)"

lemma refresh_status_tracker:
  "refresh_status (Some t) = Return (if Ready (decode (tracker_state t)) then SERVING else NOT_SERVING)"
  by (simp add: refresh_status_def tracker_Snapshot_def)

text \<open>
  Where a status comes from: every status read or published is one that some earlier store
  made the tracker show, so \<open>SERVING\<close> needs an earlier ready store.
\<close>

definition hb_inv :: "hb_sys \<Rightarrow> bool" where
  "hb_inv s \<longleftrightarrow> hb_wf (hs_bridge s)"

interpretation hb_discipline: inductive_invariant "\<lambda>s. s = hb_init" hb_trans hb_inv
proof
  fix s :: hb_sys assume "s = hb_init"
  then show "hb_inv s" by (simp add: hb_inv_def hb_init_def hb_wf_new)
next
  fix s t :: hb_sys
  assume "hb_inv s" and "hb_trans s t"
  then obtain e where "hb_step e s = Some t" "hb_wf (hs_bridge s)"
    by (auto simp: hb_trans_def hb_inv_def)
  then show "hb_inv t"
    by (cases e) (auto simp: hb_inv_def hb_wf_publish hb_wf_shutdown split: outcome.splits refresh_pc.splits)
qed

definition ever_ready :: "hb_event list \<Rightarrow> bool" where
  "ever_ready es \<longleftrightarrow> (\<exists>r. EStore r \<in> set es \<and> Ready r)"

definition serving_seen :: "hb_sys \<Rightarrow> bool" where
  "serving_seen s \<longleftrightarrow> Ready (decode (tracker_state (hs_tracker s))) \<or>
     (\<exists>i. hs_pcs s i = RefreshRead SERVING) \<or> SetServingStatus '''' SERVING \<in> set (hb_calls (hs_bridge s))"

lemma serving_seen_step:
  assumes "hb_step e s = Some t" and "serving_seen t"
  shows "serving_seen s \<or> (\<exists>r. e = EStore r \<and> Ready r)"
proof (cases e)
  case (EStore r)
  with assms show ?thesis
    by (auto simp: serving_seen_def tracker_Store_def decode_encode)
next
  case (ERead i)
  with assms show ?thesis
    by (auto simp: serving_seen_def refresh_status_tracker split: refresh_pc.splits if_splits)
next
  case (EPublish i)
  with assms show ?thesis
    by (auto simp: serving_seen_def refresh_publish_def split: refresh_pc.splits if_splits)
next
  case EShutdown
  with assms show ?thesis
    by (auto simp: serving_seen_def hb_shutdown_def split: if_splits)
qed

lemma serving_seen_run: "hb_run es s = Some t \<Longrightarrow> serving_seen t \<Longrightarrow> serving_seen s \<or> ever_ready es"
proof (induction es arbitrary: s)
  case (Cons e es)
  then obtain u where u: "hb_step e s = Some u" "hb_run es u = Some t"
    by (auto split: option.splits)
  with Cons have "serving_seen u \<or> ever_ready es" by blast
  with serving_seen_step [OF u(1)] show ?case by (auto simp: ever_ready_def)
qed simp

lemma not_serving_seen_init: "\<not> serving_seen hb_init"
  by (simp add: serving_seen_def Ready_decode_iff hb_init_def NewTracker_def zero_Tracker_def newHealthBridge_def
      tracker_state_defs)

subsection \<open>Properties\<close>

lemma status_of_wf:
  assumes "health_service_contract status" and "hb_wf b"
  shows "status (hb_calls (refresh_publish st b)) = (if hb_stopped b then NOT_SERVING else st)"
proof (cases "hb_stopped b")
  case True
  then show ?thesis
    using assms by (auto simp: hb_wf_def health_service_contract_def simp flip: append_Cons)
next
  case False
  with assms(2) have "HealthShutdown \<notin> set (hb_calls b)"
    by (auto simp: hb_wf_def is_set_def list_all_iff)
  with False assms(1) show ?thesis
    by (simp add: refresh_publish_def health_service_contract_def)
qed

lemma status_serving_seen:
  assumes "health_service_contract status" and "hb_wf b" and "status (hb_calls b) = SERVING"
  shows "SetServingStatus '''' SERVING \<in> set (hb_calls b)"
proof -
  obtain sets where c: "hb_calls b =
      SetServingStatus '''' NOT_SERVING # sets @ (if hb_stopped b then [HealthShutdown] else [])"
    and sets: "list_all is_set sets" using assms(2) by (auto simp: hb_wf_def)
  have run: "\<not> hb_stopped b"
    using assms(1,3) c by (auto simp: health_service_contract_def simp flip: append_Cons)
  show ?thesis
  proof (cases sets rule: rev_cases)
    case Nil
    then have "status ([] @ [SetServingStatus '''' NOT_SERVING]) = SERVING" using c run assms(3) by simp
    moreover have "status ([] @ [SetServingStatus '''' NOT_SERVING]) = NOT_SERVING"
      using assms(1) unfolding health_service_contract_def by (metis empty_iff empty_set)
    ultimately show ?thesis by simp
  next
    case (snoc ys y)
    then obtain st where y: "y = SetServingStatus '''' st" using sets by (auto simp: is_set_def)
    have "HealthShutdown \<notin> set (SetServingStatus '''' NOT_SERVING # ys)"
      using sets snoc by (auto simp: is_set_def list_all_iff)
    then have "status ((SetServingStatus '''' NOT_SERVING # ys) @ [y]) = st"
      using assms(1) y unfolding health_service_contract_def by blast
    then show ?thesis using c run snoc y assms(3) by simp
  qed
qed

text \<open>The documented service as a concrete function, for the witnesses.\<close>

definition last_status :: "health_call list \<Rightarrow> serving_status" where
  "last_status calls =
     (if HealthShutdown \<in> set calls then NOT_SERVING
      else case rev calls of SetServingStatus _ s # _ \<Rightarrow> s | _ \<Rightarrow> NOT_SERVING)"

lemma last_status_contract: "health_service_contract last_status"
  by (simp add: health_service_contract_def last_status_def)

text \<open>C18: a refresh that runs undisturbed projects the tracker: from every reachable state of
  the interleaved system it returns without a panic, and then a client of the health service
  sees \<open>SERVING\<close> exactly when the tracker is ready and the bridge has not been shut down.\<close>

theorem refresh_projects_tracker:
  assumes "reach (\<lambda>s. s = hb_init) hb_trans s" and "health_service_contract status"
  shows "\<exists>b. hb_refresh (Some (hs_tracker s)) (hs_bridge s) = Return b \<and>
           (status (hb_calls b) = SERVING \<longleftrightarrow>
              (\<exists>r. tracker_Snapshot (Some (hs_tracker s)) = Return r \<and> Ready r) \<and>
              \<not> hb_stopped (hs_bridge s))"
proof -
  have "hb_wf (hs_bridge s)" using hb_discipline.inv_reach [OF assms(1)] by (simp add: hb_inv_def)
  from status_of_wf [OF assms(2) this] show ?thesis
    by (simp add: hb_refresh_def refresh_status_tracker tracker_Snapshot_def)
qed

theorem refresh_projects_tracker_witness:
  "\<exists>b. hb_refresh (Some NewTracker) newHealthBridge = Return b \<and> last_status (hb_calls b) \<noteq> SERVING"
  using refresh_projects_tracker [OF reach_init last_status_contract, of hb_init]
  by (auto simp: hb_init_def tracker_Snapshot_def NewTracker_def zero_Tracker_def Ready_decode_iff tracker_state_defs)

text \<open>C16: shutdown is final: once the bridge is stopped, no interleaving of stores, refreshes
  already in flight, new refreshes and further shutdowns makes another call on the health
  service, which reports \<open>NOT_SERVING\<close>.\<close>

theorem stopped_bridge_is_silent:
  assumes "reach (\<lambda>s. s = hb_init) hb_trans s" and "hb_stopped (hs_bridge s)"
    and "hb_run es s = Some t" and "health_service_contract status"
  shows "hs_bridge t = hs_bridge s \<and> status (hb_calls (hs_bridge t)) = NOT_SERVING"
proof -
  have step: "hs_bridge v = hs_bridge u" if "hb_step e u = Some v" "hb_stopped (hs_bridge u)" for e u v
    using that by (cases e) (auto split: outcome.splits refresh_pc.splits)
  have "hs_bridge t = hs_bridge s"
    using assms(2,3)
  proof (induction es arbitrary: s)
    case (Cons e es)
    then obtain u where "hb_step e s = Some u" "hb_run es u = Some t" by (auto split: option.splits)
    with Cons.prems Cons.IH [of u] step [of e s u] show ?case by simp
  qed simp
  moreover have "hb_wf (hs_bridge s)"
    using hb_discipline.inv_reach [OF assms(1)] by (simp add: hb_inv_def)
  ultimately show ?thesis using status_of_wf [OF assms(4), of "hs_bridge s" SERVING] assms(2) by simp
qed

theorem stopped_bridge_is_silent_witness:
  "\<exists>s t. hb_run [EStore \<lparr>Ready = True, Reason = ''''\<rparr>, ERead 0, EShutdown] hb_init = Some s \<and>
     hb_run [EPublish 0] s = Some t \<and> hs_bridge t = hs_bridge s"
proof -
  let ?es = "[EStore \<lparr>Ready = True, Reason = ''''\<rparr>, ERead 0, EShutdown]"
  obtain s where s: "hb_run ?es hb_init = Some s" "hb_stopped (hs_bridge s)" "hs_pcs s 0 = RefreshRead SERVING"
    by (simp add: hb_init_def tracker_Store_def refresh_status_tracker decode_encode project_def)
  have "reach (\<lambda>s. s = hb_init) hb_trans s"
    by (rule hb_run_reach [OF reach_init s(1)]) simp
  moreover obtain t where t: "hb_run [EPublish 0] s = Some t" using s(3) by simp
  ultimately have "hs_bridge t = hs_bridge s"
    using stopped_bridge_is_silent [OF _ s(2) t last_status_contract] by blast
  with s t show ?thesis by blast
qed

text \<open>C17: the health service fails closed: in every interleaving from the start, a client
  sees \<open>SERVING\<close> only if the runtime owner stored a ready readiness before.\<close>

theorem serving_needs_ready_store:
  assumes "hb_run es hb_init = Some s" and "health_service_contract status"
    and "status (hb_calls (hs_bridge s)) = SERVING"
  shows "\<exists>r. EStore r \<in> set es \<and> Ready r"
proof -
  have "reach (\<lambda>s. s = hb_init) hb_trans s" by (rule hb_run_reach [OF reach_init assms(1)]) simp
  then have "hb_wf (hs_bridge s)" using hb_discipline.inv_reach by (auto simp: hb_inv_def)
  then have "serving_seen s"
    using status_serving_seen [OF assms(2) _ assms(3)] by (simp add: serving_seen_def)
  with serving_seen_run [OF assms(1)] not_serving_seen_init show ?thesis
    by (auto simp: ever_ready_def)
qed

lemma lost_update_run:
  "\<exists>s. hb_run [EStore \<lparr>Ready = True, Reason = ''''\<rparr>, ERead 0,
        EStore \<lparr>Ready = False, Reason = ReasonDraining\<rparr>, ERead 1, EPublish 1, EPublish 0] hb_init = Some s \<and>
     hs_pcs s = (\<lambda>_. RefreshIdle) \<and> \<not> hb_stopped (hs_bridge s) \<and>
     hs_tracker s = NewTracker\<lparr>tracker_state := stateDraining\<rparr> \<and>
     hb_calls (hs_bridge s) = [SetServingStatus '''' NOT_SERVING, SetServingStatus '''' NOT_SERVING,
        SetServingStatus '''' SERVING]"
  by (simp add: hb_init_def tracker_Store_def refresh_status_tracker decode_encode project_def
      newHealthBridge_def refresh_publish_def fun_eq_iff NewTracker_def zero_Tracker_def encode_def
      Ready_decode_iff
      reason_defs tracker_state_defs)

theorem serving_needs_ready_store_witness:
  "\<exists>es s. hb_run es hb_init = Some s \<and> last_status (hb_calls (hs_bridge s)) = SERVING \<and>
     (\<exists>r. EStore r \<in> set es \<and> Ready r)"
proof -
  from lost_update_run obtain es s where r: "hb_run es hb_init = Some s"
    and c: "hb_calls (hs_bridge s) = [SetServingStatus '''' NOT_SERVING, SetServingStatus '''' NOT_SERVING,
        SetServingStatus '''' SERVING]" by blast
  from c have st: "last_status (hb_calls (hs_bridge s)) = SERVING" by (simp add: last_status_def)
  with serving_needs_ready_store [OF r last_status_contract] r show ?thesis by blast
qed

text \<open>C40: concurrent refreshes can lose an update. \<open>refresh\<close> takes its snapshot before the
  mutex, so two overlapping calls may publish in the opposite order: there is a run in which
  the tracker is stored not ready, a refresh that starts after that store completes, every
  refresh has returned and the bridge is not shut down, and yet the last status published,
  and so what the health service shows, is \<open>SERVING\<close>.\<close>

theorem refresh_lost_update:
  "\<exists>es1 es2 s. hb_run (es1 @ EStore \<lparr>Ready = False, Reason = ReasonDraining\<rparr> # es2) hb_init = Some s \<and>
     ERead 1 \<in> set es2 \<and> EPublish 1 \<in> set es2 \<and> EShutdown \<notin> set (es1 @ es2) \<and>
     hs_pcs s = (\<lambda>_. RefreshIdle) \<and>
     tracker_Snapshot (Some (hs_tracker s)) = Return \<lparr>Ready = False, Reason = ReasonDraining\<rparr> \<and>
     last (hb_calls (hs_bridge s)) = SetServingStatus '''' SERVING"
proof -
  let ?e1 = "[EStore \<lparr>Ready = True, Reason = ''''\<rparr>, ERead 0]"
  let ?e2 = "[ERead 1, EPublish 1, EPublish 0]"
  from lost_update_run obtain s where
    r: "hb_run (?e1 @ EStore \<lparr>Ready = False, Reason = ReasonDraining\<rparr> # ?e2) hb_init = Some s"
    and "hs_pcs s = (\<lambda>_. RefreshIdle)" and t: "hs_tracker s = NewTracker\<lparr>tracker_state := stateDraining\<rparr>"
    and "last (hb_calls (hs_bridge s)) = SetServingStatus '''' SERVING" by auto
  moreover have "tracker_Snapshot (Some (hs_tracker s)) = Return \<lparr>Ready = False, Reason = ReasonDraining\<rparr>"
    using t by (simp add: tracker_Snapshot_def decode_def tracker_state_defs)
  moreover have "ERead 1 \<in> set ?e2" "EPublish 1 \<in> set ?e2" "EShutdown \<notin> set (?e1 @ ?e2)" by simp_all
  ultimately show ?thesis by blast
qed

end
