(* ===== verification/Lifecycle.thy ===== *)
theory Lifecycle
  imports Go_Errors
begin

section \<open>Channels and the single-use lifecycle\<close>

text \<open>
  What the two adapters' lifecycles share. A channel that is only ever closed is open or
  closed; a nil channel is \<open>None\<close>; closing a nil or closed channel panics.

  The abstract specification of a server that can be used once is the automaton of
  \<open>lifecycle_phase\<close>; \<open>single_use\<close> says what a refinement of it is and what every refinement
  therefore has: a published result is final and no phase is entered twice. Both adapters
  are interpretations.
\<close>

datatype chan = ChanOpen | ChanClosed

fun close_chan :: "chan option \<Rightarrow> chan option outcome" where
  "close_chan None = Panic ''close of nil channel''"
| "close_chan (Some ChanClosed) = Panic ''close of closed channel''"
| "close_chan (Some ChanOpen) = Return (Some ChanClosed)"

text \<open>The arguments of the two entry points: a listener and a shutdown context.\<close>

record listener_arg =
  la_value :: interface_value
  la_id :: nat

record shutdown_ctx =
  sc_value :: interface_value
  sc_bounded :: bool
  sc_id :: nat

text \<open>
  A role that at most one caller holds, and that somebody holds exactly when a flag of the
  shared state says so: the caller inside \<open>Serve\<close>, the caller that drains the server.
\<close>

definition held_iff :: "('p \<Rightarrow> bool) \<Rightarrow> (nat \<Rightarrow> 'p) \<Rightarrow> bool \<Rightarrow> bool" where
  "held_iff P pcs b \<longleftrightarrow> (\<forall>i j. P (pcs i) \<and> P (pcs j) \<longrightarrow> i = j) \<and> ((\<exists>i. P (pcs i)) \<longleftrightarrow> b)"

lemma held_iff_acquire: "held_iff P pcs False \<Longrightarrow> P p \<Longrightarrow> held_iff P (pcs(i := p)) True"
  by (auto simp: held_iff_def)

lemma held_iff_release:
  "held_iff P pcs b \<Longrightarrow> P (pcs i) \<Longrightarrow> \<not> P p \<Longrightarrow> held_iff P (pcs(i := p)) False"
  by (auto simp: held_iff_def)

lemma held_iff_keep: "held_iff P pcs b \<Longrightarrow> P (pcs i) = P p \<Longrightarrow> held_iff P (pcs(i := p)) b"
  by (auto simp: held_iff_def split: if_splits)

lemma held_iff_holder: "held_iff P pcs b \<Longrightarrow> P (pcs i) \<Longrightarrow> b"
  by (auto simp: held_iff_def)

lemma held_iff_free: "held_iff P pcs False \<Longrightarrow> \<not> P (pcs i)"
  by (auto simp: held_iff_def)

lemma held_iff_ex: "held_iff P pcs b \<Longrightarrow> b \<Longrightarrow> \<exists>i. P (pcs i)"
  by (auto simp: held_iff_def)

lemma held_iff_unique: "held_iff P pcs b \<Longrightarrow> P (pcs i) \<Longrightarrow> P (pcs j) \<Longrightarrow> i = j"
  by (auto simp: held_iff_def)

text \<open>The abstract automaton: fresh, running, draining, terminated with a result.\<close>

datatype 'r lifecycle_phase = Fresh | Running | Draining | Terminated 'r

inductive phase_step :: "'r \<Rightarrow> 'r lifecycle_phase \<Rightarrow> 'r lifecycle_phase \<Rightarrow> bool" for ok :: 'r where
  phase_start: "phase_step ok Fresh Running"
| phase_never_started: "phase_step ok Fresh (Terminated ok)"
| phase_drain: "phase_step ok Running Draining"
| phase_exit: "phase_step ok Running (Terminated ok)"
| phase_finish: "phase_step ok Draining (Terminated r)"

inductive_simps phase_step_simps:
  "phase_step ok Fresh p" "phase_step ok Running p" "phase_step ok Draining p"
  "phase_step ok (Terminated r) p"

definition phase_le :: "'r \<Rightarrow> 'r lifecycle_phase \<Rightarrow> 'r lifecycle_phase \<Rightarrow> bool" where
  "phase_le ok = (phase_step ok)\<^sup>*\<^sup>*"

fun phase_rank :: "'r lifecycle_phase \<Rightarrow> nat" where
  "phase_rank Fresh = 0"
| "phase_rank Running = 1"
| "phase_rank Draining = 2"
| "phase_rank (Terminated r) = 3"

lemma phase_step_rank: "phase_step ok p q \<Longrightarrow> phase_rank p < phase_rank q"
  by (induction rule: phase_step.induct) auto

lemma phase_le_rank: "phase_le ok p q \<Longrightarrow> p = q \<or> phase_rank p < phase_rank q"
  unfolding phase_le_def
  by (induction rule: rtranclp_induct) (auto dest: phase_step_rank)

lemma phase_le_terminated: "phase_le ok (Terminated r) q \<longleftrightarrow> q = Terminated r"
  by (auto simp: phase_le_def phase_step_simps elim: converse_rtranclpE)

lemma phase_le_into_running: "phase_le ok p Running \<longleftrightarrow> p = Fresh \<or> p = Running"
proof
  assume "phase_le ok p Running"
  then show "p = Fresh \<or> p = Running" by (cases p) (auto dest: phase_le_rank)
next
  assume "p = Fresh \<or> p = Running"
  then show "phase_le ok p Running" by (auto simp: phase_le_def intro: phase_start)
qed

locale single_use = inductive_invariant init step inv
  for init :: "'s \<Rightarrow> bool" and step :: "'s \<Rightarrow> 's \<Rightarrow> bool" and inv :: "'s \<Rightarrow> bool" +
  fixes phase :: "'s \<Rightarrow> 'r lifecycle_phase"
    and ok :: 'r
  assumes phase_init: "init s \<Longrightarrow> phase s = Fresh"
    and phase_refines: "inv s \<Longrightarrow> step s t \<Longrightarrow> phase s = phase t \<or> phase_step ok (phase s) (phase t)"
begin

sublocale step_monotone init step inv "\<lambda>s t. phase_le ok (phase s) (phase t)"
proof
  show "phase_le ok (phase s) (phase s)" for s by (simp add: phase_le_def)
  show "phase_le ok (phase s) (phase t) \<Longrightarrow> phase_le ok (phase t) (phase u) \<Longrightarrow> phase_le ok (phase s) (phase u)"
    for s t u by (simp add: phase_le_def)
  show "inv s \<Longrightarrow> step s t \<Longrightarrow> phase_le ok (phase s) (phase t)" for s t
    using phase_refines [of s t] by (auto simp: phase_le_def)
qed

lemma terminated_final:
  assumes "reach init step s" and "step\<^sup>*\<^sup>* s t" and "phase s = Terminated r"
  shows "phase t = Terminated r"
  using rel_reach_steps [OF assms(1,2)] assms(3) by (simp add: phase_le_terminated)

lemma never_running_again:
  assumes "reach init step s" and "step\<^sup>*\<^sup>* s t" and "phase s = Draining \<or> phase s = Terminated r"
  shows "phase t \<noteq> Running \<and> phase t \<noteq> Fresh"
  using rel_reach_steps [OF assms(1,2)] phase_le_rank [of ok "phase s" "phase t"] assms(3) by auto

end

end
