(* ===== verification/Grpc_Lifecycle.thy ===== *)
theory Grpc_Lifecycle
  imports Grpc_Config Health_Bridge Lifecycle
begin

section \<open>gRPC server lifecycle (grpcserver/server.go)\<close>

text \<open>
  The \<open>Server\<close> of the gRPC adapter and its \<open>Serve\<close>, \<open>Shutdown\<close> and \<open>RefreshHealth\<close>. The code
  holds \<open>s.mu\<close> over short sections and blocks outside it, so an entry point is a sequence of
  sections: one definition each for what runs under the mutex, and a program counter
  (\<open>grpc_pc\<close>) for where a caller is between them. \<open>grpc_event_step\<close> runs one section of one
  caller; any number of callers interleave.

  The grpc-go server is library code. A call into it is recorded in \<open>gs_calls\<close>, and its
  return (from \<open>Serve\<close>, \<open>GracefulStop\<close>, \<open>Stop\<close>, and the listener's \<open>Close\<close>) is an event of its
  own, with an arbitrary result. A context is its number; \<open>gs_ctx\<close> is what its \<open>Err\<close> returns, and its
  \<open>Done\<close> channel is closed exactly when that is not nil.
\<close>

definition grpc_isNilInterface :: "interface_value \<Rightarrow> bool" where
  "grpc_isNilInterface v =
     (case v of
        NilInterface \<Rightarrow> True
      | Dynamic k isnil \<Rightarrow>
          (if k \<in> {KChan, KFunc, KInterface, KMap, KPointer, KSlice} then isnil else False))"

text \<open>\<open>GRPC_stateInvalid\<close> stands for the values of the \<open>uint8\<close> that no constant names.\<close>

datatype grpc_state = GRPC_stateIdle | GRPC_stateServing | GRPC_stateStopping | GRPC_stateStopped
  | GRPC_stateInvalid

type_synonym grpc_err = "grpc_error go_error"

record GrpcServer =
  srv_server :: bool
  srv_health :: "health_bridge option"
  srv_state :: grpc_state
  srv_listener :: "listener_arg option"
  srv_serveDone :: "chan option"
  srv_shutdownDone :: "chan option"
  srv_shutdownErr :: "grpc_err option"

text \<open>What \<open>New\<close> returns once its arguments are accepted; the zero \<open>Server\<close> for comparison.\<close>

definition grpc_new_server :: GrpcServer where
  "grpc_new_server = \<lparr>srv_server = True, srv_health = Some newHealthBridge, srv_state = GRPC_stateIdle,
     srv_listener = None, srv_serveDone = None, srv_shutdownDone = None, srv_shutdownErr = None\<rparr>"

definition grpc_zero_server :: GrpcServer where
  "grpc_zero_server = grpc_new_server\<lparr>srv_server := False, srv_health := None\<rparr>"

definition grpc_mustServer :: "GrpcServer option \<Rightarrow> GrpcServer outcome" where
  "grpc_mustServer s =
     (case s of
        None \<Rightarrow> Panic ''grpcserver: Server must be created with New''
      | Some srv \<Rightarrow>
          (if \<not> srv_server srv \<or> srv_health srv = None
           then Panic ''grpcserver: Server must be created with New'' else Return srv))"

definition grpc_health_shutdown :: "GrpcServer \<Rightarrow> GrpcServer outcome" where
  "grpc_health_shutdown s =
     (case srv_health s of
        None \<Rightarrow> Panic ''nil pointer dereference''
      | Some b \<Rightarrow> Return (s\<lparr>srv_health := Some (hb_shutdown b)\<rparr>))"

definition grpc_RefreshHealth :: "GrpcServer option \<Rightarrow> Tracker option \<Rightarrow> GrpcServer outcome" where
  "grpc_RefreshHealth s t =
     and_then (grpc_mustServer s) (\<lambda>srv.
       case srv_health srv of
         None \<Rightarrow> Panic ''nil pointer dereference''
       | Some b \<Rightarrow> and_then (hb_refresh t b) (\<lambda>b'. Return (srv\<lparr>srv_health := Some b'\<rparr>)))"

subsection \<open>The sections of Serve\<close>

text \<open>From the call to the first unlock: run the library's \<open>Serve\<close>, return, or close the
  listener and return.\<close>

datatype serve_next = ServeRun | ServeReturn grpc_err | ServeReject

definition grpc_serve_enter :: "listener_arg \<Rightarrow> GrpcServer option \<Rightarrow> (serve_next \<times> GrpcServer option) outcome" where
  "grpc_serve_enter listener s =
     (if grpc_isNilInterface (la_value listener) then Return (ServeReturn (Sentinel GRPC_ErrNilListener), s)
      else and_then (grpc_mustServer s) (\<lambda>srv.
        case srv_state srv of
          GRPC_stateIdle \<Rightarrow>
            Return (ServeRun, Some (srv\<lparr>srv_state := GRPC_stateServing, srv_listener := Some listener,
              srv_serveDone := Some ChanOpen, srv_shutdownDone := Some ChanOpen\<rparr>))
        | GRPC_stateServing \<Rightarrow> Return (ServeReturn (Sentinel GRPC_ErrServerAlreadyServing), Some srv)
        | GRPC_stateStopping \<Rightarrow> Return (ServeReject, Some srv)
        | GRPC_stateStopped \<Rightarrow> Return (ServeReject, Some srv)
        | GRPC_stateInvalid \<Rightarrow> Panic ''grpcserver: invalid lifecycle state''))"

text \<open>The result of a rejected call, from the error of \<open>listener.Close\<close>.\<close>

definition grpc_serve_rejected :: "grpc_err option \<Rightarrow> grpc_err" where
  "grpc_serve_rejected closeErr =
     (case closeErr of
        None \<Rightarrow> Sentinel GRPC_ErrServerStopped
      | Some e \<Rightarrow>
          (if \<not> errors_is closeErr (Std NetErrClosed)
           then the (errors_join [Some (Sentinel GRPC_ErrServerStopped), Some e])
           else Sentinel GRPC_ErrServerStopped))"

text \<open>The second locked section, once the library's \<open>Serve\<close> has returned: whether a shutdown
  was already under way, and the state left behind.\<close>

definition grpc_serve_exit :: "GrpcServer \<Rightarrow> (bool \<times> GrpcServer) outcome" where
  "grpc_serve_exit s =
     (let stopping = (srv_state s = GRPC_stateStopping \<or> srv_state s = GRPC_stateStopped) in
      and_then (close_chan (srv_serveDone s)) (\<lambda>sd.
        let s1 = s\<lparr>srv_listener := None, srv_serveDone := sd\<rparr> in
        if srv_state s1 = GRPC_stateServing then
          and_then (grpc_health_shutdown (s1\<lparr>srv_state := GRPC_stateStopped\<rparr>)) (\<lambda>s2.
            and_then (close_chan (srv_shutdownDone s2)) (\<lambda>dd.
              Return (stopping, s2\<lparr>srv_shutdownDone := dd\<rparr>)))
        else Return (stopping, s1)))"

definition grpc_serve_result :: "bool \<Rightarrow> grpc_err option \<Rightarrow> grpc_err option" where
  "grpc_serve_result stopping err =
     (if stopping \<and> (err = None \<or> errors_is err (Std GrpcErrServerStopped)) then None else err)"

subsection \<open>The sections of Shutdown\<close>

datatype shutdown_next = ShutdownReturn "grpc_err option" | ShutdownWait | ShutdownDrain

definition grpc_shutdown_enter :: "shutdown_ctx \<Rightarrow> GrpcServer option \<Rightarrow> (shutdown_next \<times> GrpcServer option) outcome" where
  "grpc_shutdown_enter ctx s =
     (if grpc_isNilInterface (sc_value ctx)
      then Return (ShutdownReturn (Some (Sentinel GRPC_ErrNilShutdownContext)), s)
      else if \<not> sc_bounded ctx
      then Return (ShutdownReturn (Some (Sentinel GRPC_ErrUnboundedShutdownContext)), s)
      else and_then (grpc_mustServer s) (\<lambda>srv.
        case srv_state srv of
          GRPC_stateIdle \<Rightarrow>
            and_then (grpc_health_shutdown (srv\<lparr>srv_state := GRPC_stateStopped\<rparr>)) (\<lambda>srv'.
              Return (ShutdownReturn None, Some srv'))
        | GRPC_stateStopped \<Rightarrow> Return (ShutdownReturn (srv_shutdownErr srv), Some srv)
        | GRPC_stateStopping \<Rightarrow> Return (ShutdownWait, Some srv)
        | GRPC_stateServing \<Rightarrow>
            and_then (grpc_health_shutdown (srv\<lparr>srv_state := GRPC_stateStopping\<rparr>)) (\<lambda>srv'.
              Return (ShutdownDrain, Some srv'))
        | GRPC_stateInvalid \<Rightarrow> Panic ''grpcserver: invalid lifecycle state''))"

definition grpc_finishShutdown :: "grpc_err option \<Rightarrow> GrpcServer \<Rightarrow> GrpcServer outcome" where
  "grpc_finishShutdown err s =
     (let s1 = s\<lparr>srv_shutdownErr := err, srv_state := GRPC_stateStopped\<rparr> in
      and_then (close_chan (srv_shutdownDone s1)) (\<lambda>dd. Return (s1\<lparr>srv_shutdownDone := dd\<rparr>)))"

subsection \<open>Callers and their interleavings\<close>

text \<open>
  Where a caller is. In \<open>PcServeUnlocked\<close> a caller of \<open>Serve\<close> has released the mutex and not yet
  called the library, in \<open>PcInServe\<close> it is inside it. \<open>Stopping\<close> to \<open>Finish\<close> are the sections of
  the one caller that drains: it reads \<open>ctx.Err\<close> (\<open>PcStopping\<close>), waits in the \<open>select\<close>
  (\<open>PcDraining\<close>), reads \<open>ctx.Err\<close> again when the drain won (\<open>PcDrained\<close>), is inside \<open>Stop\<close>
  (\<open>PcInStop\<close>, with the error it will return and whether it still has to wait for the drain),
  waits for the drain after a forced stop (\<open>PcAwaitGraceful\<close>) and for \<open>Serve\<close>
  (\<open>PcAwaitServe\<close>), and publishes (\<open>PcFinish\<close>).
\<close>

datatype grpc_pc =
    PcIdle
  | PcServeCalled listener_arg
  | PcServeUnlocked listener_arg
  | PcInServe listener_arg
  | PcServeExit "grpc_err option"
  | PcServeReject listener_arg
  | PcServeReturned "grpc_err option"
  | PcShutdownCalled shutdown_ctx
  | PcStopping nat
  | PcDraining nat
  | PcDrained nat
  | PcInStop grpc_err bool
  | PcAwaitGraceful grpc_err
  | PcAwaitServe "grpc_err option"
  | PcFinish "grpc_err option"
  | PcWaitShutdown
  | PcWoken
  | PcShutdownReturned "grpc_err option"
  | PcShutdownRefused grpc_err
  | PcPanicked string

text \<open>The goroutine that a draining caller starts, whose end closes \<open>gracefulDone\<close>.\<close>

datatype graceful_pc = GracefulNone | GracefulSpawned | GracefulRunning | GracefulDone

datatype grpc_call = CallServe | CallGracefulStop | CallStop

record grpc_sys =
  gs_srv :: GrpcServer
  gs_pc :: "nat \<Rightarrow> grpc_pc"
  gs_graceful :: "nat \<Rightarrow> graceful_pc"
  gs_ctx :: "nat \<Rightarrow> grpc_err option"
  gs_calls :: "grpc_call list"

datatype grpc_event =
    EvServe nat listener_arg
  | EvShutdown nat shutdown_ctx
  | EvRun nat
  | EvServeReturns nat "grpc_err option"
  | EvStopReturns nat
  | EvListenerClosed nat "grpc_err option"
  | EvSelectDrained nat
  | EvSelectExpired nat
  | EvGracefulCall nat
  | EvGracefulReturn nat
  | EvCtxDone nat grpc_err
  | EvRefresh serving_status

definition grpc_init :: grpc_sys where
  "grpc_init = \<lparr>gs_srv = grpc_new_server, gs_pc = (\<lambda>_. PcIdle), gs_graceful = (\<lambda>_. GracefulNone),
     gs_ctx = (\<lambda>_. None), gs_calls = []\<rparr>"

definition grpc_goto :: "nat \<Rightarrow> grpc_pc \<Rightarrow> grpc_sys \<Rightarrow> grpc_sys" where
  "grpc_goto i p s = s\<lparr>gs_pc := (gs_pc s)(i := p)\<rparr>"

definition grpc_call_lib :: "grpc_call \<Rightarrow> grpc_sys \<Rightarrow> grpc_sys" where
  "grpc_call_lib c s = s\<lparr>gs_calls := gs_calls s @ [c]\<rparr>"

definition grpc_set_graceful :: "nat \<Rightarrow> graceful_pc \<Rightarrow> grpc_sys \<Rightarrow> grpc_sys" where
  "grpc_set_graceful i g s = s\<lparr>gs_graceful := (gs_graceful s)(i := g)\<rparr>"

text \<open>One section of the caller's own code; \<open>None\<close> where it is blocked on a channel.\<close>

definition grpc_run :: "nat \<Rightarrow> grpc_sys \<Rightarrow> grpc_sys option" where
  "grpc_run i s =
     (case gs_pc s i of
        PcServeCalled l \<Rightarrow>
          (case grpc_serve_enter l (Some (gs_srv s)) of
             Return (ServeRun, Some srv) \<Rightarrow>
               Some (grpc_goto i (PcServeUnlocked l) (s\<lparr>gs_srv := srv\<rparr>))
           | Return (ServeReturn e, _) \<Rightarrow> Some (grpc_goto i (PcServeReturned (Some e)) s)
           | Return (ServeReject, _) \<Rightarrow> Some (grpc_goto i (PcServeReject l) s)
           | Return (ServeRun, None) \<Rightarrow> None
           | Panic m \<Rightarrow> Some (grpc_goto i (PcPanicked m) s))
      | PcServeUnlocked l \<Rightarrow> Some (grpc_call_lib CallServe (grpc_goto i (PcInServe l) s))
      | PcServeExit err \<Rightarrow>
          (case grpc_serve_exit (gs_srv s) of
             Return (stopping, srv) \<Rightarrow>
               Some (grpc_goto i (PcServeReturned (grpc_serve_result stopping err)) (s\<lparr>gs_srv := srv\<rparr>))
           | Panic m \<Rightarrow> Some (grpc_goto i (PcPanicked m) s))
      | PcShutdownCalled c \<Rightarrow>
          (case grpc_shutdown_enter c (Some (gs_srv s)) of
             Return (ShutdownReturn r, Some srv) \<Rightarrow>
               Some (grpc_goto i
                 (if grpc_isNilInterface (sc_value c) \<or> \<not> sc_bounded c then PcShutdownRefused (the r)
                  else PcShutdownReturned r) (s\<lparr>gs_srv := srv\<rparr>))
           | Return (ShutdownWait, _) \<Rightarrow> Some (grpc_goto i PcWaitShutdown s)
           | Return (ShutdownDrain, Some srv) \<Rightarrow>
               Some (grpc_goto i (PcStopping (sc_id c)) (s\<lparr>gs_srv := srv\<rparr>))
           | Return (_, None) \<Rightarrow> None
           | Panic m \<Rightarrow> Some (grpc_goto i (PcPanicked m) s))
      | PcStopping c \<Rightarrow>
          (case gs_ctx s c of
             Some e \<Rightarrow> Some (grpc_call_lib CallStop (grpc_goto i (PcInStop e False) s))
           | None \<Rightarrow> Some (grpc_set_graceful i GracefulSpawned (grpc_goto i (PcDraining c) s)))
      | PcDrained c \<Rightarrow>
          (case gs_ctx s c of
             Some e \<Rightarrow> Some (grpc_call_lib CallStop (grpc_goto i (PcInStop e False) s))
           | None \<Rightarrow> Some (grpc_goto i (PcAwaitServe None) s))
      | PcAwaitGraceful e \<Rightarrow>
          (if gs_graceful s i = GracefulDone then Some (grpc_goto i (PcAwaitServe (Some e)) s) else None)
      | PcAwaitServe r \<Rightarrow>
          (if srv_serveDone (gs_srv s) = Some ChanClosed then Some (grpc_goto i (PcFinish r) s) else None)
      | PcFinish r \<Rightarrow>
          (case grpc_finishShutdown r (gs_srv s) of
             Return srv \<Rightarrow> Some (grpc_goto i (PcShutdownReturned r) (s\<lparr>gs_srv := srv\<rparr>))
           | Panic m \<Rightarrow> Some (grpc_goto i (PcPanicked m) s))
      | PcWaitShutdown \<Rightarrow>
          (if srv_shutdownDone (gs_srv s) = Some ChanClosed then Some (grpc_goto i PcWoken s) else None)
      | PcWoken \<Rightarrow> Some (grpc_goto i (PcShutdownReturned (srv_shutdownErr (gs_srv s))) s)
      | _ \<Rightarrow> None)"

fun grpc_event_step :: "grpc_event \<Rightarrow> grpc_sys \<Rightarrow> grpc_sys option" where
  "grpc_event_step (EvServe i l) s =
     (if gs_pc s i = PcIdle then Some (grpc_goto i (PcServeCalled l) s) else None)"
| "grpc_event_step (EvShutdown i c) s =
     (if gs_pc s i = PcIdle then Some (grpc_goto i (PcShutdownCalled c) s) else None)"
| "grpc_event_step (EvRun i) s = grpc_run i s"
| "grpc_event_step (EvServeReturns i err) s =
     (case gs_pc s i of PcInServe l \<Rightarrow> Some (grpc_goto i (PcServeExit err) s) | _ \<Rightarrow> None)"
| "grpc_event_step (EvStopReturns i) s =
     (case gs_pc s i of
        PcInStop e awaitGraceful \<Rightarrow>
          Some (grpc_goto i (if awaitGraceful then PcAwaitGraceful e else PcAwaitServe (Some e)) s)
      | _ \<Rightarrow> None)"
| "grpc_event_step (EvListenerClosed i err) s =
     (case gs_pc s i of
        PcServeReject l \<Rightarrow> Some (grpc_goto i (PcServeReturned (Some (grpc_serve_rejected err))) s)
      | _ \<Rightarrow> None)"
| "grpc_event_step (EvSelectDrained i) s =
     (case gs_pc s i of
        PcDraining c \<Rightarrow>
          (if gs_graceful s i = GracefulDone then Some (grpc_goto i (PcDrained c) s) else None)
      | _ \<Rightarrow> None)"
| "grpc_event_step (EvSelectExpired i) s =
     (case gs_pc s i of
        PcDraining c \<Rightarrow>
          (case gs_ctx s c of
             Some e \<Rightarrow> Some (grpc_call_lib CallStop (grpc_goto i (PcInStop e True) s))
           | None \<Rightarrow> None)
      | _ \<Rightarrow> None)"
| "grpc_event_step (EvGracefulCall i) s =
     (if gs_graceful s i = GracefulSpawned
      then Some (grpc_call_lib CallGracefulStop (grpc_set_graceful i GracefulRunning s)) else None)"
| "grpc_event_step (EvGracefulReturn i) s =
     (if gs_graceful s i = GracefulRunning then Some (grpc_set_graceful i GracefulDone s) else None)"
| "grpc_event_step (EvCtxDone c e) s =
     (if gs_ctx s c = None then Some (s\<lparr>gs_ctx := (gs_ctx s)(c := Some e)\<rparr>) else None)"
| "grpc_event_step (EvRefresh st) s =
     (case srv_health (gs_srv s) of
        Some b \<Rightarrow> Some (s\<lparr>gs_srv := (gs_srv s)\<lparr>srv_health := Some (refresh_publish st b)\<rparr>\<rparr>)
      | None \<Rightarrow> None)"

definition grpc_trans :: "grpc_sys \<Rightarrow> grpc_sys \<Rightarrow> bool" where
  "grpc_trans s t \<longleftrightarrow> (\<exists>e. grpc_event_step e s = Some t)"

fun grpc_events :: "grpc_event list \<Rightarrow> grpc_sys \<Rightarrow> grpc_sys option" where
  "grpc_events [] s = Some s"
| "grpc_events (e # es) s = Option.bind (grpc_event_step e s) (grpc_events es)"

subsection \<open>The invariant\<close>

text \<open>
  The shape of the shared state in each lifecycle state (\<open>grpc_srv_ok\<close>), what each program
  counter knows (\<open>grpc_pc_ok\<close>), and the two roles: at most one caller is inside \<open>Serve\<close>, and
  one is exactly while \<open>serveDone\<close> is open; at most one caller drains, and one does exactly
  in the state \<open>stateStopping\<close>. \<open>stop\<close> and \<open>drain\<close> say whether \<open>Stop\<close> and \<open>GracefulStop\<close> have
  been called.
\<close>

fun grpc_active :: "grpc_pc \<Rightarrow> bool" where
  "grpc_active (PcServeUnlocked l) \<longleftrightarrow> True"
| "grpc_active (PcInServe l) \<longleftrightarrow> True"
| "grpc_active (PcServeExit e) \<longleftrightarrow> True"
| "grpc_active _ \<longleftrightarrow> False"

fun grpc_draining :: "grpc_pc \<Rightarrow> bool" where
  "grpc_draining (PcStopping c) \<longleftrightarrow> True"
| "grpc_draining (PcDraining c) \<longleftrightarrow> True"
| "grpc_draining (PcDrained c) \<longleftrightarrow> True"
| "grpc_draining (PcInStop e b) \<longleftrightarrow> True"
| "grpc_draining (PcAwaitGraceful e) \<longleftrightarrow> True"
| "grpc_draining (PcAwaitServe r) \<longleftrightarrow> True"
| "grpc_draining (PcFinish r) \<longleftrightarrow> True"
| "grpc_draining _ \<longleftrightarrow> False"

fun grpc_chans_ok :: "grpc_state \<Rightarrow> chan option \<Rightarrow> chan option \<Rightarrow> grpc_err option \<Rightarrow> bool \<Rightarrow> bool \<Rightarrow> bool" where
  "grpc_chans_ok GRPC_stateIdle sd dd e stop drain \<longleftrightarrow> sd = None \<and> dd = None \<and> e = None \<and> \<not> stop \<and> \<not> drain"
| "grpc_chans_ok GRPC_stateServing sd dd e stop drain \<longleftrightarrow>
     sd = Some ChanOpen \<and> dd = Some ChanOpen \<and> e = None \<and> \<not> stop \<and> \<not> drain"
| "grpc_chans_ok GRPC_stateStopping sd dd e stop drain \<longleftrightarrow> sd \<noteq> None \<and> dd = Some ChanOpen \<and> e = None"
| "grpc_chans_ok GRPC_stateStopped sd dd e stop drain \<longleftrightarrow>
     (sd = None \<and> dd = None \<or> sd = Some ChanClosed \<and> dd = Some ChanClosed) \<and> (e \<noteq> None \<longleftrightarrow> stop)"
| "grpc_chans_ok GRPC_stateInvalid sd dd e stop drain \<longleftrightarrow> False"

definition grpc_health_ok :: "grpc_state \<Rightarrow> health_bridge option \<Rightarrow> bool" where
  "grpc_health_ok st h \<longleftrightarrow>
     (\<exists>b. h = Some b \<and> hb_wf b \<and> (hb_stopped b \<longleftrightarrow> st = GRPC_stateStopping \<or> st = GRPC_stateStopped))"

definition grpc_srv_ok :: "GrpcServer \<Rightarrow> grpc_call list \<Rightarrow> bool" where
  "grpc_srv_ok v calls \<longleftrightarrow>
     srv_server v \<and> grpc_health_ok (srv_state v) (srv_health v) \<and>
     grpc_chans_ok (srv_state v) (srv_serveDone v) (srv_shutdownDone v) (srv_shutdownErr v)
       (CallStop \<in> set calls) (CallGracefulStop \<in> set calls) \<and>
     (srv_listener v \<noteq> None \<longleftrightarrow> srv_serveDone v = Some ChanOpen)"

fun grpc_pc_ok :: "GrpcServer \<Rightarrow> bool \<Rightarrow> bool \<Rightarrow> graceful_pc \<Rightarrow> grpc_pc \<Rightarrow> bool" where
  "grpc_pc_ok v stop drain g (PcStopping c) \<longleftrightarrow> \<not> stop \<and> g = GracefulNone"
| "grpc_pc_ok v stop drain g (PcDraining c) \<longleftrightarrow>
     \<not> stop \<and> g \<noteq> GracefulNone \<and> (g \<noteq> GracefulSpawned \<longrightarrow> drain)"
| "grpc_pc_ok v stop drain g (PcDrained c) \<longleftrightarrow> \<not> stop \<and> g = GracefulDone \<and> drain"
| "grpc_pc_ok v stop drain g (PcInStop e b) \<longleftrightarrow>
     stop \<and> (if b then g \<noteq> GracefulNone else g = GracefulNone \<or> g = GracefulDone)"
| "grpc_pc_ok v stop drain g (PcAwaitGraceful e) \<longleftrightarrow> stop \<and> g \<noteq> GracefulNone"
| "grpc_pc_ok v stop drain g (PcAwaitServe r) \<longleftrightarrow>
     (r \<noteq> None \<longleftrightarrow> stop) \<and> (stop \<or> drain) \<and> (g = GracefulNone \<or> g = GracefulDone)"
| "grpc_pc_ok v stop drain g (PcFinish r) \<longleftrightarrow>
     (r \<noteq> None \<longleftrightarrow> stop) \<and> (stop \<or> drain) \<and> (g = GracefulNone \<or> g = GracefulDone) \<and>
     srv_serveDone v = Some ChanClosed"
| "grpc_pc_ok v stop drain g PcWaitShutdown \<longleftrightarrow>
     g = GracefulNone \<and> (srv_state v = GRPC_stateStopping \<or>
       srv_state v = GRPC_stateStopped \<and> srv_shutdownDone v = Some ChanClosed)"
| "grpc_pc_ok v stop drain g PcWoken \<longleftrightarrow>
     g = GracefulNone \<and> srv_state v = GRPC_stateStopped \<and> srv_shutdownDone v = Some ChanClosed"
| "grpc_pc_ok v stop drain g (PcShutdownReturned r) \<longleftrightarrow>
     (g = GracefulNone \<or> g = GracefulDone) \<and> srv_state v = GRPC_stateStopped \<and> srv_shutdownErr v = r"
| "grpc_pc_ok v stop drain g (PcPanicked m) \<longleftrightarrow> False"
| "grpc_pc_ok v stop drain g p \<longleftrightarrow> g = GracefulNone"

definition grpc_inv :: "grpc_sys \<Rightarrow> bool" where
  "grpc_inv s \<longleftrightarrow>
     grpc_srv_ok (gs_srv s) (gs_calls s) \<and>
     held_iff grpc_active (gs_pc s) (srv_serveDone (gs_srv s) = Some ChanOpen) \<and>
     held_iff grpc_draining (gs_pc s) (srv_state (gs_srv s) = GRPC_stateStopping) \<and>
     (\<forall>j. grpc_pc_ok (gs_srv s) (CallStop \<in> set (gs_calls s)) (CallGracefulStop \<in> set (gs_calls s))
        (gs_graceful s j) (gs_pc s j))"

lemmas grpc_move = grpc_goto_def grpc_call_lib_def grpc_set_graceful_def

lemmas grpc_sections = grpc_serve_enter_def grpc_mustServer_def grpc_health_shutdown_def
  grpc_serve_exit_def grpc_shutdown_enter_def grpc_finishShutdown_def

text \<open>A caller that does not drain knows nothing that the draining caller's moves change.\<close>

lemma grpc_pc_ok_stable:
  assumes "grpc_pc_ok v stop drain g p" and "\<not> grpc_draining p"
    and "srv_state v = GRPC_stateStopped \<Longrightarrow>
      srv_state w = GRPC_stateStopped \<and> srv_shutdownDone w = srv_shutdownDone v \<and> srv_shutdownErr w = srv_shutdownErr v"
    and "srv_state v = GRPC_stateStopping \<Longrightarrow>
      srv_state w = GRPC_stateStopping \<or> srv_state w = GRPC_stateStopped \<and> srv_shutdownDone w = Some ChanClosed"
  shows "grpc_pc_ok w stop' drain' g p"
  using assms by (cases p) auto

lemma grpc_other_not_draining:
  assumes "grpc_inv s" and "grpc_draining (gs_pc s i) \<or> srv_state (gs_srv s) \<noteq> GRPC_stateStopping" and "j \<noteq> i"
  shows "\<not> grpc_draining (gs_pc s j)"
  using assms by (auto simp: grpc_inv_def held_iff_def)

lemma grpc_inv_move:
  assumes inv: "grpc_inv s"
    and t: "gs_srv t = w" "gs_calls t = cs" "gs_pc t = (gs_pc s)(i := p)" "gs_graceful t = (gs_graceful s)(i := g)"
    and srv: "grpc_srv_ok w cs"
    and act: "held_iff grpc_active ((gs_pc s)(i := p)) (srv_serveDone w = Some ChanOpen)"
    and drn: "held_iff grpc_draining ((gs_pc s)(i := p)) (srv_state w = GRPC_stateStopping)"
    and me: "grpc_pc_ok w (CallStop \<in> set cs) (CallGracefulStop \<in> set cs) g p"
    and others: "\<And>j. j \<noteq> i \<Longrightarrow> grpc_pc_ok (gs_srv s) (CallStop \<in> set (gs_calls s))
        (CallGracefulStop \<in> set (gs_calls s)) (gs_graceful s j) (gs_pc s j) \<Longrightarrow>
      grpc_pc_ok w (CallStop \<in> set cs) (CallGracefulStop \<in> set cs) (gs_graceful s j) (gs_pc s j)"
  shows "grpc_inv t"
  using inv unfolding grpc_inv_def t
  by (auto simp: srv act drn me intro: others)

text \<open>A move that leaves the shared record alone and calls neither \<open>Stop\<close> nor \<open>GracefulStop\<close>.\<close>

lemma grpc_inv_local:
  assumes inv: "grpc_inv s"
    and roles: "grpc_active p = grpc_active (gs_pc s i)" "grpc_draining p = grpc_draining (gs_pc s i)"
    and me: "grpc_pc_ok (gs_srv s) (CallStop \<in> set (gs_calls s)) (CallGracefulStop \<in> set (gs_calls s)) g p"
    and t: "t = s\<lparr>gs_pc := (gs_pc s)(i := p), gs_graceful := (gs_graceful s)(i := g)\<rparr>"
  shows "grpc_inv t"
proof (rule grpc_inv_move [OF inv])
  show "gs_srv t = gs_srv s" "gs_calls t = gs_calls s" "gs_pc t = (gs_pc s)(i := p)"
    "gs_graceful t = (gs_graceful s)(i := g)" by (simp_all add: t)
  show "grpc_srv_ok (gs_srv s) (gs_calls s)" using inv by (simp add: grpc_inv_def)
  show "held_iff grpc_active ((gs_pc s)(i := p)) (srv_serveDone (gs_srv s) = Some ChanOpen)"
    using inv roles(1) by (auto simp: grpc_inv_def intro: held_iff_keep)
  show "held_iff grpc_draining ((gs_pc s)(i := p)) (srv_state (gs_srv s) = GRPC_stateStopping)"
    using inv roles(2) by (auto simp: grpc_inv_def intro: held_iff_keep)
qed (use me in auto)

text \<open>A call of \<open>Serve\<close> by the caller that has taken the server.\<close>

lemma grpc_inv_call_serve:
  assumes inv: "grpc_inv s" and pc: "gs_pc s i = PcServeUnlocked l"
  shows "grpc_inv (grpc_call_lib CallServe (grpc_goto i (PcInServe l) s))"
proof -
  have "grpc_inv (grpc_goto i (PcInServe l) s)"
    by (rule grpc_inv_local [OF inv, of "PcInServe l" i "gs_graceful s i"])
      (use inv pc in \<open>auto simp: grpc_inv_def grpc_move fun_upd_idem dest: spec [of _ i]\<close>)
  then show ?thesis by (simp add: grpc_inv_def grpc_move grpc_srv_ok_def)
qed

text \<open>A call of \<open>Stop\<close> or \<open>GracefulStop\<close> by the draining caller.\<close>

lemma grpc_inv_lib:
  assumes inv: "grpc_inv s" and role: "grpc_draining (gs_pc s i)" "grpc_draining p" and c: "c \<noteq> CallServe"
    and me: "grpc_pc_ok (gs_srv s) (CallStop \<in> set (gs_calls s @ [c]))
      (CallGracefulStop \<in> set (gs_calls s @ [c])) g p"
    and t: "t = s\<lparr>gs_pc := (gs_pc s)(i := p), gs_graceful := (gs_graceful s)(i := g), gs_calls := gs_calls s @ [c]\<rparr>"
  shows "grpc_inv t"
proof (rule grpc_inv_move [OF inv])
  show "gs_srv t = gs_srv s" "gs_calls t = gs_calls s @ [c]" "gs_pc t = (gs_pc s)(i := p)"
    "gs_graceful t = (gs_graceful s)(i := g)" by (simp_all add: t)
  have st: "srv_state (gs_srv s) = GRPC_stateStopping"
    using inv role(1) by (auto simp: grpc_inv_def dest: held_iff_holder)
  then show "grpc_srv_ok (gs_srv s) (gs_calls s @ [c])"
    using inv c by (auto simp: grpc_inv_def grpc_srv_ok_def)
  have "grpc_active p = grpc_active (gs_pc s i)"
    using role by (cases p; cases "gs_pc s i") auto
  then show "held_iff grpc_active ((gs_pc s)(i := p)) (srv_serveDone (gs_srv s) = Some ChanOpen)"
    using inv by (auto simp: grpc_inv_def intro: held_iff_keep)
  show "held_iff grpc_draining ((gs_pc s)(i := p)) (srv_state (gs_srv s) = GRPC_stateStopping)"
    using inv role by (auto simp: grpc_inv_def intro: held_iff_keep)
  show "grpc_pc_ok (gs_srv s) (CallStop \<in> set (gs_calls s @ [c])) (CallGracefulStop \<in> set (gs_calls s @ [c])) g p"
    by (rule me)
next
  fix j
  assume "j \<noteq> i" and "grpc_pc_ok (gs_srv s) (CallStop \<in> set (gs_calls s))
        (CallGracefulStop \<in> set (gs_calls s)) (gs_graceful s j) (gs_pc s j)"
  then show "grpc_pc_ok (gs_srv s) (CallStop \<in> set (gs_calls s @ [c]))
      (CallGracefulStop \<in> set (gs_calls s @ [c])) (gs_graceful s j) (gs_pc s j)"
    using grpc_other_not_draining [OF inv, of i j] role by (blast intro: grpc_pc_ok_stable)
qed

text \<open>A locked section that moves the shared record to \<open>w\<close>.\<close>

lemma grpc_inv_shared:
  assumes inv: "grpc_inv s"
    and t: "gs_srv t = w" "gs_calls t = cs" "gs_pc t = (gs_pc s)(i := p)" "gs_graceful t = gs_graceful s"
    and srv: "grpc_srv_ok w cs"
    and act: "held_iff grpc_active ((gs_pc s)(i := p)) (srv_serveDone w = Some ChanOpen)"
    and drn: "held_iff grpc_draining ((gs_pc s)(i := p)) (srv_state w = GRPC_stateStopping)"
    and me: "grpc_pc_ok w (CallStop \<in> set cs) (CallGracefulStop \<in> set cs) (gs_graceful s i) p"
    and role: "grpc_draining (gs_pc s i) \<or> srv_state (gs_srv s) \<noteq> GRPC_stateStopping"
    and st: "srv_state (gs_srv s) \<noteq> GRPC_stateStopped"
    and ws: "srv_state (gs_srv s) = GRPC_stateStopping \<Longrightarrow>
      srv_state w = GRPC_stateStopping \<or> srv_state w = GRPC_stateStopped \<and> srv_shutdownDone w = Some ChanClosed"
  shows "grpc_inv t"
proof (rule grpc_inv_move [OF inv t(1,2,3) _ srv act drn me])
  show "gs_graceful t = (gs_graceful s)(i := gs_graceful s i)" by (simp add: t(4))
  fix j
  assume "j \<noteq> i" and "grpc_pc_ok (gs_srv s) (CallStop \<in> set (gs_calls s))
        (CallGracefulStop \<in> set (gs_calls s)) (gs_graceful s j) (gs_pc s j)"
  then show "grpc_pc_ok w (CallStop \<in> set cs) (CallGracefulStop \<in> set cs) (gs_graceful s j) (gs_pc s j)"
    using grpc_other_not_draining [OF inv role, of j] st ws by (blast intro: grpc_pc_ok_stable)
qed

lemma grpc_inv_facts:
  assumes "grpc_inv s"
  shows "srv_server (gs_srv s)"
    and "\<exists>b. srv_health (gs_srv s) = Some b \<and> hb_wf b \<and>
      (hb_stopped b \<longleftrightarrow> srv_state (gs_srv s) = GRPC_stateStopping \<or> srv_state (gs_srv s) = GRPC_stateStopped)"
    and "srv_state (gs_srv s) \<noteq> GRPC_stateInvalid"
    and "srv_state (gs_srv s) = GRPC_stateStopping \<Longrightarrow> srv_shutdownDone (gs_srv s) = Some ChanOpen"
    and "grpc_active (gs_pc s i) \<Longrightarrow> srv_serveDone (gs_srv s) = Some ChanOpen"
    and "grpc_draining (gs_pc s i) \<Longrightarrow> srv_state (gs_srv s) = GRPC_stateStopping"
    and "grpc_pc_ok (gs_srv s) (CallStop \<in> set (gs_calls s)) (CallGracefulStop \<in> set (gs_calls s))
      (gs_graceful s i) (gs_pc s i)"
  using assms by (auto simp: grpc_inv_def grpc_srv_ok_def grpc_health_ok_def dest: held_iff_holder)

lemma grpc_run_serve_enter:
  assumes inv: "grpc_inv s" and pc: "gs_pc s i = PcServeCalled l" and t: "grpc_run i s = Some t"
  shows "grpc_inv t"
proof -
  have g: "gs_graceful s i = GracefulNone" using grpc_inv_facts(7) [OF inv, of i] pc by simp
  from grpc_inv_facts(2) [OF inv] obtain b where b: "srv_health (gs_srv s) = Some b" "hb_wf b" by blast
  have loc: "grpc_inv (grpc_goto i p s)" if "\<not> grpc_active p" "\<not> grpc_draining p"
    "grpc_pc_ok (gs_srv s) (CallStop \<in> set (gs_calls s)) (CallGracefulStop \<in> set (gs_calls s)) GracefulNone p" for p
    by (rule grpc_inv_local [OF inv, of p i GracefulNone]) (use pc g that in \<open>auto simp: grpc_move fun_upd_idem\<close>)
  show ?thesis
  proof (cases "\<not> grpc_isNilInterface (la_value l) \<and> srv_state (gs_srv s) = GRPC_stateIdle")
    case True
    let ?w = "(gs_srv s)\<lparr>srv_state := GRPC_stateServing, srv_listener := Some l,
              srv_serveDone := Some ChanOpen, srv_shutdownDone := Some ChanOpen\<rparr>"
    have t': "t = grpc_goto i (PcServeUnlocked l) (s\<lparr>gs_srv := ?w\<rparr>)"
      using t True pc b grpc_inv_facts(1) [OF inv] by (simp add: grpc_run_def grpc_sections)
    show ?thesis
    proof (rule grpc_inv_shared [OF inv, where i = i])
      show "gs_srv t = ?w" "gs_calls t = gs_calls s" "gs_pc t = (gs_pc s)(i := PcServeUnlocked l)"
        "gs_graceful t = gs_graceful s" by (simp_all add: t' grpc_move)
      show "grpc_srv_ok ?w (gs_calls s)"
        using inv True b by (auto simp: grpc_inv_def grpc_srv_ok_def grpc_health_ok_def)
      show "held_iff grpc_active ((gs_pc s)(i := PcServeUnlocked l)) (srv_serveDone ?w = Some ChanOpen)"
        using inv True by (auto simp: grpc_inv_def grpc_srv_ok_def intro!: held_iff_acquire)
      show "held_iff grpc_draining ((gs_pc s)(i := PcServeUnlocked l)) (srv_state ?w = GRPC_stateStopping)"
        using inv True pc by (auto simp: grpc_inv_def intro!: held_iff_keep)
    qed (use True g in auto)
  next
    case False
    then obtain p where "t = grpc_goto i p s" "p = PcServeReject l \<or> (\<exists>e. p = PcServeReturned e)"
      using t pc b grpc_inv_facts(1,3) [OF inv]
      by (cases "srv_state (gs_srv s)") (auto simp: grpc_run_def grpc_sections split: if_splits)
    then show ?thesis using loc [of p] by auto
  qed
qed

lemma grpc_run_serve_exit:
  assumes inv: "grpc_inv s" and pc: "gs_pc s i = PcServeExit e" and t: "grpc_run i s = Some t"
  shows "grpc_inv t"
proof -
  have g: "gs_graceful s i = GracefulNone" using grpc_inv_facts(7) [OF inv, of i] pc by simp
  from grpc_inv_facts(2) [OF inv] obtain b where b: "srv_health (gs_srv s) = Some b" "hb_wf b" by blast
  have open_serve: "srv_serveDone (gs_srv s) = Some ChanOpen" using grpc_inv_facts(5) [OF inv, of i] pc by simp
  have act: "held_iff grpc_active ((gs_pc s)(i := PcServeReturned r)) False" for r
    using inv pc by (auto simp: grpc_inv_def intro: held_iff_release)
  consider (serving) "srv_state (gs_srv s) = GRPC_stateServing" | (stopping) "srv_state (gs_srv s) = GRPC_stateStopping"
    using inv open_serve by (cases "srv_state (gs_srv s)") (auto simp: grpc_inv_def grpc_srv_ok_def)
  then show ?thesis
  proof cases
    case serving
    let ?w = "(gs_srv s)\<lparr>srv_listener := None, srv_serveDone := Some ChanClosed, srv_state := GRPC_stateStopped,
              srv_health := Some (hb_shutdown b), srv_shutdownDone := Some ChanClosed\<rparr>"
    have dd: "srv_shutdownDone (gs_srv s) = Some ChanOpen" "srv_shutdownErr (gs_srv s) = None"
      "CallStop \<notin> set (gs_calls s)"
      using inv serving by (auto simp: grpc_inv_def grpc_srv_ok_def)
    have t': "t = grpc_goto i (PcServeReturned (grpc_serve_result False e)) (s\<lparr>gs_srv := ?w\<rparr>)"
      using t serving pc b open_serve dd by (simp add: grpc_run_def grpc_sections)
    show ?thesis
    proof (rule grpc_inv_shared [OF inv, where i = i and w = ?w and cs = "gs_calls s"])
      show "grpc_srv_ok ?w (gs_calls s)"
        using inv b dd by (auto simp: grpc_inv_def grpc_srv_ok_def grpc_health_ok_def hb_wf_shutdown)
      show "held_iff grpc_draining ((gs_pc s)(i := PcServeReturned (grpc_serve_result False e)))
          (srv_state ?w = GRPC_stateStopping)"
        using inv serving pc by (auto simp: grpc_inv_def intro!: held_iff_keep)
    qed (use serving act g t' in \<open>auto simp: grpc_move\<close>)
  next
    case stopping
    let ?w = "(gs_srv s)\<lparr>srv_listener := None, srv_serveDone := Some ChanClosed\<rparr>"
    have t': "t = grpc_goto i (PcServeReturned (grpc_serve_result True e)) (s\<lparr>gs_srv := ?w\<rparr>)"
      using t stopping pc b open_serve by (simp add: grpc_run_def grpc_sections)
    show ?thesis
    proof (rule grpc_inv_move [OF inv, where i = i and w = ?w and cs = "gs_calls s" and g = GracefulNone])
      show "grpc_srv_ok ?w (gs_calls s)"
        using inv stopping b by (auto simp: grpc_inv_def grpc_srv_ok_def grpc_health_ok_def)
      show "held_iff grpc_draining ((gs_pc s)(i := PcServeReturned (grpc_serve_result True e)))
          (srv_state ?w = GRPC_stateStopping)"
        using inv pc by (auto simp: grpc_inv_def intro!: held_iff_keep)
      fix j
      show "grpc_pc_ok (gs_srv s) (CallStop \<in> set (gs_calls s)) (CallGracefulStop \<in> set (gs_calls s))
          (gs_graceful s j) (gs_pc s j) \<Longrightarrow>
        grpc_pc_ok ?w (CallStop \<in> set (gs_calls s)) (CallGracefulStop \<in> set (gs_calls s)) (gs_graceful s j) (gs_pc s j)"
        by (cases "gs_pc s j") auto
    qed (use act g t' in \<open>auto simp: grpc_move fun_upd_idem\<close>)
  qed
qed

lemma grpc_run_shutdown_enter:
  assumes inv: "grpc_inv s" and pc: "gs_pc s i = PcShutdownCalled c" and t: "grpc_run i s = Some t"
  shows "grpc_inv t"
proof -
  have g: "gs_graceful s i = GracefulNone" using grpc_inv_facts(7) [OF inv, of i] pc by simp
  from grpc_inv_facts(2) [OF inv] obtain b where b: "srv_health (gs_srv s) = Some b" "hb_wf b" by blast
  have loc: "grpc_inv (grpc_goto i p s)" if "\<not> grpc_active p" "\<not> grpc_draining p"
    "grpc_pc_ok (gs_srv s) (CallStop \<in> set (gs_calls s)) (CallGracefulStop \<in> set (gs_calls s)) GracefulNone p" for p
    by (rule grpc_inv_local [OF inv, of p i GracefulNone]) (use pc g that in \<open>auto simp: grpc_move fun_upd_idem\<close>)
  have enter: "grpc_inv t" if st: "srv_state (gs_srv s) = GRPC_stateIdle \<and> st = GRPC_stateStopped \<and> p = PcShutdownReturned None
      \<or> srv_state (gs_srv s) = GRPC_stateServing \<and> st = GRPC_stateStopping \<and> p = PcStopping (sc_id c)"
    and t': "t = grpc_goto i p (s\<lparr>gs_srv := (gs_srv s)\<lparr>srv_state := st, srv_health := Some (hb_shutdown b)\<rparr>\<rparr>)" for st p
  proof -
    let ?w = "(gs_srv s)\<lparr>srv_state := st, srv_health := Some (hb_shutdown b)\<rparr>"
    have ok: "grpc_srv_ok (gs_srv s) (gs_calls s)" using inv by (simp add: grpc_inv_def)
    have d: "held_iff grpc_draining (gs_pc s) False" using inv st by (auto simp: grpc_inv_def)
    show ?thesis
    proof (rule grpc_inv_shared [OF inv, where i = i and w = ?w and cs = "gs_calls s"])
      show "grpc_srv_ok ?w (gs_calls s)"
        using ok st b by (auto simp: grpc_srv_ok_def grpc_health_ok_def hb_wf_shutdown)
      show "held_iff grpc_active ((gs_pc s)(i := p)) (srv_serveDone ?w = Some ChanOpen)"
        using inv st pc by (auto simp: grpc_inv_def intro!: held_iff_keep)
      show "held_iff grpc_draining ((gs_pc s)(i := p)) (srv_state ?w = GRPC_stateStopping)"
        using st pc by (elim disjE) (simp_all add: held_iff_keep [OF d] held_iff_acquire [OF d])
    qed (use st t' ok g in \<open>auto simp: grpc_move grpc_srv_ok_def\<close>)
  qed
  show ?thesis
  proof (cases "grpc_isNilInterface (sc_value c) \<or> \<not> sc_bounded c")
    case True
    then obtain e where "t = grpc_goto i (PcShutdownRefused e) s"
      using t pc by (cases "grpc_isNilInterface (sc_value c)") (auto simp: grpc_run_def grpc_shutdown_enter_def grpc_move)
    then show ?thesis using loc [of "PcShutdownRefused e"] by auto
  next
    case False
    show ?thesis
    proof (cases "srv_state (gs_srv s)")
      case GRPC_stateIdle
      then show ?thesis
        using enter [of GRPC_stateStopped "PcShutdownReturned None"] False t pc b grpc_inv_facts(1) [OF inv]
        by (simp add: grpc_run_def grpc_sections)
    next
      case GRPC_stateServing
      then show ?thesis
        using enter [of GRPC_stateStopping "PcStopping (sc_id c)"] False t pc b grpc_inv_facts(1) [OF inv]
        by (simp add: grpc_run_def grpc_sections)
    next
      case GRPC_stateStopping
      then show ?thesis
        using loc [of PcWaitShutdown] False t pc b grpc_inv_facts(1) [OF inv]
        by (simp add: grpc_run_def grpc_sections)
    next
      case GRPC_stateStopped
      then show ?thesis
        using loc [of "PcShutdownReturned (srv_shutdownErr (gs_srv s))"] False t pc b grpc_inv_facts(1) [OF inv]
        by (simp add: grpc_run_def grpc_sections grpc_move)
    qed (use grpc_inv_facts(3) [OF inv] in simp)
  qed
qed

lemma grpc_run_finish:
  assumes inv: "grpc_inv s" and pc: "gs_pc s i = PcFinish r" and t: "grpc_run i s = Some t"
  shows "grpc_inv t"
proof -
  let ?w = "(gs_srv s)\<lparr>srv_shutdownErr := r, srv_state := GRPC_stateStopped, srv_shutdownDone := Some ChanClosed\<rparr>"
  have st: "srv_state (gs_srv s) = GRPC_stateStopping" using grpc_inv_facts(6) [OF inv, of i] pc by simp
  have me: "(r \<noteq> None \<longleftrightarrow> CallStop \<in> set (gs_calls s))" "srv_serveDone (gs_srv s) = Some ChanClosed"
    "gs_graceful s i = GracefulNone \<or> gs_graceful s i = GracefulDone"
    using grpc_inv_facts(7) [OF inv, of i] pc by simp_all
  have ok: "grpc_srv_ok (gs_srv s) (gs_calls s)" using inv by (simp add: grpc_inv_def)
  have t': "t = grpc_goto i (PcShutdownReturned r) (s\<lparr>gs_srv := ?w\<rparr>)"
    using t pc ok st by (simp add: grpc_run_def grpc_sections grpc_srv_ok_def)
  show ?thesis
  proof (rule grpc_inv_shared [OF inv, where i = i and w = ?w and cs = "gs_calls s"])
    show "grpc_srv_ok ?w (gs_calls s)"
      using ok st me by (auto simp: grpc_srv_ok_def grpc_health_ok_def)
    show "held_iff grpc_active ((gs_pc s)(i := PcShutdownReturned r)) (srv_serveDone ?w = Some ChanOpen)"
      using inv pc by (auto simp: grpc_inv_def intro!: held_iff_keep)
    show "held_iff grpc_draining ((gs_pc s)(i := PcShutdownReturned r)) (srv_state ?w = GRPC_stateStopping)"
      using inv pc by (auto simp: grpc_inv_def intro: held_iff_release)
  qed (use st t' me pc in \<open>auto simp: grpc_move\<close>)
qed

lemma grpc_run_inv:
  assumes inv: "grpc_inv s" and t: "grpc_run i s = Some t"
  shows "grpc_inv t"
proof -
  note ok = grpc_inv_facts(7) [OF inv, of i]
  have loc: "grpc_inv (grpc_goto i p s)"
    if "grpc_active p = grpc_active (gs_pc s i)" "grpc_draining p = grpc_draining (gs_pc s i)"
      "grpc_pc_ok (gs_srv s) (CallStop \<in> set (gs_calls s)) (CallGracefulStop \<in> set (gs_calls s)) (gs_graceful s i) p" for p
    by (rule grpc_inv_local [OF inv that]) (simp add: grpc_move fun_upd_idem)
  have lib: "grpc_inv (grpc_call_lib CallStop (grpc_goto i p s))"
    if "grpc_draining (gs_pc s i)" "grpc_draining p"
      "grpc_pc_ok (gs_srv s) True (CallGracefulStop \<in> set (gs_calls s)) (gs_graceful s i) p" for p
    by (rule grpc_inv_lib [OF inv that(1,2), of CallStop "gs_graceful s i"])
      (use that(3) in \<open>simp_all add: grpc_move fun_upd_idem\<close>)
  show ?thesis
  proof (cases "gs_pc s i")
    case (PcServeCalled l)
    then show ?thesis using grpc_run_serve_enter [OF inv _ t] by blast
  next
    case (PcServeExit e)
    then show ?thesis using grpc_run_serve_exit [OF inv _ t] by blast
  next
    case (PcShutdownCalled c)
    then show ?thesis using grpc_run_shutdown_enter [OF inv _ t] by blast
  next
    case (PcFinish r)
    then show ?thesis using grpc_run_finish [OF inv _ t] by blast
  next
    case (PcStopping c)
    have "grpc_inv (grpc_set_graceful i GracefulSpawned (grpc_goto i (PcDraining c) s))"
      by (rule grpc_inv_local [OF inv, of "PcDraining c" i GracefulSpawned])
        (use PcStopping ok in \<open>simp_all add: grpc_move\<close>)
    with PcStopping show ?thesis
      using t ok lib by (auto simp: grpc_run_def split: option.splits)
  next
    case (PcServeUnlocked l)
    then show ?thesis using t grpc_inv_call_serve [OF inv PcServeUnlocked] by (simp add: grpc_run_def)
  qed (use t ok loc lib grpc_inv_facts(4) [OF inv] in \<open>auto simp: grpc_run_def split: option.splits if_splits\<close>)
qed

lemma grpc_event_inv:
  assumes inv: "grpc_inv s" and t: "grpc_event_step e s = Some t"
  shows "grpc_inv t"
proof -
  note ok = grpc_inv_facts(7) [OF inv]
  have loc: "grpc_inv (grpc_goto i p s)"
    if "grpc_active p = grpc_active (gs_pc s i)" "grpc_draining p = grpc_draining (gs_pc s i)"
      "grpc_pc_ok (gs_srv s) (CallStop \<in> set (gs_calls s)) (CallGracefulStop \<in> set (gs_calls s)) (gs_graceful s i) p" for i p
    by (rule grpc_inv_local [OF inv that]) (simp add: grpc_move fun_upd_idem)
  have busy: "\<exists>c r. gs_pc s i = PcDraining c \<or> gs_pc s i = PcInStop r True \<or> gs_pc s i = PcAwaitGraceful r"
    if "gs_graceful s i = GracefulSpawned \<or> gs_graceful s i = GracefulRunning" for i
    using ok [of i] that by (cases "gs_pc s i") (auto split: if_splits)
  show ?thesis
  proof (cases e)
    case (EvRun i)
    then show ?thesis using grpc_run_inv [OF inv] t by simp
  next
    case (EvServe i l)
    then show ?thesis using t ok [of i] loc [of "PcServeCalled l" i] by (auto split: if_splits)
  next
    case (EvShutdown i c)
    then show ?thesis using t ok [of i] loc [of "PcShutdownCalled c" i] by (auto split: if_splits)
  next
    case (EvServeReturns i r)
    then show ?thesis using t ok [of i] loc [of "PcServeExit r" i] by (auto split: grpc_pc.splits)
  next
    case (EvStopReturns i)
    then show ?thesis
      using t ok [of i] loc [of "PcAwaitGraceful x" i for x] loc [of "PcAwaitServe (Some x)" i for x]
      by (auto split: grpc_pc.splits if_splits)
  next
    case (EvListenerClosed i r)
    then show ?thesis
      using t ok [of i] loc [of "PcServeReturned (Some (grpc_serve_rejected r))" i] by (auto split: grpc_pc.splits)
  next
    case (EvSelectDrained i)
    then obtain c where "gs_pc s i = PcDraining c" "gs_graceful s i = GracefulDone" "t = grpc_goto i (PcDrained c) s"
      using t by (auto split: grpc_pc.splits if_splits)
    then show ?thesis using ok [of i] loc [of "PcDrained c" i] by auto
  next
    case (EvSelectExpired i)
    then obtain c r where pc: "gs_pc s i = PcDraining c"
      and t': "t = grpc_call_lib CallStop (grpc_goto i (PcInStop r True) s)"
      using t by (auto split: grpc_pc.splits option.splits)
    show ?thesis
      by (rule grpc_inv_lib [OF inv, of i "PcInStop r True" CallStop "gs_graceful s i"])
        (use pc t' ok [of i] in \<open>auto simp: grpc_move fun_upd_idem\<close>)
  next
    case (EvGracefulCall i)
    then have g: "gs_graceful s i = GracefulSpawned"
      and t': "t = grpc_call_lib CallGracefulStop (grpc_set_graceful i GracefulRunning s)"
      using t by (auto split: if_splits)
    show ?thesis
      by (rule grpc_inv_lib [OF inv, of i "gs_pc s i" CallGracefulStop GracefulRunning])
        (use busy [of i] g t' ok [of i] in \<open>auto simp: grpc_move fun_upd_idem\<close>)
  next
    case (EvGracefulReturn i)
    then have g: "gs_graceful s i = GracefulRunning" and t': "t = grpc_set_graceful i GracefulDone s"
      using t by (auto split: if_splits)
    show ?thesis
      by (rule grpc_inv_local [OF inv, of "gs_pc s i" i GracefulDone])
        (use busy [of i] g t' ok [of i] in \<open>auto simp: grpc_move fun_upd_idem\<close>)
  next
    case (EvCtxDone c e)
    then show ?thesis using t inv by (auto simp: grpc_inv_def split: if_splits)
  next
    case (EvRefresh st)
    then obtain b where b: "srv_health (gs_srv s) = Some b"
      and t': "t = s\<lparr>gs_srv := (gs_srv s)\<lparr>srv_health := Some (refresh_publish st b)\<rparr>\<rparr>"
      using t by (auto split: option.splits)
    have "grpc_pc_ok (gs_srv t) stop drain g p = grpc_pc_ok (gs_srv s) stop drain g p" for stop drain g p
      by (cases p) (auto simp: t')
    then show ?thesis using inv b
      by (auto simp: grpc_inv_def t' grpc_srv_ok_def grpc_health_ok_def hb_wf_publish)
  qed
qed

interpretation grpc_discipline: inductive_invariant "\<lambda>s. s = grpc_init" grpc_trans grpc_inv
proof
  show "s = grpc_init \<Longrightarrow> grpc_inv s" for s
    by (simp add: grpc_inv_def grpc_init_def grpc_new_server_def grpc_srv_ok_def grpc_health_ok_def
        hb_wf_new held_iff_def) (simp add: newHealthBridge_def)
  show "grpc_inv s \<Longrightarrow> grpc_trans s t \<Longrightarrow> grpc_inv t" for s t
    by (auto simp: grpc_trans_def intro: grpc_event_inv)
qed

subsection \<open>The one call of the library's Serve\<close>

text \<open>
  The library's \<open>Serve\<close> has been called once when somebody has taken the server and is past the
  call, and not yet while the server is untouched or the caller that took it is still between
  the mutex and the call.
\<close>

definition grpc_calls_ok :: "grpc_sys \<Rightarrow> bool" where
  "grpc_calls_ok s \<longleftrightarrow> grpc_inv s \<and>
     count_list (gs_calls s) CallServe =
       (if srv_serveDone (gs_srv s) = None \<or> (\<exists>i l. gs_pc s i = PcServeUnlocked l) then 0 else 1)"

lemma grpc_other_pending:
  "gs_pc t = (gs_pc s)(i := p) \<Longrightarrow> (\<forall>l. p \<noteq> PcServeUnlocked l) \<Longrightarrow> (\<forall>l. gs_pc s i \<noteq> PcServeUnlocked l) \<Longrightarrow>
     (\<exists>j l. gs_pc t j = PcServeUnlocked l) \<longleftrightarrow> (\<exists>j l. gs_pc s j = PcServeUnlocked l)"
  by auto

lemma grpc_calls_ok_keep:
  assumes ok: "grpc_calls_ok s" and t: "grpc_inv t" "gs_pc t = (gs_pc s)(i := p)"
    and c: "count_list (gs_calls t) CallServe = count_list (gs_calls s) CallServe"
    and d: "srv_serveDone (gs_srv t) = None \<longleftrightarrow> srv_serveDone (gs_srv s) = None"
    and p: "\<forall>l. p \<noteq> PcServeUnlocked l" "\<forall>l. gs_pc s i \<noteq> PcServeUnlocked l"
  shows "grpc_calls_ok t"
  using ok t c d grpc_other_pending [OF t(2) p] unfolding grpc_calls_ok_def by metis

lemma grpc_section_serveDone:
  "grpc_serve_exit v = Return (b, w) \<Longrightarrow> srv_serveDone v \<noteq> None \<and> srv_serveDone w \<noteq> None"
  "grpc_finishShutdown r v = Return w \<Longrightarrow> srv_serveDone w = srv_serveDone v"
  "grpc_shutdown_enter c (Some v) = Return (n, Some w) \<Longrightarrow> srv_serveDone w = srv_serveDone v"
proof -
  show "grpc_serve_exit v = Return (b, w) \<Longrightarrow> srv_serveDone v \<noteq> None \<and> srv_serveDone w \<noteq> None"
    by (cases "srv_serveDone v" rule: close_chan.cases)
      (auto simp: grpc_serve_exit_def grpc_health_shutdown_def Let_def split: if_splits option.splits)
qed (auto simp: grpc_sections Let_def split: if_splits grpc_state.splits option.splits)

text \<open>What every other step of a caller leaves alone.\<close>

lemma grpc_run_quiet:
  assumes t: "grpc_run i s = Some t" and pc: "\<forall>l. gs_pc s i \<noteq> PcServeCalled l \<and> gs_pc s i \<noteq> PcServeUnlocked l"
  shows "\<exists>p. gs_pc t = (gs_pc s)(i := p) \<and> (\<forall>l. p \<noteq> PcServeUnlocked l) \<and>
    count_list (gs_calls t) CallServe = count_list (gs_calls s) CallServe \<and>
    (srv_serveDone (gs_srv t) = None \<longleftrightarrow> srv_serveDone (gs_srv s) = None)"
proof (cases "gs_pc s i")
  case (PcServeExit e)
  with t show ?thesis
    by (auto simp: grpc_run_def grpc_move dest!: grpc_section_serveDone(1) split: outcome.splits prod.splits)
next
  case (PcShutdownCalled c)
  with t show ?thesis
    by (auto simp: grpc_run_def grpc_move grpc_section_serveDone
        split: outcome.splits prod.splits shutdown_next.splits option.splits)
next
  case (PcFinish r)
  with t show ?thesis by (auto simp: grpc_run_def grpc_move grpc_section_serveDone split: outcome.splits)
next
  case (PcStopping c)
  with t show ?thesis by (auto simp: grpc_run_def grpc_move split: option.splits)
next
  case (PcDrained c)
  with t show ?thesis by (auto simp: grpc_run_def grpc_move split: option.splits)
qed (use t pc in \<open>auto simp: grpc_run_def grpc_move split: if_splits\<close>)

lemma grpc_run_calls:
  assumes ok: "grpc_calls_ok s" and t: "grpc_run i s = Some t"
  shows "grpc_calls_ok t"
proof -
  have inv: "grpc_inv s" using ok by (simp add: grpc_calls_ok_def)
  have inv': "grpc_inv t" by (rule grpc_run_inv [OF inv t])
  from grpc_inv_facts(2) [OF inv] obtain b where b: "srv_health (gs_srv s) = Some b" by blast
  note keep = grpc_calls_ok_keep [OF ok inv', of i]
  consider (called) l where "gs_pc s i = PcServeCalled l" | (unlocked) l where "gs_pc s i = PcServeUnlocked l"
    | (other) "\<forall>l. gs_pc s i \<noteq> PcServeCalled l \<and> gs_pc s i \<noteq> PcServeUnlocked l" by blast
  then show ?thesis
  proof cases
    case called
    note PcServeCalled = called
    show ?thesis
    proof (cases "\<not> grpc_isNilInterface (la_value l) \<and> srv_state (gs_srv s) = GRPC_stateIdle")
      case True
      then have "srv_serveDone (gs_srv s) = None" using inv by (auto simp: grpc_inv_def grpc_srv_ok_def)
      moreover have "gs_pc t i = PcServeUnlocked l" "gs_calls t = gs_calls s"
        using t True PcServeCalled b grpc_inv_facts(1) [OF inv] by (auto simp: grpc_run_def grpc_sections grpc_move)
      ultimately show ?thesis using ok inv' unfolding grpc_calls_ok_def by metis
    next
      case False
      then obtain p where "t = grpc_goto i p s" "p = PcServeReject l \<or> (\<exists>e. p = PcServeReturned e)"
        using t PcServeCalled b grpc_inv_facts(1,3) [OF inv]
        by (cases "srv_state (gs_srv s)") (auto simp: grpc_run_def grpc_sections split: if_splits)
      then show ?thesis using PcServeCalled by (intro keep [of p]) (auto simp: grpc_move)
    qed
  next
    case unlocked
    note PcServeUnlocked = unlocked
    have d: "srv_serveDone (gs_srv s) = Some ChanOpen" using grpc_inv_facts(5) [OF inv, of i] PcServeUnlocked by simp
    have "gs_pc t j \<noteq> PcServeUnlocked m" for j m
    proof (cases "j = i")
      case False
      have "\<not> grpc_active (gs_pc s j)"
        using inv PcServeUnlocked False by (auto simp: grpc_inv_def held_iff_def)
      with False t PcServeUnlocked show ?thesis by (auto simp: grpc_run_def grpc_move)
    qed (use t PcServeUnlocked in \<open>auto simp: grpc_run_def grpc_move\<close>)
    moreover have "count_list (gs_calls t) CallServe = count_list (gs_calls s) CallServe + 1" "gs_srv t = gs_srv s"
      using t PcServeUnlocked by (auto simp: grpc_run_def grpc_move)
    moreover have "count_list (gs_calls s) CallServe = 0"
      using ok PcServeUnlocked unfolding grpc_calls_ok_def by auto
    ultimately show ?thesis using inv' d unfolding grpc_calls_ok_def by auto
  next
    case other
    obtain p where q: "gs_pc t = (gs_pc s)(i := p)" "count_list (gs_calls t) CallServe = count_list (gs_calls s) CallServe"
        "srv_serveDone (gs_srv t) = None \<longleftrightarrow> srv_serveDone (gs_srv s) = None" "\<forall>l. p \<noteq> PcServeUnlocked l"
      using grpc_run_quiet [OF t other] by (elim exE conjE) (rule that)
    show ?thesis by (rule keep [OF q]) (use other in blast)
  qed
qed

lemma grpc_event_quiet:
  assumes t: "grpc_event_step e s = Some t" and e: "\<forall>i. e \<noteq> EvRun i"
  shows "\<exists>i p. gs_pc t = (gs_pc s)(i := p) \<and> (p = gs_pc s i \<or> (\<forall>l. p \<noteq> PcServeUnlocked l \<and> gs_pc s i \<noteq> PcServeUnlocked l)) \<and>
    count_list (gs_calls t) CallServe = count_list (gs_calls s) CallServe \<and>
    srv_serveDone (gs_srv t) = srv_serveDone (gs_srv s)"
proof -
  have same: ?thesis if "gs_pc t = gs_pc s" "count_list (gs_calls t) CallServe = count_list (gs_calls s) CallServe"
    "srv_serveDone (gs_srv t) = srv_serveDone (gs_srv s)"
    by (intro exI [of _ 0] exI [of _ "gs_pc s 0"]) (use that in simp)
  have move: ?thesis if "gs_pc t = (gs_pc s)(i := p)" "\<forall>l. p \<noteq> PcServeUnlocked l \<and> gs_pc s i \<noteq> PcServeUnlocked l"
    "count_list (gs_calls t) CallServe = count_list (gs_calls s) CallServe" "gs_srv t = gs_srv s" for i p
    by (intro exI [of _ i] exI [of _ p]) (use that in simp)
  show ?thesis
  proof (cases e)
    case (EvServe i l)
    then show ?thesis using t by (intro move [of i "PcServeCalled l"]) (auto simp: grpc_move split: if_splits)
  next
    case (EvShutdown i c)
    then show ?thesis using t by (intro move [of i "PcShutdownCalled c"]) (auto simp: grpc_move split: if_splits)
  next
    case (EvServeReturns i r)
    then show ?thesis using t by (intro move [of i "PcServeExit r"]) (auto simp: grpc_move split: grpc_pc.splits)
  next
    case (EvStopReturns i)
    then show ?thesis using t by (intro move [of i "gs_pc t i"]) (auto simp: grpc_move split: grpc_pc.splits if_splits)
  next
    case (EvListenerClosed i r)
    then show ?thesis using t by (intro move [of i "gs_pc t i"]) (auto simp: grpc_move split: grpc_pc.splits)
  next
    case (EvSelectDrained i)
    then show ?thesis using t by (intro move [of i "gs_pc t i"]) (auto simp: grpc_move split: grpc_pc.splits if_splits)
  next
    case (EvSelectExpired i)
    then show ?thesis
      using t by (intro move [of i "gs_pc t i"]) (auto simp: grpc_move split: grpc_pc.splits option.splits)
  next
    case (EvGracefulCall i)
    then show ?thesis using t by (intro same) (auto simp: grpc_move split: if_splits)
  next
    case (EvGracefulReturn i)
    then show ?thesis using t by (intro same) (auto simp: grpc_move split: if_splits)
  next
    case (EvCtxDone c r)
    then show ?thesis using t by (intro same) (auto split: if_splits)
  next
    case (EvRefresh st)
    then show ?thesis using t by (intro same) (auto split: option.splits)
  qed (use e in simp)
qed

interpretation grpc_calling: inductive_invariant "\<lambda>s. s = grpc_init" grpc_trans grpc_calls_ok
proof
  show "s = grpc_init \<Longrightarrow> grpc_calls_ok s" for s
    using grpc_discipline.inv_init by (simp add: grpc_calls_ok_def) (simp add: grpc_init_def grpc_new_server_def)
  fix s t :: grpc_sys
  assume ok: "grpc_calls_ok s" and "grpc_trans s t"
  then obtain e where e: "grpc_event_step e s = Some t" by (auto simp: grpc_trans_def)
  have inv': "grpc_inv t" using grpc_event_inv [OF _ e] ok by (simp add: grpc_calls_ok_def)
  show "grpc_calls_ok t"
  proof (cases "\<exists>i. e = EvRun i")
    case True
    then show ?thesis using grpc_run_calls [OF ok] e by auto
  next
    case False
    then obtain i p where q: "gs_pc t = (gs_pc s)(i := p)"
        "p = gs_pc s i \<or> (\<forall>l. p \<noteq> PcServeUnlocked l \<and> gs_pc s i \<noteq> PcServeUnlocked l)"
        "count_list (gs_calls t) CallServe = count_list (gs_calls s) CallServe"
        "srv_serveDone (gs_srv t) = srv_serveDone (gs_srv s)"
      using grpc_event_quiet [OF e] by blast
    show ?thesis
    proof (cases "p = gs_pc s i")
      case True
      then have "gs_pc t = gs_pc s" using q(1) by simp
      then show ?thesis using ok inv' q(3,4) unfolding grpc_calls_ok_def by simp
    next
      case False
      then show ?thesis using q grpc_calls_ok_keep [OF ok inv' q(1)] by simp
    qed
  qed
qed

end
