(* ===== verification/Grpc_Shutdown.thy ===== *)
theory Grpc_Shutdown
  imports Grpc_Lifecycle
begin

section \<open>What the gRPC lifecycle guarantees\<close>

text \<open>
  The properties of \<open>Serve\<close> and \<open>Shutdown\<close> over every interleaving, from the invariant of the
  lifecycle: the refinement of the single-use automaton, progress and termination, the
  provenance of errors, and the claims.
\<close>

subsection \<open>The lifecycle is single use\<close>

fun grpc_phase_of :: "grpc_state \<Rightarrow> grpc_err option \<Rightarrow> grpc_err option lifecycle_phase" where
  "grpc_phase_of GRPC_stateIdle r = Fresh"
| "grpc_phase_of GRPC_stateServing r = Running"
| "grpc_phase_of GRPC_stateStopping r = Draining"
| "grpc_phase_of GRPC_stateStopped r = Terminated r"
| "grpc_phase_of GRPC_stateInvalid r = Fresh"

definition grpc_phase :: "grpc_sys \<Rightarrow> grpc_err option lifecycle_phase" where
  "grpc_phase s = grpc_phase_of (srv_state (gs_srv s)) (srv_shutdownErr (gs_srv s))"

lemma grpc_run_phase:
  assumes inv: "grpc_inv s" and t: "grpc_run i s = Some t"
  shows "grpc_phase s = grpc_phase t \<or> phase_step None (grpc_phase s) (grpc_phase t)"
proof -
  from grpc_inv_facts(2) [OF inv] obtain b where b: "srv_health (gs_srv s) = Some b" by blast
  have ok: "grpc_srv_ok (gs_srv s) (gs_calls s)" using inv by (simp add: grpc_inv_def)
  have srv: "srv_server (gs_srv s)" using grpc_inv_facts(1) [OF inv] .
  show ?thesis
  proof (cases "gs_pc s i")
    case (PcServeCalled l)
    then show ?thesis
      using t b srv by (cases "srv_state (gs_srv s)")
        (auto simp: grpc_run_def grpc_sections grpc_move grpc_phase_def phase_start split: if_splits)
  next
    case (PcServeExit e)
    then have "srv_serveDone (gs_srv s) = Some ChanOpen" using grpc_inv_facts(5) [OF inv, of i] by simp
    then show ?thesis
      using PcServeExit t b ok by (cases "srv_state (gs_srv s)")
        (auto simp: grpc_run_def grpc_sections grpc_move grpc_phase_def grpc_srv_ok_def phase_exit)
  next
    case (PcShutdownCalled c)
    then show ?thesis
      using t b srv ok by (cases "srv_state (gs_srv s)"; cases "grpc_isNilInterface (sc_value c)"; cases "sc_bounded c")
        (auto simp: grpc_run_def grpc_sections grpc_move grpc_phase_def grpc_srv_ok_def phase_never_started phase_drain)
  next
    case (PcFinish r)
    then have "srv_state (gs_srv s) = GRPC_stateStopping" using grpc_inv_facts(6) [OF inv, of i] by simp
    then show ?thesis
      using PcFinish t ok by (auto simp: grpc_run_def grpc_sections grpc_move grpc_phase_def grpc_srv_ok_def phase_finish)
  qed (use t in \<open>auto simp: grpc_run_def grpc_move grpc_phase_def split: option.splits if_splits\<close>)
qed

interpretation grpc_single_use: single_use "\<lambda>s. s = grpc_init" grpc_trans grpc_inv grpc_phase None
proof
  show "s = grpc_init \<Longrightarrow> grpc_phase s = Fresh" for s
    by (simp add: grpc_phase_def grpc_init_def grpc_new_server_def)
  fix s t :: grpc_sys
  assume inv: "grpc_inv s" and "grpc_trans s t"
  then obtain e where e: "grpc_event_step e s = Some t" by (auto simp: grpc_trans_def)
  show "grpc_phase s = grpc_phase t \<or> phase_step None (grpc_phase s) (grpc_phase t)"
  proof (cases e)
    case (EvRun i)
    then show ?thesis using grpc_run_phase [OF inv] e by simp
  qed (use e in \<open>auto simp: grpc_move grpc_phase_def split: if_splits grpc_pc.splits option.splits\<close>)
qed

subsection \<open>Progress and termination\<close>

text \<open>
  What the code and its documented environment owe a waiting caller: its own sections and
  the goroutine's start, the return of \<open>Serve\<close> after \<open>Stop\<close> or \<open>GracefulStop\<close> (also when it
  was called after them), the return of \<open>Stop\<close>, the return of \<open>GracefulStop\<close> after \<open>Stop\<close>, and the deadline of the context that a draining caller was
  given. Nothing else: not a drain that ends by itself, nor a \<open>Serve\<close> that fails.
\<close>

fun grpc_promised :: "grpc_sys \<Rightarrow> grpc_event \<Rightarrow> bool" where
  "grpc_promised s (EvRun i) \<longleftrightarrow> True"
| "grpc_promised s (EvSelectDrained i) \<longleftrightarrow> True"
| "grpc_promised s (EvSelectExpired i) \<longleftrightarrow> True"
| "grpc_promised s (EvGracefulCall i) \<longleftrightarrow> True"
| "grpc_promised s (EvServeReturns i r) \<longleftrightarrow> CallStop \<in> set (gs_calls s) \<or> CallGracefulStop \<in> set (gs_calls s)"
| "grpc_promised s (EvStopReturns i) \<longleftrightarrow> True"
| "grpc_promised s (EvGracefulReturn i) \<longleftrightarrow> CallStop \<in> set (gs_calls s)"
| "grpc_promised s (EvCtxDone c e) \<longleftrightarrow> (\<exists>i. gs_pc s i = PcDraining c)"
| "grpc_promised s _ \<longleftrightarrow> False"

fun grpc_in_shutdown :: "grpc_pc \<Rightarrow> bool" where
  "grpc_in_shutdown (PcShutdownCalled c) \<longleftrightarrow> True"
| "grpc_in_shutdown PcWaitShutdown \<longleftrightarrow> True"
| "grpc_in_shutdown PcWoken \<longleftrightarrow> True"
| "grpc_in_shutdown p \<longleftrightarrow> grpc_draining p"

lemma grpc_draining_enabled:
  assumes inv: "grpc_inv s" and d: "grpc_draining (gs_pc s i)"
  shows "\<exists>e t. grpc_event_step e s = Some t \<and> grpc_promised s e"
proof -
  note ok = grpc_inv_facts(7) [OF inv, of i]
  have st: "srv_state (gs_srv s) = GRPC_stateStopping" using grpc_inv_facts(6) [OF inv d] .
  have srv: "grpc_srv_ok (gs_srv s) (gs_calls s)" using inv by (simp add: grpc_inv_def)
  show ?thesis
  proof (cases "gs_pc s i")
    case (PcAwaitServe r)
    show ?thesis
    proof (cases "srv_serveDone (gs_srv s)")
      case None
      then show ?thesis using srv st by (simp add: grpc_srv_ok_def)
    next
      case (Some ch)
      show ?thesis
      proof (cases ch)
        case ChanClosed
        then have "grpc_event_step (EvRun i) s = Some (grpc_goto i (PcFinish r) s)"
          using Some PcAwaitServe by (simp add: grpc_run_def)
        then show ?thesis by fastforce
      next
        case ChanOpen
        then obtain j where "grpc_active (gs_pc s j)"
          using Some inv by (auto simp: grpc_inv_def dest: held_iff_ex)
        then consider l where "gs_pc s j = PcInServe l" | x where "gs_pc s j = PcServeExit x"
            | l where "gs_pc s j = PcServeUnlocked l"
          by (cases "gs_pc s j") auto
        then show ?thesis
        proof cases
          case 1
          then have "grpc_event_step (EvServeReturns j None) s = Some (grpc_goto j (PcServeExit None) s)" by simp
          moreover have "grpc_promised s (EvServeReturns j None)" using ok PcAwaitServe by auto
          ultimately show ?thesis by blast
        next
          case 2
          then have "grpc_event_step (EvRun j) s \<noteq> None"
            by (simp add: grpc_run_def split: outcome.splits prod.splits)
          then show ?thesis by fastforce
        next
          case 3
          then have "grpc_event_step (EvRun j) s \<noteq> None" by (simp add: grpc_run_def)
          then show ?thesis by fastforce
        qed
      qed
    qed
  next
    case (PcDraining c)
    show ?thesis
    proof (cases "gs_ctx s c")
      case None
      then have "grpc_event_step (EvCtxDone c (Std ContextDeadlineExceeded)) s \<noteq> None" by simp
      moreover have "grpc_promised s (EvCtxDone c (Std ContextDeadlineExceeded))" using PcDraining by auto
      ultimately show ?thesis by blast
    next
      case (Some e)
      then have "grpc_event_step (EvSelectExpired i) s \<noteq> None" using PcDraining by simp
      then show ?thesis using grpc_promised.simps(3) by blast
    qed
  next
    case (PcAwaitGraceful e)
    have "grpc_event_step (EvRun i) s \<noteq> None \<or> grpc_event_step (EvGracefulCall i) s \<noteq> None \<or>
      grpc_event_step (EvGracefulReturn i) s \<noteq> None \<and> CallStop \<in> set (gs_calls s)"
      using PcAwaitGraceful ok by (cases "gs_graceful s i") (auto simp: grpc_run_def)
    then show ?thesis by (metis grpc_promised.simps(1,4,7) not_Some_eq)
  next
    case (PcInStop e b)
    then have "grpc_event_step (EvStopReturns i) s \<noteq> None" by simp
    then show ?thesis by (metis grpc_promised.simps(6) not_Some_eq)
  next
    case (PcFinish r)
    then have "grpc_event_step (EvRun i) s \<noteq> None" by (simp add: grpc_run_def split: outcome.splits)
    then show ?thesis by fastforce
  next
    case (PcStopping c)
    then have "grpc_event_step (EvRun i) s \<noteq> None" by (simp add: grpc_run_def split: option.splits)
    then show ?thesis by fastforce
  next
    case (PcDrained c)
    then have "grpc_event_step (EvRun i) s \<noteq> None" by (simp add: grpc_run_def split: option.splits)
    then show ?thesis by fastforce
  qed (use d in auto)
qed

lemma grpc_in_shutdown_enabled:
  assumes inv: "grpc_inv s" and sh: "grpc_in_shutdown (gs_pc s i)"
  shows "\<exists>e t. grpc_event_step e s = Some t \<and> grpc_promised s e"
proof -
  have run: ?thesis if "grpc_event_step (EvRun i) s \<noteq> None" using that by fastforce
  show ?thesis
  proof (cases "gs_pc s i")
    case (PcShutdownCalled c)
    have "grpc_shutdown_enter c (Some (gs_srv s)) \<noteq> Return (ShutdownReturn r, None)" for r
      using grpc_inv_facts(1,2) [OF inv] by (auto simp: grpc_sections split: if_splits grpc_state.splits option.splits)
    moreover have "grpc_shutdown_enter c (Some (gs_srv s)) \<noteq> Return (ShutdownDrain, None)"
      using grpc_inv_facts(1,2) [OF inv] by (auto simp: grpc_sections split: if_splits grpc_state.splits option.splits)
    ultimately have "grpc_event_step (EvRun i) s \<noteq> None"
      using PcShutdownCalled
      by (auto simp: grpc_run_def split: outcome.splits prod.splits shutdown_next.splits option.splits)
    then show ?thesis by (rule run)
  next
    case PcWaitShutdown
    then have "srv_state (gs_srv s) = GRPC_stateStopping \<or> srv_shutdownDone (gs_srv s) = Some ChanClosed"
      using grpc_inv_facts(7) [OF inv, of i] by auto
    then show ?thesis
    proof
      assume "srv_state (gs_srv s) = GRPC_stateStopping"
      then obtain j where "grpc_draining (gs_pc s j)" using inv by (auto simp: grpc_inv_def dest: held_iff_ex)
      then show ?thesis by (rule grpc_draining_enabled [OF inv])
    next
      assume "srv_shutdownDone (gs_srv s) = Some ChanClosed"
      then show ?thesis using PcWaitShutdown by (intro run) (simp add: grpc_run_def)
    qed
  next
    case PcWoken
    then show ?thesis by (intro run) (simp add: grpc_run_def)
  qed (use sh grpc_draining_enabled [OF inv, of i] in auto)
qed

fun grpc_caller :: "grpc_event \<Rightarrow> nat option" where
  "grpc_caller (EvServe i l) = Some i"
| "grpc_caller (EvShutdown i c) = Some i"
| "grpc_caller (EvRun i) = Some i"
| "grpc_caller (EvServeReturns i r) = Some i"
| "grpc_caller (EvStopReturns i) = Some i"
| "grpc_caller (EvListenerClosed i r) = Some i"
| "grpc_caller (EvSelectDrained i) = Some i"
| "grpc_caller (EvSelectExpired i) = Some i"
| "grpc_caller (EvGracefulCall i) = Some i"
| "grpc_caller (EvGracefulReturn i) = Some i"
| "grpc_caller (EvCtxDone c e) = None"
| "grpc_caller (EvRefresh st) = None"

fun grpc_rank :: "grpc_pc \<Rightarrow> nat" where
  "grpc_rank PcIdle = 12"
| "grpc_rank (PcServeCalled l) = 4"
| "grpc_rank (PcServeUnlocked l) = 3"
| "grpc_rank (PcInServe l) = 2"
| "grpc_rank (PcServeExit e) = 1"
| "grpc_rank (PcServeReject l) = 1"
| "grpc_rank (PcServeReturned e) = 0"
| "grpc_rank (PcShutdownCalled c) = 10"
| "grpc_rank (PcStopping c) = 9"
| "grpc_rank (PcDraining c) = 6"
| "grpc_rank (PcDrained c) = 5"
| "grpc_rank (PcInStop e b) = 4"
| "grpc_rank (PcAwaitGraceful e) = 3"
| "grpc_rank (PcAwaitServe r) = 2"
| "grpc_rank (PcFinish r) = 1"
| "grpc_rank PcWaitShutdown = 2"
| "grpc_rank PcWoken = 1"
| "grpc_rank (PcShutdownReturned r) = 0"
| "grpc_rank (PcShutdownRefused e) = 0"
| "grpc_rank (PcPanicked m) = 0"

text \<open>One more while the context that the caller may have to wait for has not ended.\<close>

fun grpc_pending :: "(nat \<Rightarrow> grpc_err option) \<Rightarrow> grpc_pc \<Rightarrow> nat" where
  "grpc_pending ctx (PcShutdownCalled c) = (if ctx (sc_id c) = None then 1 else 0)"
| "grpc_pending ctx (PcStopping c) = (if ctx c = None then 1 else 0)"
| "grpc_pending ctx (PcDraining c) = (if ctx c = None then 1 else 0)"
| "grpc_pending ctx p = 0"

fun graceful_rank :: "graceful_pc \<Rightarrow> nat" where
  "graceful_rank GracefulSpawned = 2"
| "graceful_rank GracefulRunning = 1"
| "graceful_rank _ = 0"

definition grpc_work :: "nat \<Rightarrow> grpc_sys \<Rightarrow> nat" where
  "grpc_work i s = grpc_rank (gs_pc s i) + graceful_rank (gs_graceful s i) + grpc_pending (gs_ctx s) (gs_pc s i)"

lemma grpc_pending_mono: "grpc_pending (ctx(c \<mapsto> e)) p \<le> grpc_pending ctx p"
  by (cases p) auto

lemma grpc_event_work:
  assumes "grpc_event_step e s = Some t"
  shows "grpc_work i t + (if grpc_caller e = Some i then 1 else 0) \<le> grpc_work i s"
proof (cases e)
  case (EvRun j)
  then have "grpc_run j s = Some t" using assms by simp
  then show ?thesis
    using EvRun by (cases "gs_pc s j")
      (auto simp: grpc_run_def grpc_move grpc_work_def
        split: outcome.splits option.splits if_splits prod.splits serve_next.splits shutdown_next.splits)
qed (use assms in \<open>auto simp: grpc_move grpc_work_def grpc_pending_mono split: if_splits grpc_pc.splits option.splits\<close>)

lemma grpc_events_steps: "grpc_events es s = Some t \<Longrightarrow> grpc_trans\<^sup>*\<^sup>* s t"
proof (induction es arbitrary: s)
  case (Cons e es)
  then obtain u where "grpc_event_step e s = Some u" "grpc_events es u = Some t"
    by (auto simp: bind_eq_Some_conv)
  with Cons.IH show ?case by (meson converse_rtranclp_into_rtranclp grpc_trans_def)
qed simp

lemma grpc_events_reach: "grpc_events es grpc_init = Some t \<Longrightarrow> reach (\<lambda>s. s = grpc_init) grpc_trans t"
  by (rule reach_steps [OF reach_init grpc_events_steps]) auto

lemma grpc_events_append: "grpc_events (es @ fs) s = Option.bind (grpc_events es s) (grpc_events fs)"
proof (induction es arbitrary: s)
  case (Cons e es)
  then show ?case by (cases "grpc_event_step e s") auto
qed simp

subsection \<open>Properties of the gRPC lifecycle\<close>

text \<open>Two runs for the witnesses: a graceful drain, and a stop forced by the deadline, with a
  second caller of \<open>Shutdown\<close> that waits.\<close>

definition some_listener :: listener_arg where
  "some_listener = \<lparr>la_value = Dynamic KPointer False, la_id = 0\<rparr>"

definition some_context :: shutdown_ctx where
  "some_context = \<lparr>sc_value = Dynamic KPointer False, sc_bounded = True, sc_id = 0\<rparr>"

definition graceful_run :: "grpc_event list" where
  "graceful_run = [EvServe 0 some_listener, EvRun 0, EvRun 0, EvShutdown 1 some_context, EvRun 1, EvRun 1, EvGracefulCall 1,
     EvServeReturns 0 None, EvRun 0, EvGracefulReturn 1, EvSelectDrained 1, EvRun 1, EvRun 1, EvRun 1]"

definition forced_prefix :: "grpc_event list" where
  "forced_prefix = [EvServe 0 some_listener, EvRun 0, EvRun 0, EvShutdown 1 some_context, EvRun 1, EvShutdown 2 some_context, EvRun 2,
     EvRun 1, EvGracefulCall 1, EvCtxDone 0 (Std ContextDeadlineExceeded), EvSelectExpired 1, EvStopReturns 1]"

definition forced_suffix :: "grpc_event list" where
  "forced_suffix = [EvServeReturns 0 None, EvRun 0, EvGracefulReturn 1, EvRun 1, EvRun 1, EvRun 1, EvRun 2, EvRun 2]"

lemmas grpc_demo = graceful_run_def forced_prefix_def forced_suffix_def some_listener_def some_context_def
  grpc_init_def grpc_new_server_def newHealthBridge_def grpc_run_def grpc_sections grpc_isNilInterface_def
  grpc_move hb_shutdown_def

lemma graceful_run_returns:
  "\<exists>t. grpc_events graceful_run grpc_init = Some t \<and> gs_pc t 1 = PcShutdownReturned None \<and> gs_pc t 0 = PcServeReturned None"
  by (simp add: grpc_demo grpc_serve_result_def)

lemma forced_prefix_waits:
  "\<exists>s. grpc_events forced_prefix grpc_init = Some s \<and> gs_pc s 2 = PcWaitShutdown \<and>
     gs_pc s 1 = PcAwaitGraceful (Std ContextDeadlineExceeded) \<and> CallStop \<in> set (gs_calls s)"
  by (simp add: grpc_demo)

lemma forced_run_returns:
  "\<exists>t. grpc_events (forced_prefix @ forced_suffix) grpc_init = Some t \<and>
     gs_pc t 1 = PcShutdownReturned (Some (Std ContextDeadlineExceeded)) \<and>
     gs_pc t 2 = PcShutdownReturned (Some (Std ContextDeadlineExceeded))"
  by (simp add: grpc_demo)

text \<open>C6: a \<open>Shutdown\<close> that returned has shut everything down: in every interleaving of any
  number of \<open>Serve\<close>, \<open>Shutdown\<close>, refresh, deadline and library events on a server made by
  \<open>New\<close>, once one accepted \<open>Shutdown\<close> call has returned, whatever its result, the state is
  \<open>stateStopped\<close>, no caller is inside \<open>Serve\<close>, the listener is released, no drain goroutine is
  left and the health bridge is shut down.\<close>

theorem grpc_shutdown_complete:
  assumes "reach (\<lambda>s. s = grpc_init) grpc_trans s" and "gs_pc s i = PcShutdownReturned r"
  shows "srv_state (gs_srv s) = GRPC_stateStopped \<and> srv_listener (gs_srv s) = None \<and>
    (\<forall>j l e. gs_pc s j \<noteq> PcServeUnlocked l \<and> gs_pc s j \<noteq> PcInServe l \<and> gs_pc s j \<noteq> PcServeExit e) \<and>
    (\<forall>j. gs_graceful s j = GracefulNone \<or> gs_graceful s j = GracefulDone) \<and>
    (\<exists>b. srv_health (gs_srv s) = Some b \<and> hb_stopped b)"
proof -
  have inv: "grpc_inv s" by (rule grpc_discipline.inv_reach [OF assms(1)])
  note ok = grpc_inv_facts(7) [OF inv]
  have st: "srv_state (gs_srv s) = GRPC_stateStopped" using ok [of i] assms(2) by simp
  have closed: "srv_serveDone (gs_srv s) \<noteq> Some ChanOpen" and "srv_listener (gs_srv s) = None"
    using inv st by (auto simp: grpc_inv_def grpc_srv_ok_def)
  moreover have "\<not> grpc_active (gs_pc s j)" for j using grpc_inv_facts(5) [OF inv, of j] closed by blast
  then have "gs_pc s j \<noteq> PcServeUnlocked l \<and> gs_pc s j \<noteq> PcInServe l \<and> gs_pc s j \<noteq> PcServeExit e" for j l e
    by (metis grpc_active.simps(1-3))
  moreover have "gs_graceful s j = GracefulNone \<or> gs_graceful s j = GracefulDone" for j
    using ok [of j] grpc_inv_facts(6) [OF inv, of j] st by (cases "gs_pc s j") (auto split: if_splits)
  ultimately show ?thesis using st grpc_inv_facts(2) [OF inv] by blast
qed

theorem grpc_shutdown_complete_witness:
  "\<exists>t. grpc_events graceful_run grpc_init = Some t \<and> gs_pc t 1 = PcShutdownReturned None \<and>
     srv_state (gs_srv t) = GRPC_stateStopped \<and> srv_listener (gs_srv t) = None"
  using graceful_run_returns grpc_shutdown_complete [OF grpc_events_reach] by blast

text \<open>No interleaving makes the lifecycle panic: neither an invalid state, nor a closed or
  nil channel closed again, nor a nil health bridge is ever met by a server made by \<open>New\<close>.\<close>

lemma grpc_no_panic:
  assumes "reach (\<lambda>s. s = grpc_init) grpc_trans s"
  shows "gs_pc s i \<noteq> PcPanicked m"
  using grpc_inv_facts(7) [OF grpc_discipline.inv_reach [OF assms], of i] by auto

text \<open>C23: concurrent and later \<open>Shutdown\<close> calls all return the result of the one that drained:
  if an accepted call has returned \<open>r\<close> and an accepted call returns \<open>r'\<close> in any continuation,
  then \<open>r = r'\<close>.\<close>

theorem grpc_shutdown_agreement:
  assumes "reach (\<lambda>s. s = grpc_init) grpc_trans s" and "grpc_events es s = Some t"
    and "gs_pc s i = PcShutdownReturned r" and "gs_pc t j = PcShutdownReturned r'"
  shows "r = r'"
proof -
  have steps: "grpc_trans\<^sup>*\<^sup>* s t" by (rule grpc_events_steps [OF assms(2)])
  have s: "grpc_phase s = Terminated r"
    using grpc_inv_facts(7) [OF grpc_discipline.inv_reach [OF assms(1)], of i] assms(3)
    by (simp add: grpc_phase_def)
  have "grpc_phase t = Terminated r'"
    using grpc_inv_facts(7) [OF grpc_discipline.inv_reach [OF reach_steps [OF assms(1) steps]], of j] assms(4)
    by (simp add: grpc_phase_def)
  with grpc_single_use.terminated_final [OF assms(1) steps s] show ?thesis by simp
qed

theorem grpc_shutdown_agreement_witness:
  "\<exists>t r. grpc_events (forced_prefix @ forced_suffix) grpc_init = Some t \<and>
     gs_pc t 1 = PcShutdownReturned r \<and> gs_pc t 2 = PcShutdownReturned r"
proof -
  obtain t where t: "grpc_events (forced_prefix @ forced_suffix) grpc_init = Some t"
    "gs_pc t 1 = PcShutdownReturned (Some (Std ContextDeadlineExceeded))"
    and u: "gs_pc t 2 = PcShutdownReturned (Some (Std ContextDeadlineExceeded))"
    using forced_run_returns by blast
  obtain r where r: "gs_pc t 2 = PcShutdownReturned r" using u by blast
  have "grpc_events [] t = Some t" by simp
  from grpc_shutdown_agreement [OF grpc_events_reach [OF t(1)] this t(2) r]
  have "r = Some (Std ContextDeadlineExceeded)" by simp
  with t r show ?thesis by blast
qed

text \<open>C19: \<open>NOT_SERVING\<close> is published before anything is torn down: in every reachable state in
  which \<open>GracefulStop\<close> or \<open>Stop\<close> has been called, the health service already reports
  \<open>NOT_SERVING\<close> and no later refresh can change that.\<close>

theorem grpc_not_serving_before_stop:
  assumes "reach (\<lambda>s. s = grpc_init) grpc_trans s"
    and "CallGracefulStop \<in> set (gs_calls s) \<or> CallStop \<in> set (gs_calls s)"
    and "health_service_contract status"
  shows "\<exists>b. srv_health (gs_srv s) = Some b \<and> status (hb_calls b) = NOT_SERVING \<and>
           (\<forall>st. refresh_publish st b = b)"
proof -
  have inv: "grpc_inv s" by (rule grpc_discipline.inv_reach [OF assms(1)])
  have "srv_state (gs_srv s) = GRPC_stateStopping \<or> srv_state (gs_srv s) = GRPC_stateStopped"
    using inv assms(2) by (cases "srv_state (gs_srv s)") (auto simp: grpc_inv_def grpc_srv_ok_def)
  with grpc_inv_facts(2) [OF inv] obtain b where b: "srv_health (gs_srv s) = Some b" "hb_wf b" "hb_stopped b"
    by blast
  with status_of_wf [OF assms(3) b(2), of SERVING] show ?thesis by simp
qed

theorem grpc_not_serving_before_stop_witness:
  "\<exists>s b. grpc_events forced_prefix grpc_init = Some s \<and> srv_health (gs_srv s) = Some b \<and>
     last_status (hb_calls b) = NOT_SERVING"
  using forced_prefix_waits grpc_not_serving_before_stop [OF grpc_events_reach _ last_status_contract] by blast

text \<open>C20: a shutdown never hangs: in every reachable state with a caller inside \<open>Shutdown\<close>,
  waiting or draining, some step that the code itself or its documented environment owes
  (\<open>grpc_promised\<close>: a section of the code, the deadline, \<open>Serve\<close> returning once stopped,
  \<open>GracefulStop\<close> returning once \<open>Stop\<close> was called) is enabled.\<close>

theorem grpc_shutdown_progress:
  assumes "reach (\<lambda>s. s = grpc_init) grpc_trans s" and "grpc_in_shutdown (gs_pc s i)"
  shows "\<exists>e t. grpc_event_step e s = Some t \<and> grpc_promised s e"
  by (rule grpc_in_shutdown_enabled [OF grpc_discipline.inv_reach [OF assms(1)] assms(2)])

theorem grpc_shutdown_progress_witness:
  "\<exists>s e t. grpc_events forced_prefix grpc_init = Some s \<and> gs_pc s 2 = PcWaitShutdown \<and>
     grpc_event_step e s = Some t \<and> grpc_promised s e"
  using forced_prefix_waits grpc_shutdown_progress [OF grpc_events_reach, of _ _ 2] by fastforce

text \<open>
  Termination: an owed step uses up the work of the caller that takes it, or of the caller
  whose context ends, and gives work to nobody; so the sum over the callers there are goes
  down.
\<close>

definition grpc_owed :: "grpc_sys \<Rightarrow> grpc_sys \<Rightarrow> bool" where
  "grpc_owed s t \<longleftrightarrow> (\<exists>e. grpc_promised s e \<and> grpc_event_step e s = Some t)"

definition grpc_callers :: "grpc_sys \<Rightarrow> nat set" where
  "grpc_callers s = {i. gs_pc s i \<noteq> PcIdle}"

definition grpc_total :: "grpc_sys \<Rightarrow> nat" where
  "grpc_total s = (\<Sum>i\<in>grpc_callers s. grpc_work i s)"

lemma grpc_event_pc:
  assumes "grpc_event_step e s = Some t"
  shows "\<exists>i p. gs_pc t = (gs_pc s)(i := p)"
proof (cases "\<exists>i. e = EvRun i")
  case True
  then obtain i where "grpc_run i s = Some t" using assms by auto
  then have "\<exists>p. gs_pc t = (gs_pc s)(i := p)"
    by (cases "gs_pc s i") (auto simp: grpc_run_def grpc_move
        split: outcome.splits prod.splits serve_next.splits shutdown_next.splits option.splits if_splits)
  then show ?thesis by blast
next
  case False
  then show ?thesis using grpc_event_quiet [OF assms] by blast
qed

lemma grpc_owed_callers:
  assumes inv: "grpc_inv s" and "grpc_owed s t"
  shows "grpc_callers t = grpc_callers s"
    and "\<exists>i \<in> grpc_callers s. grpc_work i t < grpc_work i s" and "grpc_work j t \<le> grpc_work j s"
proof -
  from assms(2) obtain e where p: "grpc_promised s e" and e: "grpc_event_step e s = Some t" by (auto simp: grpc_owed_def)
  show le: "grpc_work j t \<le> grpc_work j s" for j using grpc_event_work [OF e, of j] by simp
  have busy: "gs_pc s i \<noteq> PcIdle" if "gs_graceful s i \<noteq> GracefulNone" for i
    using grpc_inv_facts(7) [OF inv, of i] that by auto
  have "gs_pc t i = PcIdle \<longleftrightarrow> gs_pc s i = PcIdle" for i
  proof (cases e)
    case (EvRun j)
    then have "grpc_run j s = Some t" using e by simp
    then show ?thesis
      by (cases "gs_pc s j") (auto simp: grpc_run_def grpc_move
          split: outcome.splits prod.splits serve_next.splits shutdown_next.splits option.splits if_splits)
  qed (use e p in \<open>auto simp: grpc_move split: if_splits grpc_pc.splits option.splits\<close>)
  then show "grpc_callers t = grpc_callers s" by (simp add: grpc_callers_def)
  show "\<exists>i \<in> grpc_callers s. grpc_work i t < grpc_work i s"
  proof (cases "grpc_caller e")
    case (Some i)
    then have "grpc_work i t < grpc_work i s" using grpc_event_work [OF e, of i] by simp
    moreover have "gs_pc s i \<noteq> PcIdle"
      using Some e p busy [of i] by (cases e) (auto simp: grpc_run_def split: if_splits)
    ultimately show ?thesis by (auto simp: grpc_callers_def)
  next
    case None
    then obtain c x where x: "e = EvCtxDone c x" using p by (cases e) auto
    then obtain i where i: "gs_pc s i = PcDraining c" using p by auto
    then have "grpc_work i t < grpc_work i s" using e x by (auto simp: grpc_work_def split: if_splits)
    then show ?thesis using i by (intro bexI [of _ i]) (auto simp: grpc_callers_def)
  qed
qed

definition grpc_finite_inv :: "grpc_sys \<Rightarrow> bool" where
  "grpc_finite_inv s \<longleftrightarrow> grpc_inv s \<and> finite (grpc_callers s)"

interpretation grpc_finite: inductive_invariant "\<lambda>s. s = grpc_init" grpc_trans grpc_finite_inv
proof
  show "s = grpc_init \<Longrightarrow> grpc_finite_inv s" for s
    using grpc_discipline.inv_init by (simp add: grpc_finite_inv_def) (simp add: grpc_callers_def grpc_init_def)
  show "grpc_finite_inv t" if s: "grpc_finite_inv s" and t: "grpc_trans s t" for s t
  proof -
    obtain i p where "gs_pc t = (gs_pc s)(i := p)" using t grpc_event_pc by (meson grpc_trans_def)
    then have "grpc_callers t \<subseteq> insert i (grpc_callers s)" by (auto simp: grpc_callers_def)
    with s t show ?thesis using grpc_discipline.inv_step by (auto simp: grpc_finite_inv_def intro: finite_subset)
  qed
qed

interpretation grpc_termination: owed_termination grpc_finite_inv grpc_owed grpc_total
  "\<lambda>s. \<exists>i. grpc_in_shutdown (gs_pc s i)"
proof
  fix s t
  assume s: "grpc_finite_inv s" and t: "grpc_owed s t"
  from t have step: "grpc_trans s t" by (auto simp: grpc_owed_def grpc_trans_def)
  show "grpc_finite_inv t" by (rule grpc_finite.inv_step [OF s step])
  from s have inv: "grpc_inv s" and fin: "finite (grpc_callers s)" by (simp_all add: grpc_finite_inv_def)
  show "grpc_total t < grpc_total s"
    unfolding grpc_total_def grpc_owed_callers(1) [OF inv t]
    by (rule sum_strict_mono_ex1 [OF fin]) (use grpc_owed_callers(2,3) [OF inv t] in auto)
next
  fix s
  assume "grpc_finite_inv s" and "\<exists>i. grpc_in_shutdown (gs_pc s i)"
  then obtain i where "grpc_inv s" "grpc_in_shutdown (gs_pc s i)" by (auto simp: grpc_finite_inv_def)
  then show "\<exists>t. grpc_owed s t" using grpc_in_shutdown_enabled unfolding grpc_owed_def by blast
qed

fun grpc_shutdown_done :: "grpc_pc \<Rightarrow> bool" where
  "grpc_shutdown_done (PcShutdownReturned r) \<longleftrightarrow> True"
| "grpc_shutdown_done (PcShutdownRefused e) \<longleftrightarrow> True"
| "grpc_shutdown_done p \<longleftrightarrow> False"

text \<open>A caller of \<open>Shutdown\<close> stays one until it has returned.\<close>

lemma grpc_stays_in_shutdown:
  assumes inv: "grpc_inv t" and e: "grpc_event_step e s = Some t"
    and i: "grpc_in_shutdown (gs_pc s i) \<or> grpc_shutdown_done (gs_pc s i)"
  shows "grpc_in_shutdown (gs_pc t i) \<or> grpc_shutdown_done (gs_pc t i)"
proof -
  have np: "\<forall>m. gs_pc t i \<noteq> PcPanicked m" using grpc_inv_facts(7) [OF inv, of i] by auto
  show ?thesis
  proof (cases e)
    case (EvRun j)
    then have "grpc_run j s = Some t" using e by simp
    then show ?thesis
      using i np by (cases "gs_pc s j") (auto simp: grpc_run_def grpc_move
          split: outcome.splits prod.splits serve_next.splits shutdown_next.splits option.splits if_splits)
  qed (use e i in \<open>auto simp: grpc_move split: if_splits grpc_pc.splits option.splits\<close>)
qed

lemma grpc_run_stays_in_shutdown:
  assumes "(grpc_owed ^^ n) s t" and "grpc_finite_inv s"
    and "grpc_in_shutdown (gs_pc s i) \<or> grpc_shutdown_done (gs_pc s i)"
  shows "grpc_in_shutdown (gs_pc t i) \<or> grpc_shutdown_done (gs_pc t i)"
  using assms(1)
proof (induction n arbitrary: t)
  case (Suc n)
  then obtain u where u: "(grpc_owed ^^ n) s u" "grpc_owed u t" by auto
  then obtain e where "grpc_event_step e u = Some t" by (auto simp: grpc_owed_def)
  moreover have "grpc_inv t"
    using grpc_termination.run_inv [OF Suc.prems assms(2)] by (simp add: grpc_finite_inv_def)
  ultimately show ?case using grpc_stays_in_shutdown Suc.IH [OF u(1)] by blast
qed (use assms(3) in simp)

text \<open>C21: every \<open>Shutdown\<close> returns: from any reachable state, a run of steps that the code and its
  documented environment owe has at most \<open>grpc_total\<close> steps, it can be completed, and once no
  owed step is left every caller that was inside \<open>Shutdown\<close> has returned, draining or waiting,
  whatever the order of the steps.\<close>

theorem grpc_shutdown_returns:
  assumes "reach (\<lambda>s. s = grpc_init) grpc_trans s" and "(grpc_owed ^^ n) s t"
  shows "n \<le> grpc_total s \<and> (\<exists>m u. (grpc_owed ^^ m) t u \<and> (\<forall>v. \<not> grpc_owed u v)) \<and>
    ((\<forall>v. \<not> grpc_owed t v) \<and> grpc_in_shutdown (gs_pc s i) \<longrightarrow> grpc_shutdown_done (gs_pc t i))"
proof -
  have s: "grpc_finite_inv s" by (rule grpc_finite.inv_reach [OF assms(1)])
  have t: "grpc_finite_inv t" by (rule grpc_termination.run_inv [OF assms(2) s])
  have "n \<le> grpc_total s" using grpc_termination.run_bounded [OF assms(2) s] by simp
  moreover have "grpc_shutdown_done (gs_pc t i)" if "\<forall>v. \<not> grpc_owed t v" "grpc_in_shutdown (gs_pc s i)"
    using grpc_termination.run_final [OF t] grpc_run_stays_in_shutdown [OF assms(2) s, of i] that by blast
  ultimately show ?thesis using grpc_termination.run_completes [OF t] by blast
qed

theorem grpc_shutdown_returns_witness:
  "\<exists>s n t. grpc_events forced_prefix grpc_init = Some s \<and> gs_pc s 2 = PcWaitShutdown \<and>
     (grpc_owed ^^ n) s t \<and> n \<le> grpc_total s \<and> grpc_shutdown_done (gs_pc t 2)"
proof -
  obtain s where s: "grpc_events forced_prefix grpc_init = Some s" "gs_pc s 2 = PcWaitShutdown"
    using forced_prefix_waits by blast
  have "(grpc_owed ^^ 0) s s" by simp
  from grpc_shutdown_returns [OF grpc_events_reach [OF s(1)] this] obtain n t
    where t: "(grpc_owed ^^ n) s t" "\<forall>v. \<not> grpc_owed t v" by blast
  from grpc_shutdown_returns [OF grpc_events_reach [OF s(1)] t(1), of 2] s t show ?thesis
    by (metis grpc_in_shutdown.simps(2))
qed

text \<open>Where an error that \<open>Shutdown\<close> returns comes from.\<close>

fun grpc_pc_err :: "grpc_pc \<Rightarrow> grpc_err option" where
  "grpc_pc_err (PcInStop e b) = Some e"
| "grpc_pc_err (PcAwaitGraceful e) = Some e"
| "grpc_pc_err (PcAwaitServe r) = r"
| "grpc_pc_err (PcFinish r) = r"
| "grpc_pc_err (PcShutdownReturned r) = r"
| "grpc_pc_err _ = None"

definition grpc_errs_ok :: "grpc_sys \<Rightarrow> bool" where
  "grpc_errs_ok s \<longleftrightarrow>
     (\<forall>e. srv_shutdownErr (gs_srv s) = Some e \<or> (\<exists>i. grpc_pc_err (gs_pc s i) = Some e) \<longrightarrow>
        (\<exists>c. gs_ctx s c = Some e))"

lemma grpc_errs_okI:
  assumes "grpc_errs_ok s" and "gs_pc t = (gs_pc s)(i := p)" and "gs_ctx t = gs_ctx s"
    and "\<And>e. grpc_pc_err p = Some e \<Longrightarrow> \<exists>c. gs_ctx s c = Some e"
    and "\<And>e. srv_shutdownErr (gs_srv t) = Some e \<Longrightarrow> \<exists>c. gs_ctx s c = Some e"
  shows "grpc_errs_ok t"
  using assms unfolding grpc_errs_ok_def by (metis fun_upd_other fun_upd_same)

lemma grpc_errs_ok_local:
  assumes "grpc_errs_ok s" and "\<And>j. j \<noteq> i \<Longrightarrow> gs_pc t j = gs_pc s j"
    and "grpc_pc_err (gs_pc t i) = None \<or> grpc_pc_err (gs_pc t i) = grpc_pc_err (gs_pc s i) \<or>
      (\<exists>c. gs_ctx s c = grpc_pc_err (gs_pc t i))"
    and "gs_ctx t = gs_ctx s" and "gs_srv t = gs_srv s"
  shows "grpc_errs_ok t"
proof -
  have p: "gs_pc t = (gs_pc s)(i := gs_pc t i)" using assms(2) by auto
  have e: "srv_shutdownErr (gs_srv s) = Some e \<or> grpc_pc_err (gs_pc s j) = Some e \<Longrightarrow> \<exists>c. gs_ctx s c = Some e" for e j
    using assms(1) by (auto simp: grpc_errs_ok_def)
  show ?thesis
    by (rule grpc_errs_okI [OF assms(1) p assms(4)]) (metis assms(3,5) e option.distinct(1))+
qed

lemma grpc_shutdown_enter_err:
  "grpc_shutdown_enter c (Some v) = Return (n, Some w) \<Longrightarrow> srv_shutdownErr w = srv_shutdownErr v"
  by (auto simp: grpc_sections split: if_splits grpc_state.splits option.splits)

lemma grpc_shutdown_enter_result:
  "grpc_shutdown_enter c (Some v) = Return (ShutdownReturn r, w) \<Longrightarrow>
     \<not> grpc_isNilInterface (sc_value c) \<Longrightarrow> sc_bounded c \<Longrightarrow> r = None \<or> r = srv_shutdownErr v"
  by (auto simp: grpc_sections split: if_splits grpc_state.splits option.splits)

lemma grpc_serve_enter_err:
  "grpc_serve_enter l (Some v) = Return (n, Some w) \<Longrightarrow> srv_shutdownErr w = srv_shutdownErr v"
  by (auto simp: grpc_sections split: if_splits grpc_state.splits option.splits)

lemma grpc_serve_exit_err: "grpc_serve_exit v = Return (b, w) \<Longrightarrow> srv_shutdownErr w = srv_shutdownErr v"
  by (auto simp: grpc_serve_exit_def grpc_health_shutdown_def Let_def split: if_splits option.splits)

lemma grpc_finish_err: "grpc_finishShutdown r v = Return w \<Longrightarrow> srv_shutdownErr w = r"
  by (auto simp: grpc_finishShutdown_def Let_def)

lemma grpc_run_errs:
  assumes inv: "grpc_errs_ok s" and t: "grpc_run i s = Some t"
  shows "grpc_errs_ok t"
proof -
  have shared: "srv_shutdownErr (gs_srv s) = Some e \<Longrightarrow> \<exists>c. gs_ctx s c = Some e"
    and mine: "grpc_pc_err (gs_pc s i) = Some e \<Longrightarrow> \<exists>c. gs_ctx s c = Some e" for e
    using inv by (auto simp: grpc_errs_ok_def)
  show ?thesis
  proof (cases "gs_pc s i")
    case (PcShutdownCalled c)
    then obtain p where p: "gs_pc t = (gs_pc s)(i := p)" "gs_ctx t = gs_ctx s"
        "srv_shutdownErr (gs_srv t) = srv_shutdownErr (gs_srv s)"
        "grpc_pc_err p = None \<or> grpc_pc_err p = srv_shutdownErr (gs_srv s)"
      using t grpc_shutdown_enter_result [of c "gs_srv s"]
      by (auto simp: grpc_run_def grpc_move grpc_shutdown_enter_err
          split: outcome.splits prod.splits shutdown_next.splits option.splits)
    show ?thesis by (rule grpc_errs_okI [OF inv p(1,2)]) (metis p(3,4) shared option.distinct(1))+
  next
    case (PcServeCalled l)
    then obtain p where p: "gs_pc t = (gs_pc s)(i := p)" "gs_ctx t = gs_ctx s"
        "srv_shutdownErr (gs_srv t) = srv_shutdownErr (gs_srv s)" "grpc_pc_err p = None"
      using t by (auto simp: grpc_run_def grpc_move grpc_serve_enter_err
          split: outcome.splits prod.splits serve_next.splits option.splits)
    show ?thesis by (rule grpc_errs_okI [OF inv p(1,2)]) (use p shared in auto)
  next
    case (PcServeExit e)
    then obtain p where p: "gs_pc t = (gs_pc s)(i := p)" "gs_ctx t = gs_ctx s"
        "srv_shutdownErr (gs_srv t) = srv_shutdownErr (gs_srv s)" "grpc_pc_err p = None"
      using t by (auto simp: grpc_run_def grpc_move grpc_serve_exit_err split: outcome.splits prod.splits)
    show ?thesis by (rule grpc_errs_okI [OF inv p(1,2)]) (use p shared in auto)
  next
    case (PcFinish r)
    then obtain p where p: "gs_pc t = (gs_pc s)(i := p)" "gs_ctx t = gs_ctx s"
        "srv_shutdownErr (gs_srv t) = srv_shutdownErr (gs_srv s) \<or> srv_shutdownErr (gs_srv t) = r"
        "grpc_pc_err p = None \<or> grpc_pc_err p = r"
      using t by (auto simp: grpc_run_def grpc_move grpc_finish_err split: outcome.splits)
    have r: "r = Some e \<Longrightarrow> \<exists>c. gs_ctx s c = Some e" for e using mine PcFinish by simp
    show ?thesis by (rule grpc_errs_okI [OF inv p(1,2)]) (metis p(3,4) shared r option.distinct(1))+
  next
    case PcWoken
    have p: "gs_pc t = (gs_pc s)(i := PcShutdownReturned (srv_shutdownErr (gs_srv s)))" "gs_ctx t = gs_ctx s"
        "gs_srv t = gs_srv s" using t PcWoken by (auto simp: grpc_run_def grpc_move)
    show ?thesis by (rule grpc_errs_okI [OF inv p(1,2)]) (use p shared in auto)
  next
    case (PcStopping c)
    then show ?thesis
      using t by (intro grpc_errs_ok_local [OF inv, of i]) (auto simp: grpc_run_def grpc_move split: option.splits)
  next
    case (PcDrained c)
    then show ?thesis
      using t by (intro grpc_errs_ok_local [OF inv, of i]) (auto simp: grpc_run_def grpc_move split: option.splits)
  qed (use t grpc_errs_ok_local [OF inv, of i t] in \<open>auto simp: grpc_run_def grpc_move split: if_splits\<close>)
qed

interpretation grpc_errors: inductive_invariant "\<lambda>s. s = grpc_init" grpc_trans grpc_errs_ok
proof
  show "s = grpc_init \<Longrightarrow> grpc_errs_ok s" for s
    by (simp add: grpc_errs_ok_def grpc_init_def grpc_new_server_def)
  fix s t :: grpc_sys
  assume inv: "grpc_errs_ok s" and "grpc_trans s t"
  then obtain e where e: "grpc_event_step e s = Some t" by (auto simp: grpc_trans_def)
  have shared: "srv_shutdownErr (gs_srv s) = Some e \<Longrightarrow> \<exists>c. gs_ctx s c = Some e"
    and mine: "grpc_pc_err (gs_pc s i) = Some e \<Longrightarrow> \<exists>c. gs_ctx s c = Some e" for e i
    using inv by (auto simp: grpc_errs_ok_def)
  show "grpc_errs_ok t"
  proof (cases e)
    case (EvRun i)
    then show ?thesis using grpc_run_errs [OF inv] e by simp
  next
    case (EvCtxDone c r)
    then have "gs_ctx s d = Some x \<Longrightarrow> gs_ctx t d = Some x" for d x using e by (auto split: if_splits)
    moreover have "gs_pc t = gs_pc s" "gs_srv t = gs_srv s" using EvCtxDone e by (auto split: if_splits)
    ultimately show ?thesis using inv unfolding grpc_errs_ok_def by metis
  next
    case (EvRefresh st)
    then obtain b where "t = s\<lparr>gs_srv := (gs_srv s)\<lparr>srv_health := b\<rparr>\<rparr>" using e by (auto split: option.splits)
    with inv show ?thesis by (simp add: grpc_errs_ok_def)
  next
    case (EvGracefulCall i)
    then have "gs_pc t = gs_pc s" "gs_ctx t = gs_ctx s" "gs_srv t = gs_srv s"
      using e by (auto simp: grpc_move split: if_splits)
    with inv show ?thesis by (simp add: grpc_errs_ok_def)
  next
    case (EvGracefulReturn i)
    then have "gs_pc t = gs_pc s" "gs_ctx t = gs_ctx s" "gs_srv t = gs_srv s"
      using e by (auto simp: grpc_move split: if_splits)
    with inv show ?thesis by (simp add: grpc_errs_ok_def)
  next
    case (EvServe i l)
    then show ?thesis
      using e by (intro grpc_errs_ok_local [OF inv, of i]) (auto simp: grpc_move split: if_splits)
  next
    case (EvShutdown i c)
    then show ?thesis
      using e by (intro grpc_errs_ok_local [OF inv, of i]) (auto simp: grpc_move split: if_splits)
  next
    case (EvServeReturns i r)
    then show ?thesis
      using e by (intro grpc_errs_ok_local [OF inv, of i]) (auto simp: grpc_move split: grpc_pc.splits)
  next
    case (EvStopReturns i)
    then show ?thesis
      using e by (intro grpc_errs_ok_local [OF inv, of i]) (auto simp: grpc_move split: grpc_pc.splits if_splits)
  next
    case (EvListenerClosed i r)
    then show ?thesis
      using e by (intro grpc_errs_ok_local [OF inv, of i]) (auto simp: grpc_move split: grpc_pc.splits)
  next
    case (EvSelectDrained i)
    then show ?thesis
      using e by (intro grpc_errs_ok_local [OF inv, of i]) (auto simp: grpc_move split: grpc_pc.splits if_splits)
  next
    case (EvSelectExpired i)
    then show ?thesis
      using e by (intro grpc_errs_ok_local [OF inv, of i])
        (auto simp: grpc_move split: grpc_pc.splits option.splits)
  qed
qed

text \<open>C25: what a \<open>Shutdown\<close> result means: an accepted call returns an error exactly when the
  library's \<open>Stop\<close> was called, and then it is the \<open>Err\<close> of some caller's context; it returns
  nil exactly when no stop was forced.\<close>

theorem grpc_forced_stop:
  assumes "reach (\<lambda>s. s = grpc_init) grpc_trans s" and "gs_pc s i = PcShutdownReturned r"
  shows "(r \<noteq> None \<longleftrightarrow> CallStop \<in> set (gs_calls s)) \<and> (\<exists>c. r = None \<or> r = gs_ctx s c)"
proof -
  have inv: "grpc_inv s" by (rule grpc_discipline.inv_reach [OF assms(1)])
  have "srv_state (gs_srv s) = GRPC_stateStopped" "srv_shutdownErr (gs_srv s) = r"
    using grpc_inv_facts(7) [OF inv, of i] assms(2) by simp_all
  then have "r \<noteq> None \<longleftrightarrow> CallStop \<in> set (gs_calls s)" using inv by (simp add: grpc_inv_def grpc_srv_ok_def)
  moreover have "\<exists>c. r = None \<or> r = gs_ctx s c"
    using grpc_errors.inv_reach [OF assms(1)] \<open>srv_shutdownErr (gs_srv s) = r\<close>
    unfolding grpc_errs_ok_def by (metis option.exhaust)
  ultimately show ?thesis by blast
qed

theorem grpc_forced_stop_witness:
  "\<exists>t. grpc_events (forced_prefix @ forced_suffix) grpc_init = Some t \<and> CallStop \<in> set (gs_calls t) \<and>
     gs_pc t 2 = PcShutdownReturned (Some (Std ContextDeadlineExceeded))"
  using forced_run_returns grpc_forced_stop [OF grpc_events_reach] by blast

text \<open>The library's \<open>Serve\<close> is called at most once in any run, by the caller that has taken the
  server, and never while the server is untouched.\<close>

lemma grpc_serve_at_most_once:
  assumes "reach (\<lambda>s. s = grpc_init) grpc_trans s"
  shows "count_list (gs_calls s) CallServe \<le> 1"
    and "srv_serveDone (gs_srv s) = None \<Longrightarrow> count_list (gs_calls s) CallServe = 0"
  using grpc_calling.inv_reach [OF assms] by (auto simp: grpc_calls_ok_def)

text \<open>A \<open>Server\<close> that was not made by \<open>New\<close> panics at every entry point, its state untouched.\<close>

lemma grpc_zero_server_panics:
  assumes "srv = None \<or> srv = Some grpc_zero_server"
  shows "grpc_serve_enter some_listener srv = Panic ''grpcserver: Server must be created with New''"
    and "grpc_shutdown_enter some_context srv = Panic ''grpcserver: Server must be created with New''"
    and "grpc_RefreshHealth srv t = Panic ''grpcserver: Server must be created with New''"
  using assms by (auto simp: grpc_serve_enter_def grpc_shutdown_enter_def grpc_RefreshHealth_def grpc_mustServer_def
      grpc_zero_server_def grpc_isNilInterface_def some_listener_def some_context_def)

end
