(* ===== verification/Http_Lifecycle.thy ===== *)
theory Http_Lifecycle
  imports Http_Config Lifecycle
begin

section \<open>HTTP server lifecycle (httpserver/server.go)\<close>

text \<open>
  The \<open>Server\<close> of the HTTP adapter with its \<open>Serve\<close> and \<open>Shutdown\<close>, as sections of code that
  any number of callers interleave (see \<open>Grpc_Lifecycle\<close> for the same construction). What
  differs from the gRPC adapter: a state between the call of \<open>Serve\<close> and Fiber's readiness to
  accept, left by the \<open>BeforeServeFunc\<close> hook that Fiber runs inside \<open>Listener\<close>; a shutdown that
  meets that state closes the listener itself; and a shutdown waits for \<open>Serve\<close> only until its
  context is done.

  Fiber and the listener are library code: \<open>hy_calls\<close> records the calls into them and the
  hook's answers, and their returns are events with arbitrary errors. Fiber runs the hook at
  most once in a \<open>Listener\<close> call.
\<close>

definition http_isNilInterface :: "interface_value \<Rightarrow> bool" where
  "http_isNilInterface v =
     (case v of
        NilInterface \<Rightarrow> True
      | Dynamic k isnil \<Rightarrow>
          (if k \<in> {KChan, KFunc, KInterface, KMap, KPointer, KSlice} then isnil else False))"

text \<open>\<open>HTTP_stateInvalid\<close> stands for the values of the \<open>uint8\<close> that no constant names.\<close>

datatype http_state = HTTP_stateIdle | HTTP_stateStarting | HTTP_stateServing | HTTP_stateStopping
  | HTTP_stateStopped | HTTP_stateInvalid "8 word"

type_synonym http_err = "http_error go_error"

record HttpServer =
  app_set :: bool
  app_state :: http_state
  app_listener :: "listener_arg option"
  app_serveDone :: "chan option"
  app_shutdownDone :: "chan option"
  app_shutdownErr :: "http_err option"

definition http_new_server :: HttpServer where
  "http_new_server = \<lparr>app_set = True, app_state = HTTP_stateIdle, app_listener = None,
     app_serveDone = None, app_shutdownDone = None, app_shutdownErr = None\<rparr>"

definition http_zero_server :: HttpServer where
  "http_zero_server = http_new_server\<lparr>app_set := False\<rparr>"

definition http_mustApp :: "HttpServer option \<Rightarrow> unit outcome" where
  "http_mustApp s =
     (case s of
        None \<Rightarrow> Panic ''httpserver: Server must be created with New''
      | Some srv \<Rightarrow> (if \<not> app_set srv then Panic ''httpserver: Server must be created with New'' else Return ()))"

subsection \<open>The sections of Serve\<close>

datatype http_serve_next = HttpListen | HttpServeReturn http_err

definition http_serve_enter :: "listener_arg \<Rightarrow> HttpServer \<Rightarrow> (http_serve_next \<times> HttpServer) outcome" where
  "http_serve_enter listener s =
     (if http_isNilInterface (la_value listener) then Return (HttpServeReturn (Sentinel HTTP_ErrNilListener), s)
      else case app_state s of
          HTTP_stateIdle \<Rightarrow>
            Return (HttpListen, s\<lparr>app_state := HTTP_stateStarting, app_listener := Some listener,
              app_serveDone := Some ChanOpen, app_shutdownDone := Some ChanOpen\<rparr>)
        | HTTP_stateStarting \<Rightarrow> Return (HttpServeReturn (Sentinel HTTP_ErrServerAlreadyServing), s)
        | HTTP_stateServing \<Rightarrow> Return (HttpServeReturn (Sentinel HTTP_ErrServerAlreadyServing), s)
        | HTTP_stateStopping \<Rightarrow> Return (HttpServeReturn (Sentinel HTTP_ErrServerStopped), s)
        | HTTP_stateStopped \<Rightarrow> Return (HttpServeReturn (Sentinel HTTP_ErrServerStopped), s)
        | HTTP_stateInvalid n \<Rightarrow> Panic ''httpserver: invalid lifecycle state'')"

fun http_state_number :: "http_state \<Rightarrow> int" where
  "http_state_number HTTP_stateIdle = 0"
| "http_state_number HTTP_stateStarting = 1"
| "http_state_number HTTP_stateServing = 2"
| "http_state_number HTTP_stateStopping = 3"
| "http_state_number HTTP_stateStopped = 4"
| "http_state_number (HTTP_stateInvalid n) = uint n"

text \<open>The hook: its error (nil to go on) and the state it leaves.\<close>

definition http_before_serve :: "HttpServer \<Rightarrow> http_err option \<times> HttpServer" where
  "http_before_serve s =
     (case app_state s of
        HTTP_stateStarting \<Rightarrow> (None, s\<lparr>app_state := HTTP_stateServing\<rparr>)
      | HTTP_stateStopping \<Rightarrow> (Some (Sentinel HTTP_ErrServerStopped), s)
      | HTTP_stateStopped \<Rightarrow> (Some (Sentinel HTTP_ErrServerStopped), s)
      | st \<Rightarrow> (Some (Errorf ''%w: unexpected lifecycle state %d'' [FmtInt (http_state_number st)]
                 (Sentinel HTTP_ErrServerStopped)), s))"

definition http_serve_exit :: "HttpServer \<Rightarrow> (bool \<times> HttpServer) outcome" where
  "http_serve_exit s =
     (let stopping = (app_state s = HTTP_stateStopping \<or> app_state s = HTTP_stateStopped) in
      and_then (close_chan (app_serveDone s)) (\<lambda>sd.
        let s1 = s\<lparr>app_listener := None, app_serveDone := sd\<rparr> in
        if app_state s1 = HTTP_stateStarting \<or> app_state s1 = HTTP_stateServing then
          and_then (close_chan (app_shutdownDone s1)) (\<lambda>dd.
            Return (stopping, s1\<lparr>app_state := HTTP_stateStopped, app_shutdownDone := dd\<rparr>))
        else Return (stopping, s1)))"

definition http_serve_result :: "bool \<Rightarrow> http_err option \<Rightarrow> http_err option" where
  "http_serve_result stopping err =
     (if stopping \<and> (err = None \<or> errors_is err (Std NetErrClosed) \<or>
          errors_is err (Sentinel HTTP_ErrServerStopped)) then None else err)"

subsection \<open>The sections of Shutdown\<close>

text \<open>\<open>HttpAbort\<close> carries the listener read under the mutex, which is what \<open>Close\<close> is called on.\<close>

datatype http_shutdown_next = HttpShutdownReturn "http_err option" | HttpWait
  | HttpAbort "listener_arg option" | HttpDrain

definition http_shutdown_enter :: "shutdown_ctx \<Rightarrow> HttpServer option \<Rightarrow> (http_shutdown_next \<times> HttpServer option) outcome" where
  "http_shutdown_enter ctx s =
     (if http_isNilInterface (sc_value ctx)
      then Return (HttpShutdownReturn (Some (Sentinel HTTP_ErrNilShutdownContext)), s)
      else if \<not> sc_bounded ctx
      then Return (HttpShutdownReturn (Some (Sentinel HTTP_ErrUnboundedShutdownContext)), s)
      else and_then (http_mustApp s) (\<lambda>_.
        let srv = the s in
        case app_state srv of
          HTTP_stateIdle \<Rightarrow> Return (HttpShutdownReturn None, Some (srv\<lparr>app_state := HTTP_stateStopped\<rparr>))
        | HTTP_stateStopped \<Rightarrow> Return (HttpShutdownReturn (app_shutdownErr srv), Some srv)
        | HTTP_stateStopping \<Rightarrow> Return (HttpWait, Some srv)
        | HTTP_stateStarting \<Rightarrow>
            Return (HttpAbort (app_listener srv), Some (srv\<lparr>app_state := HTTP_stateStopping\<rparr>))
        | HTTP_stateServing \<Rightarrow> Return (HttpDrain, Some (srv\<lparr>app_state := HTTP_stateStopping\<rparr>))
        | HTTP_stateInvalid n \<Rightarrow> Panic ''httpserver: invalid lifecycle state''))"

text \<open>The errors of \<open>listener.Close\<close> and \<open>ShutdownWithContext\<close> that count as success.\<close>

definition http_close_err :: "http_err option \<Rightarrow> http_err option" where
  "http_close_err closeErr = (if errors_is closeErr (Std NetErrClosed) then None else closeErr)"

definition http_drain_err :: "http_err option \<Rightarrow> http_err option" where
  "http_drain_err shutdownErr =
     (if errors_is shutdownErr (Std FiberErrNotRunning) \<or> errors_is shutdownErr (Std NetErrClosed)
      then None else shutdownErr)"

definition http_finishShutdown :: "http_err option \<Rightarrow> HttpServer \<Rightarrow> HttpServer outcome" where
  "http_finishShutdown err s =
     (let s1 = s\<lparr>app_shutdownErr := err, app_state := HTTP_stateStopped\<rparr> in
      and_then (close_chan (app_shutdownDone s1)) (\<lambda>dd. Return (s1\<lparr>app_shutdownDone := dd\<rparr>)))"

subsection \<open>Callers and their interleavings\<close>

text \<open>
  \<open>HpMustApp\<close> is between the first unlock of \<open>Serve\<close> and the call of Fiber; \<open>HpStarting\<close>,
  \<open>HpServing\<close> and \<open>HpRefused\<close> are inside \<open>Listener\<close> before the hook, after it agreed and after
  it refused. \<open>HpAbort\<close> and \<open>HpDrain\<close> are inside \<open>listener.Close\<close> and \<open>ShutdownWithContext\<close>,
  \<open>HpAwait\<close> in the \<open>select\<close> of \<open>waitForServeExit\<close>.
\<close>

datatype http_pc =
    HpIdle
  | HpServeCalled listener_arg
  | HpMustApp listener_arg
  | HpStarting listener_arg
  | HpServing listener_arg
  | HpRefused listener_arg http_err
  | HpServeExit "http_err option"
  | HpServeReturned "http_err option"
  | HpShutdownCalled shutdown_ctx
  | HpAbort nat listener_arg
  | HpDrain nat
  | HpAwait nat "http_err option"
  | HpFinish "http_err option"
  | HpWait
  | HpWoken
  | HpShutdownReturned "http_err option"
  | HpShutdownRefused http_err
  | HpPanicked string

datatype http_call = CallListen | HookAccepted | HookRefused http_err | CallListenerClose nat | CallAppShutdown nat

record http_sys =
  hy_srv :: HttpServer
  hy_pc :: "nat \<Rightarrow> http_pc"
  hy_ctx :: "nat \<Rightarrow> http_err option"
  hy_calls :: "http_call list"

datatype http_event =
    HEvServe nat listener_arg
  | HEvShutdown nat shutdown_ctx
  | HEvRun nat
  | HEvHook nat
  | HEvListenReturns nat "http_err option"
  | HEvListenerClosed nat "http_err option"
  | HEvDrainReturns nat "http_err option"
  | HEvServeGone nat
  | HEvExpired nat
  | HEvCtxDone nat http_err

definition http_init :: http_sys where
  "http_init = \<lparr>hy_srv = http_new_server, hy_pc = (\<lambda>_. HpIdle), hy_ctx = (\<lambda>_. None), hy_calls = []\<rparr>"

definition http_goto :: "nat \<Rightarrow> http_pc \<Rightarrow> http_sys \<Rightarrow> http_sys" where
  "http_goto i p s = s\<lparr>hy_pc := (hy_pc s)(i := p)\<rparr>"

definition http_log :: "http_call \<Rightarrow> http_sys \<Rightarrow> http_sys" where
  "http_log c s = s\<lparr>hy_calls := hy_calls s @ [c]\<rparr>"

text \<open>One section of the caller's own code; \<open>None\<close> where it waits.\<close>

definition http_run :: "nat \<Rightarrow> http_sys \<Rightarrow> http_sys option" where
  "http_run i s =
     (case hy_pc s i of
        HpServeCalled l \<Rightarrow>
          (case http_serve_enter l (hy_srv s) of
             Return (HttpListen, srv) \<Rightarrow> Some (http_goto i (HpMustApp l) (s\<lparr>hy_srv := srv\<rparr>))
           | Return (HttpServeReturn e, srv) \<Rightarrow> Some (http_goto i (HpServeReturned (Some e)) (s\<lparr>hy_srv := srv\<rparr>))
           | Panic m \<Rightarrow> Some (http_goto i (HpPanicked m) s))
      | HpMustApp l \<Rightarrow>
          (case http_mustApp (Some (hy_srv s)) of
             Return _ \<Rightarrow> Some (http_log CallListen (http_goto i (HpStarting l) s))
           | Panic m \<Rightarrow> Some (http_goto i (HpPanicked m) s))
      | HpServeExit err \<Rightarrow>
          (case http_serve_exit (hy_srv s) of
             Return (stopping, srv) \<Rightarrow>
               Some (http_goto i (HpServeReturned (http_serve_result stopping err)) (s\<lparr>hy_srv := srv\<rparr>))
           | Panic m \<Rightarrow> Some (http_goto i (HpPanicked m) s))
      | HpShutdownCalled c \<Rightarrow>
          (case http_shutdown_enter c (Some (hy_srv s)) of
             Return (HttpShutdownReturn r, Some srv) \<Rightarrow>
               Some (http_goto i
                 (if http_isNilInterface (sc_value c) \<or> \<not> sc_bounded c then HpShutdownRefused (the r)
                  else HpShutdownReturned r) (s\<lparr>hy_srv := srv\<rparr>))
           | Return (HttpWait, Some srv) \<Rightarrow> Some (http_goto i HpWait (s\<lparr>hy_srv := srv\<rparr>))
           | Return (HttpAbort (Some l), Some srv) \<Rightarrow>
               Some (http_log (CallListenerClose (la_id l)) (http_goto i (HpAbort (sc_id c) l) (s\<lparr>hy_srv := srv\<rparr>)))
           | Return (HttpAbort None, Some srv) \<Rightarrow>
               Some (http_goto i (HpPanicked ''nil pointer dereference'') (s\<lparr>hy_srv := srv\<rparr>))
           | Return (HttpDrain, Some srv) \<Rightarrow>
               Some (http_log (CallAppShutdown (sc_id c)) (http_goto i (HpDrain (sc_id c)) (s\<lparr>hy_srv := srv\<rparr>)))
           | Return (_, None) \<Rightarrow> None
           | Panic m \<Rightarrow> Some (http_goto i (HpPanicked m) s))
      | HpFinish r \<Rightarrow>
          (case http_finishShutdown r (hy_srv s) of
             Return srv \<Rightarrow> Some (http_goto i (HpShutdownReturned r) (s\<lparr>hy_srv := srv\<rparr>))
           | Panic m \<Rightarrow> Some (http_goto i (HpPanicked m) s))
      | HpWait \<Rightarrow>
          (if app_shutdownDone (hy_srv s) = Some ChanClosed then Some (http_goto i HpWoken s) else None)
      | HpWoken \<Rightarrow> Some (http_goto i (HpShutdownReturned (app_shutdownErr (hy_srv s))) s)
      | _ \<Rightarrow> None)"

fun http_event_step :: "http_event \<Rightarrow> http_sys \<Rightarrow> http_sys option" where
  "http_event_step (HEvServe i l) s =
     (if hy_pc s i = HpIdle then Some (http_goto i (HpServeCalled l) s) else None)"
| "http_event_step (HEvShutdown i c) s =
     (if hy_pc s i = HpIdle then Some (http_goto i (HpShutdownCalled c) s) else None)"
| "http_event_step (HEvRun i) s = http_run i s"
| "http_event_step (HEvHook i) s =
     (case hy_pc s i of
        HpStarting l \<Rightarrow>
          (case http_before_serve (hy_srv s) of
             (None, srv) \<Rightarrow> Some (http_log HookAccepted (http_goto i (HpServing l) (s\<lparr>hy_srv := srv\<rparr>)))
           | (Some e, srv) \<Rightarrow> Some (http_log (HookRefused e) (http_goto i (HpRefused l e) (s\<lparr>hy_srv := srv\<rparr>))))
      | _ \<Rightarrow> None)"
| "http_event_step (HEvListenReturns i err) s =
     (case hy_pc s i of
        HpStarting l \<Rightarrow> Some (http_goto i (HpServeExit err) s)
      | HpServing l \<Rightarrow> Some (http_goto i (HpServeExit err) s)
      | HpRefused l e \<Rightarrow> Some (http_goto i (HpServeExit err) s)
      | _ \<Rightarrow> None)"
| "http_event_step (HEvListenerClosed i err) s =
     (case hy_pc s i of
        HpAbort c l \<Rightarrow> Some (http_goto i (HpAwait c (http_close_err err)) s)
      | _ \<Rightarrow> None)"
| "http_event_step (HEvDrainReturns i err) s =
     (case hy_pc s i of
        HpDrain c \<Rightarrow> Some (http_goto i (HpAwait c (http_drain_err err)) s)
      | _ \<Rightarrow> None)"
| "http_event_step (HEvServeGone i) s =
     (case hy_pc s i of
        HpAwait c e \<Rightarrow>
          (if app_serveDone (hy_srv s) = Some ChanClosed
           then Some (http_goto i (HpFinish (errors_join [e, None])) s) else None)
      | _ \<Rightarrow> None)"
| "http_event_step (HEvExpired i) s =
     (case hy_pc s i of
        HpAwait c e \<Rightarrow>
          (case hy_ctx s c of
             Some x \<Rightarrow> Some (http_goto i (HpFinish (errors_join [e, Some x])) s)
           | None \<Rightarrow> None)
      | _ \<Rightarrow> None)"
| "http_event_step (HEvCtxDone c e) s =
     (if hy_ctx s c = None then Some (s\<lparr>hy_ctx := (hy_ctx s)(c := Some e)\<rparr>) else None)"

definition http_trans :: "http_sys \<Rightarrow> http_sys \<Rightarrow> bool" where
  "http_trans s t \<longleftrightarrow> (\<exists>e. http_event_step e s = Some t)"

fun http_events :: "http_event list \<Rightarrow> http_sys \<Rightarrow> http_sys option" where
  "http_events [] s = Some s"
| "http_events (e # es) s = Option.bind (http_event_step e s) (http_events es)"

subsection \<open>The invariant\<close>

fun http_active :: "http_pc \<Rightarrow> bool" where
  "http_active (HpMustApp l) \<longleftrightarrow> True"
| "http_active (HpStarting l) \<longleftrightarrow> True"
| "http_active (HpServing l) \<longleftrightarrow> True"
| "http_active (HpRefused l e) \<longleftrightarrow> True"
| "http_active (HpServeExit e) \<longleftrightarrow> True"
| "http_active _ \<longleftrightarrow> False"

fun http_draining :: "http_pc \<Rightarrow> bool" where
  "http_draining (HpAbort c l) \<longleftrightarrow> True"
| "http_draining (HpDrain c) \<longleftrightarrow> True"
| "http_draining (HpAwait c e) \<longleftrightarrow> True"
| "http_draining (HpFinish r) \<longleftrightarrow> True"
| "http_draining _ \<longleftrightarrow> False"

fun http_chans_ok :: "http_state \<Rightarrow> chan option \<Rightarrow> chan option \<Rightarrow> http_err option \<Rightarrow> bool" where
  "http_chans_ok HTTP_stateIdle sd dd e \<longleftrightarrow> sd = None \<and> dd = None \<and> e = None"
| "http_chans_ok HTTP_stateStarting sd dd e \<longleftrightarrow> sd = Some ChanOpen \<and> dd = Some ChanOpen \<and> e = None"
| "http_chans_ok HTTP_stateServing sd dd e \<longleftrightarrow> sd = Some ChanOpen \<and> dd = Some ChanOpen \<and> e = None"
| "http_chans_ok HTTP_stateStopping sd dd e \<longleftrightarrow> sd \<noteq> None \<and> dd = Some ChanOpen \<and> e = None"
| "http_chans_ok HTTP_stateStopped sd dd e \<longleftrightarrow>
     sd = None \<and> dd = None \<and> e = None \<or>
     sd \<noteq> None \<and> dd = Some ChanClosed \<and> (e = None \<longrightarrow> sd = Some ChanClosed)"
| "http_chans_ok (HTTP_stateInvalid n) sd dd e \<longleftrightarrow> False"

definition http_srv_ok :: "HttpServer \<Rightarrow> bool" where
  "http_srv_ok v \<longleftrightarrow>
     app_set v \<and>
     http_chans_ok (app_state v) (app_serveDone v) (app_shutdownDone v) (app_shutdownErr v) \<and>
     (app_listener v \<noteq> None \<longleftrightarrow> app_serveDone v = Some ChanOpen)"

fun http_pc_ok :: "HttpServer \<Rightarrow> bool \<Rightarrow> http_pc \<Rightarrow> bool" where
  "http_pc_ok v acc (HpMustApp l) \<longleftrightarrow> app_state v \<noteq> HTTP_stateServing \<and> \<not> acc"
| "http_pc_ok v acc (HpStarting l) \<longleftrightarrow> app_state v \<noteq> HTTP_stateServing \<and> \<not> acc"
| "http_pc_ok v acc (HpServing l) \<longleftrightarrow> app_state v \<noteq> HTTP_stateStarting"
| "http_pc_ok v acc (HpRefused l e) \<longleftrightarrow>
     (app_state v = HTTP_stateStopping \<or> app_state v = HTTP_stateStopped) \<and> e = Sentinel HTTP_ErrServerStopped"
| "http_pc_ok v acc (HpFinish r) \<longleftrightarrow> (r = None \<longrightarrow> app_serveDone v = Some ChanClosed)"
| "http_pc_ok v acc HpWait \<longleftrightarrow>
     app_state v = HTTP_stateStopping \<or>
     app_state v = HTTP_stateStopped \<and> app_shutdownDone v = Some ChanClosed"
| "http_pc_ok v acc HpWoken \<longleftrightarrow>
     app_state v = HTTP_stateStopped \<and> app_shutdownDone v = Some ChanClosed"
| "http_pc_ok v acc (HpShutdownReturned r) \<longleftrightarrow> app_state v = HTTP_stateStopped \<and> app_shutdownErr v = r"
| "http_pc_ok v acc (HpPanicked m) \<longleftrightarrow> False"
| "http_pc_ok v acc p \<longleftrightarrow> True"

definition http_inv :: "http_sys \<Rightarrow> bool" where
  "http_inv s \<longleftrightarrow>
     http_srv_ok (hy_srv s) \<and>
     held_iff http_active (hy_pc s) (app_serveDone (hy_srv s) = Some ChanOpen) \<and>
     held_iff http_draining (hy_pc s) (app_state (hy_srv s) = HTTP_stateStopping) \<and>
     (app_state (hy_srv s) = HTTP_stateIdle \<or> app_state (hy_srv s) = HTTP_stateStarting \<longrightarrow>
       HookAccepted \<notin> set (hy_calls s)) \<and>
     (\<forall>j. http_pc_ok (hy_srv s) (HookAccepted \<in> set (hy_calls s)) (hy_pc s j))"

lemmas http_move = http_goto_def http_log_def

lemmas http_sections = http_serve_enter_def http_mustApp_def http_serve_exit_def http_shutdown_enter_def
  http_finishShutdown_def http_before_serve_def

text \<open>What another caller knows survives a move of the shared record.\<close>

lemma http_pc_ok_stable:
  assumes "http_pc_ok v acc p"
    and "app_serveDone v = Some ChanClosed \<Longrightarrow> app_serveDone w = Some ChanClosed"
    and "app_state v = HTTP_stateStopped \<Longrightarrow>
      app_state w = HTTP_stateStopped \<and> app_shutdownDone w = app_shutdownDone v \<and> app_shutdownErr w = app_shutdownErr v"
    and "app_state v = HTTP_stateStopping \<Longrightarrow>
      app_state w = HTTP_stateStopping \<or> app_state w = HTTP_stateStopped \<and> app_shutdownDone w = Some ChanClosed"
    and "http_active p \<Longrightarrow> acc' = acc \<and>
      (app_state w = app_state v \<or> app_state w = HTTP_stateStopping \<or> app_state w = HTTP_stateStopped)"
  shows "http_pc_ok w acc' p"
  using assms by (cases p) auto

lemma http_inv_move:
  assumes inv: "http_inv s"
    and t: "hy_srv t = w" "hy_calls t = cs" "hy_pc t = (hy_pc s)(i := p)"
    and srv: "http_srv_ok w"
    and act: "held_iff http_active ((hy_pc s)(i := p)) (app_serveDone w = Some ChanOpen)"
    and drn: "held_iff http_draining ((hy_pc s)(i := p)) (app_state w = HTTP_stateStopping)"
    and acc: "app_state w = HTTP_stateIdle \<or> app_state w = HTTP_stateStarting \<Longrightarrow> HookAccepted \<notin> set cs"
    and me: "http_pc_ok w (HookAccepted \<in> set cs) p"
    and sd: "app_serveDone (hy_srv s) = Some ChanClosed \<Longrightarrow> app_serveDone w = Some ChanClosed"
    and stopped: "app_state (hy_srv s) = HTTP_stateStopped \<Longrightarrow>
      app_state w = HTTP_stateStopped \<and> app_shutdownDone w = app_shutdownDone (hy_srv s) \<and>
      app_shutdownErr w = app_shutdownErr (hy_srv s)"
    and stopping: "app_state (hy_srv s) = HTTP_stateStopping \<Longrightarrow>
      app_state w = HTTP_stateStopping \<or> app_state w = HTTP_stateStopped \<and> app_shutdownDone w = Some ChanClosed"
    and others: "\<And>j. j \<noteq> i \<Longrightarrow> http_active (hy_pc s j) \<Longrightarrow>
      (HookAccepted \<in> set cs \<longleftrightarrow> HookAccepted \<in> set (hy_calls s)) \<and>
      (app_state w = app_state (hy_srv s) \<or> app_state w = HTTP_stateStopping \<or> app_state w = HTTP_stateStopped)"
  shows "http_inv t"
proof -
  have "http_pc_ok w (HookAccepted \<in> set cs) (hy_pc s j)" if "j \<noteq> i" for j
    by (rule http_pc_ok_stable [of "hy_srv s" "HookAccepted \<in> set (hy_calls s)"])
      (use inv sd stopped stopping others [OF that] in \<open>auto simp: http_inv_def\<close>)
  then show ?thesis
    unfolding http_inv_def t by (auto simp: srv act drn me acc)
qed

lemma http_inv_facts:
  assumes "http_inv s"
  shows "http_srv_ok (hy_srv s)"
    and "app_set (hy_srv s)"
    and "http_active (hy_pc s i) \<Longrightarrow> app_serveDone (hy_srv s) = Some ChanOpen"
    and "http_draining (hy_pc s i) \<Longrightarrow> app_state (hy_srv s) = HTTP_stateStopping"
    and "app_state (hy_srv s) = HTTP_stateIdle \<or> app_state (hy_srv s) = HTTP_stateStarting \<Longrightarrow>
       HookAccepted \<notin> set (hy_calls s)"
    and "http_pc_ok (hy_srv s) (HookAccepted \<in> set (hy_calls s)) (hy_pc s i)"
    and "http_active (hy_pc s i) \<Longrightarrow> j \<noteq> i \<Longrightarrow> \<not> http_active (hy_pc s j)"
    and "app_state (hy_srv s) \<noteq> HTTP_stateInvalid n"
  using assms by (auto simp: http_inv_def http_srv_ok_def dest: held_iff_holder held_iff_unique)

text \<open>A move that leaves the shared record alone and does not run the hook.\<close>

lemma http_inv_local:
  assumes inv: "http_inv s"
    and roles: "http_active p = http_active (hy_pc s i)" "http_draining p = http_draining (hy_pc s i)"
    and me: "http_pc_ok (hy_srv s) (HookAccepted \<in> set (hy_calls s)) p"
    and t: "hy_srv t = hy_srv s" "hy_pc t = (hy_pc s)(i := p)"
      "HookAccepted \<in> set (hy_calls t) \<longleftrightarrow> HookAccepted \<in> set (hy_calls s)"
  shows "http_inv t"
proof (rule http_inv_move [OF inv t(1) refl t(2)])
  show "held_iff http_active ((hy_pc s)(i := p)) (app_serveDone (hy_srv s) = Some ChanOpen)"
    using inv roles(1) by (auto simp: http_inv_def intro: held_iff_keep)
  show "held_iff http_draining ((hy_pc s)(i := p)) (app_state (hy_srv s) = HTTP_stateStopping)"
    using inv roles(2) by (auto simp: http_inv_def intro: held_iff_keep)
qed (use me t(3) http_inv_facts [OF inv] in auto)

lemma http_run_serve_enter:
  assumes inv: "http_inv s" and pc: "hy_pc s i = HpServeCalled l" and t: "http_run i s = Some t"
  shows "http_inv t"
proof (cases "\<not> http_isNilInterface (la_value l) \<and> app_state (hy_srv s) = HTTP_stateIdle")
  case True
  let ?w = "(hy_srv s)\<lparr>app_state := HTTP_stateStarting, app_listener := Some l,
              app_serveDone := Some ChanOpen, app_shutdownDone := Some ChanOpen\<rparr>"
  have t': "t = http_goto i (HpMustApp l) (s\<lparr>hy_srv := ?w\<rparr>)"
    using t True pc by (simp add: http_run_def http_sections)
  have ok: "http_srv_ok (hy_srv s)" "app_serveDone (hy_srv s) = None"
    using http_inv_facts(1) [OF inv] True by (auto simp: http_srv_ok_def)
  show ?thesis
  proof (rule http_inv_move [OF inv, where i = i and w = ?w and cs = "hy_calls s"])
    show "held_iff http_active ((hy_pc s)(i := HpMustApp l)) (app_serveDone ?w = Some ChanOpen)"
      using inv ok by (auto simp: http_inv_def intro!: held_iff_acquire)
    show "held_iff http_draining ((hy_pc s)(i := HpMustApp l)) (app_state ?w = HTTP_stateStopping)"
      using inv True pc by (auto simp: http_inv_def intro!: held_iff_keep)
    show "http_active (hy_pc s j) \<Longrightarrow>
      (HookAccepted \<in> set (hy_calls s) \<longleftrightarrow> HookAccepted \<in> set (hy_calls s)) \<and>
      (app_state ?w = app_state (hy_srv s) \<or> app_state ?w = HTTP_stateStopping \<or> app_state ?w = HTTP_stateStopped)" for j
      using http_inv_facts(3) [OF inv, of j] ok by simp
  qed (use True ok t' http_inv_facts(5) [OF inv] in \<open>auto simp: http_move http_srv_ok_def\<close>)
next
  case False
  then obtain e where "t = http_goto i (HpServeReturned (Some e)) s"
    using t pc http_inv_facts(8) [OF inv]
    by (cases "app_state (hy_srv s)") (auto simp: http_run_def http_sections split: if_splits)
  then show ?thesis
    using http_inv_local [OF inv, of "HpServeReturned (Some e)" i t] pc by (simp add: http_move)
qed

lemma http_hook_inv:
  assumes inv: "http_inv s" and t: "http_event_step (HEvHook i) s = Some t"
  shows "http_inv t"
proof -
  obtain l where pc: "hy_pc s i = HpStarting l" using t by (auto split: http_pc.splits)
  then have me: "app_state (hy_srv s) \<noteq> HTTP_stateServing" "HookAccepted \<notin> set (hy_calls s)"
    "app_serveDone (hy_srv s) = Some ChanOpen"
    using http_inv_facts(6) [OF inv, of i] http_inv_facts(3) [OF inv, of i] by auto
  have act: "held_iff http_active ((hy_pc s)(i := p)) True" if "http_active p" for p
    using inv pc me that by (auto simp: http_inv_def intro: held_iff_keep)
  have drn: "held_iff http_draining ((hy_pc s)(i := p)) (app_state (hy_srv s) = HTTP_stateStopping)"
    if "\<not> http_draining p" for p
    using inv pc that by (auto simp: http_inv_def intro: held_iff_keep)
  consider (go) "app_state (hy_srv s) = HTTP_stateStarting"
    | (refuse) "app_state (hy_srv s) = HTTP_stateStopping \<or> app_state (hy_srv s) = HTTP_stateStopped"
    using http_inv_facts(1,8) [OF inv] me by (cases "app_state (hy_srv s)") (auto simp: http_srv_ok_def)
  then show ?thesis
  proof cases
    case go
    let ?w = "(hy_srv s)\<lparr>app_state := HTTP_stateServing\<rparr>"
    have t': "t = http_log HookAccepted (http_goto i (HpServing l) (s\<lparr>hy_srv := ?w\<rparr>))"
      using t pc go by (simp add: http_sections)
    show ?thesis
    proof (rule http_inv_move [OF inv, where i = i and w = ?w and cs = "hy_calls s @ [HookAccepted]"])
      show "held_iff http_draining ((hy_pc s)(i := HpServing l)) (app_state ?w = HTTP_stateStopping)"
        using drn [of "HpServing l"] go by simp
      show "j \<noteq> i \<Longrightarrow> http_active (hy_pc s j) \<Longrightarrow>
        (HookAccepted \<in> set (hy_calls s @ [HookAccepted]) \<longleftrightarrow> HookAccepted \<in> set (hy_calls s)) \<and>
        (app_state ?w = app_state (hy_srv s) \<or> app_state ?w = HTTP_stateStopping \<or> app_state ?w = HTTP_stateStopped)" for j
        using http_inv_facts(7) [OF inv, of i j] pc by simp
    qed (use act [of "HpServing l"] me go t' http_inv_facts(1) [OF inv] in \<open>auto simp: http_move http_srv_ok_def\<close>)
  next
    case refuse
    then have "t = http_log (HookRefused (Sentinel HTTP_ErrServerStopped))
        (http_goto i (HpRefused l (Sentinel HTTP_ErrServerStopped)) s)"
      using t pc by (auto simp: http_sections)
    then show ?thesis
      using http_inv_local [OF inv, of "HpRefused l (Sentinel HTTP_ErrServerStopped)" i t] pc refuse
      by (simp add: http_move)
  qed
qed

lemma http_run_serve_exit:
  assumes inv: "http_inv s" and pc: "hy_pc s i = HpServeExit e" and t: "http_run i s = Some t"
  shows "http_inv t"
proof -
  have sd: "app_serveDone (hy_srv s) = Some ChanOpen" using http_inv_facts(3) [OF inv, of i] pc by simp
  have ok: "http_srv_ok (hy_srv s)" using http_inv_facts(1) [OF inv] .
  have act: "held_iff http_active ((hy_pc s)(i := HpServeReturned r)) False" for r
    using inv pc by (auto simp: http_inv_def intro: held_iff_release)
  have drn: "held_iff http_draining ((hy_pc s)(i := HpServeReturned r)) (app_state (hy_srv s) = HTTP_stateStopping)" for r
    using inv pc by (auto simp: http_inv_def intro: held_iff_keep)
  have alone: "j \<noteq> i \<Longrightarrow> \<not> http_active (hy_pc s j)" for j using http_inv_facts(7) [OF inv, of i j] pc by simp
  show ?thesis
  proof (cases "app_state (hy_srv s) = HTTP_stateStarting \<or> app_state (hy_srv s) = HTTP_stateServing")
    case True
    let ?w = "(hy_srv s)\<lparr>app_listener := None, app_serveDone := Some ChanClosed,
                app_state := HTTP_stateStopped, app_shutdownDone := Some ChanClosed\<rparr>"
    have dd: "app_shutdownDone (hy_srv s) = Some ChanOpen" using ok True by (auto simp: http_srv_ok_def)
    have t': "t = http_goto i (HpServeReturned (http_serve_result False e)) (s\<lparr>hy_srv := ?w\<rparr>)"
      using t True pc sd dd by (auto simp: http_run_def http_sections)
    show ?thesis
    proof (rule http_inv_move [OF inv, where i = i and w = ?w and cs = "hy_calls s"])
      show "held_iff http_draining ((hy_pc s)(i := HpServeReturned (http_serve_result False e)))
          (app_state ?w = HTTP_stateStopping)"
        using drn True by auto
    qed (use act t' alone True ok in \<open>auto simp: http_move http_srv_ok_def\<close>)
  next
    case False
    let ?w = "(hy_srv s)\<lparr>app_listener := None, app_serveDone := Some ChanClosed\<rparr>"
    have st: "app_state (hy_srv s) = HTTP_stateStopping \<or> app_state (hy_srv s) = HTTP_stateStopped"
      using False ok sd by (cases "app_state (hy_srv s)") (auto simp: http_srv_ok_def)
    have t': "t = http_goto i (HpServeReturned (http_serve_result True e)) (s\<lparr>hy_srv := ?w\<rparr>)"
      using t st pc sd by (auto simp: http_run_def http_sections)
    show ?thesis
    proof (rule http_inv_move [OF inv, where i = i and w = ?w and cs = "hy_calls s"])
      show "http_srv_ok ?w" using ok st sd by (auto simp: http_srv_ok_def)
      show "app_state ?w = HTTP_stateIdle \<or> app_state ?w = HTTP_stateStarting \<Longrightarrow> HookAccepted \<notin> set (hy_calls s)"
        using False st by auto
    qed (use act drn t' alone sd in \<open>auto simp: http_move\<close>)
  qed
qed

lemma http_run_shutdown_enter:
  assumes inv: "http_inv s" and pc: "hy_pc s i = HpShutdownCalled c" and t: "http_run i s = Some t"
  shows "http_inv t"
proof -
  have ok: "http_srv_ok (hy_srv s)" and set: "app_set (hy_srv s)" using http_inv_facts(1,2) [OF inv] .
  have loc: "http_inv (http_goto i p s)" if "\<not> http_active p" "\<not> http_draining p"
    "http_pc_ok (hy_srv s) (HookAccepted \<in> set (hy_calls s)) p" for p
    by (rule http_inv_local [OF inv, of p i]) (use that pc in \<open>simp_all add: http_move\<close>)
  have enter: "http_inv t"
    if st: "app_state (hy_srv s) = HTTP_stateIdle \<and> st = HTTP_stateStopped \<and> p = HpShutdownReturned None \<or>
        (app_state (hy_srv s) = HTTP_stateStarting \<or> app_state (hy_srv s) = HTTP_stateServing) \<and>
          st = HTTP_stateStopping \<and> http_draining p \<and> (\<forall>r. p \<noteq> HpFinish r)"
      and t': "hy_srv t = (hy_srv s)\<lparr>app_state := st\<rparr>" "hy_pc t = (hy_pc s)(i := p)" "hy_calls t = hy_calls s @ cs"
        "HookAccepted \<notin> set cs" for st p cs
  proof -
    have p: "\<not> http_active p" using st by (cases p) auto
    have d: "held_iff http_draining (hy_pc s) False" using inv st by (auto simp: http_inv_def)
    show ?thesis
    proof (rule http_inv_move [OF inv t'(1,3,2)])
      show "http_srv_ok ((hy_srv s)\<lparr>app_state := st\<rparr>)" using ok st by (auto simp: http_srv_ok_def)
      show "held_iff http_active ((hy_pc s)(i := p)) (app_serveDone ((hy_srv s)\<lparr>app_state := st\<rparr>) = Some ChanOpen)"
        using inv p pc by (auto simp: http_inv_def intro: held_iff_keep)
      show "held_iff http_draining ((hy_pc s)(i := p)) (app_state ((hy_srv s)\<lparr>app_state := st\<rparr>) = HTTP_stateStopping)"
        using st pc by (elim disjE conjE) (simp_all add: held_iff_keep [OF d] held_iff_acquire [OF d])
      show "http_pc_ok ((hy_srv s)\<lparr>app_state := st\<rparr>) (HookAccepted \<in> set (hy_calls s @ cs)) p"
        using st ok by (cases p) (auto simp: http_srv_ok_def)
    qed (use st t'(4) ok in \<open>auto simp: http_srv_ok_def\<close>)
  qed
  show ?thesis
  proof (cases "http_isNilInterface (sc_value c) \<or> \<not> sc_bounded c")
    case True
    then obtain e where "t = http_goto i (HpShutdownRefused e) s"
      using t pc by (cases "http_isNilInterface (sc_value c)") (auto simp: http_run_def http_shutdown_enter_def http_move)
    then show ?thesis using loc [of "HpShutdownRefused e"] by auto
  next
    case False
    show ?thesis
    proof (cases "app_state (hy_srv s)")
      case HTTP_stateIdle
      then show ?thesis
        using t pc set False by (intro enter [of HTTP_stateStopped "HpShutdownReturned None" "[]"])
          (auto simp: http_run_def http_sections http_move)
    next
      case HTTP_stateStarting
      then obtain l where l: "app_listener (hy_srv s) = Some l" using ok by (auto simp: http_srv_ok_def)
      show ?thesis
        using HTTP_stateStarting l t pc set False
        by (intro enter [of HTTP_stateStopping "HpAbort (sc_id c) l" "[CallListenerClose (la_id l)]"])
          (auto simp: http_run_def http_sections http_move)
    next
      case HTTP_stateServing
      then show ?thesis
        using t pc set False
        by (intro enter [of HTTP_stateStopping "HpDrain (sc_id c)" "[CallAppShutdown (sc_id c)]"])
          (auto simp: http_run_def http_sections http_move)
    next
      case HTTP_stateStopping
      then show ?thesis
        using loc [of HpWait] t pc set False by (simp add: http_run_def http_sections http_move Let_def)
    next
      case HTTP_stateStopped
      then show ?thesis
        using loc [of "HpShutdownReturned (app_shutdownErr (hy_srv s))"] t pc set False
        by (simp add: http_run_def http_sections http_move Let_def)
    qed (use http_inv_facts(8) [OF inv] in simp)
  qed
qed

lemma http_run_finish:
  assumes inv: "http_inv s" and pc: "hy_pc s i = HpFinish r" and t: "http_run i s = Some t"
  shows "http_inv t"
proof -
  let ?w = "(hy_srv s)\<lparr>app_shutdownErr := r, app_state := HTTP_stateStopped, app_shutdownDone := Some ChanClosed\<rparr>"
  have st: "app_state (hy_srv s) = HTTP_stateStopping" using http_inv_facts(4) [OF inv, of i] pc by simp
  have r: "r = None \<Longrightarrow> app_serveDone (hy_srv s) = Some ChanClosed"
    using http_inv_facts(6) [OF inv, of i] pc by simp
  have ok: "http_srv_ok (hy_srv s)" using http_inv_facts(1) [OF inv] .
  have t': "t = http_goto i (HpShutdownReturned r) (s\<lparr>hy_srv := ?w\<rparr>)"
    using t pc ok st by (simp add: http_run_def http_sections http_srv_ok_def)
  show ?thesis
  proof (rule http_inv_move [OF inv, where i = i and w = ?w and cs = "hy_calls s"])
    show "held_iff http_active ((hy_pc s)(i := HpShutdownReturned r)) (app_serveDone ?w = Some ChanOpen)"
      using inv pc by (auto simp: http_inv_def intro!: held_iff_keep)
    show "held_iff http_draining ((hy_pc s)(i := HpShutdownReturned r)) (app_state ?w = HTTP_stateStopping)"
      using inv pc by (auto simp: http_inv_def intro: held_iff_release)
  qed (use st t' r ok in \<open>auto simp: http_move http_srv_ok_def\<close>)
qed

lemma http_run_inv:
  assumes inv: "http_inv s" and t: "http_run i s = Some t"
  shows "http_inv t"
proof (cases "hy_pc s i")
  case (HpServeCalled l)
  then show ?thesis using http_run_serve_enter [OF inv _ t] by blast
next
  case (HpMustApp l)
  have "app_set (hy_srv s)" using http_inv_facts(2) [OF inv] .
  then have "t = http_log CallListen (http_goto i (HpStarting l) s)"
    using HpMustApp t by (simp add: http_run_def http_sections)
  then show ?thesis
    using http_inv_local [OF inv, of "HpStarting l" i t] HpMustApp http_inv_facts(6) [OF inv, of i]
    by (simp add: http_move)
next
  case (HpServeExit e)
  then show ?thesis using http_run_serve_exit [OF inv _ t] by blast
next
  case (HpShutdownCalled c)
  then show ?thesis using http_run_shutdown_enter [OF inv _ t] by blast
next
  case (HpFinish r)
  then show ?thesis using http_run_finish [OF inv _ t] by blast
next
  case HpWait
  then have "t = http_goto i HpWoken s" "app_shutdownDone (hy_srv s) = Some ChanClosed"
    using t by (auto simp: http_run_def split: if_splits)
  then show ?thesis
    using http_inv_local [OF inv, of HpWoken i t] HpWait http_inv_facts(1) [OF inv] http_inv_facts(6) [OF inv, of i]
    by (auto simp: http_move http_srv_ok_def)
next
  case HpWoken
  then show ?thesis
    using http_inv_local [OF inv, of "HpShutdownReturned (app_shutdownErr (hy_srv s))" i t] t
      http_inv_facts(6) [OF inv, of i] by (auto simp: http_run_def http_move)
qed (use t in \<open>auto simp: http_run_def\<close>)

lemma http_join_finish: "errors_join [e, None] = None \<longleftrightarrow> e = None" "errors_join [e, Some x] \<noteq> None"
  by (auto simp: errors_join_None_iff)

lemma http_event_inv:
  assumes inv: "http_inv s" and t: "http_event_step e s = Some t"
  shows "http_inv t"
proof -
  have loc: "http_inv (http_goto i p s)"
    if "http_active p = http_active (hy_pc s i)" "http_draining p = http_draining (hy_pc s i)"
      "http_pc_ok (hy_srv s) (HookAccepted \<in> set (hy_calls s)) p" for i p
    by (rule http_inv_local [OF inv that]) (simp_all add: http_move)
  show ?thesis
  proof (cases e)
    case (HEvRun i)
    then show ?thesis using http_run_inv [OF inv] t by simp
  next
    case (HEvHook i)
    then show ?thesis using http_hook_inv [OF inv] t by blast
  next
    case (HEvServe i l)
    then show ?thesis using t loc [of "HpServeCalled l" i] by (auto split: if_splits)
  next
    case (HEvShutdown i c)
    then show ?thesis using t loc [of "HpShutdownCalled c" i] by (auto split: if_splits)
  next
    case (HEvListenReturns i r)
    then show ?thesis using t loc [of "HpServeExit r" i] by (auto split: http_pc.splits)
  next
    case (HEvListenerClosed i r)
    then show ?thesis using t loc [of "HpAwait c (http_close_err r)" i for c] by (auto split: http_pc.splits)
  next
    case (HEvDrainReturns i r)
    then show ?thesis using t loc [of "HpAwait c (http_drain_err r)" i for c] by (auto split: http_pc.splits)
  next
    case (HEvServeGone i)
    then show ?thesis
      using t loc [of "HpFinish (errors_join [x, None])" i for x] by (auto split: http_pc.splits if_splits)
  next
    case (HEvExpired i)
    then show ?thesis
      using t by (auto intro!: loc simp del: not_None_eq simp: http_join_finish(2) split: http_pc.splits option.splits)
  next
    case (HEvCtxDone c x)
    then show ?thesis using t inv by (auto simp: http_inv_def split: if_splits)
  qed
qed

interpretation http_discipline: inductive_invariant "\<lambda>s. s = http_init" http_trans http_inv
proof
  show "s = http_init \<Longrightarrow> http_inv s" for s
    by (simp add: http_inv_def http_init_def http_new_server_def http_srv_ok_def held_iff_def)
  show "http_inv s \<Longrightarrow> http_trans s t \<Longrightarrow> http_inv t" for s t
    by (auto simp: http_trans_def intro: http_event_inv)
qed

end
