(* ===== verification/Http_Shutdown.thy ===== *)
theory Http_Shutdown
  imports Http_Lifecycle
begin

section \<open>What the HTTP lifecycle guarantees\<close>

text \<open>
  The properties of \<open>Serve\<close> and \<open>Shutdown\<close> of the HTTP adapter over every interleaving, and
  where its guarantees are weaker than the gRPC adapter's: a shutdown that runs out of time
  leaves \<open>Serve\<close> as it is.
\<close>

fun http_phase_of :: "http_state \<Rightarrow> http_err option \<Rightarrow> http_err option lifecycle_phase" where
  "http_phase_of HTTP_stateIdle r = Fresh"
| "http_phase_of HTTP_stateStarting r = Running"
| "http_phase_of HTTP_stateServing r = Running"
| "http_phase_of HTTP_stateStopping r = Draining"
| "http_phase_of HTTP_stateStopped r = Terminated r"
| "http_phase_of (HTTP_stateInvalid n) r = Fresh"

definition http_phase :: "http_sys \<Rightarrow> http_err option lifecycle_phase" where
  "http_phase s = http_phase_of (app_state (hy_srv s)) (app_shutdownErr (hy_srv s))"

lemma http_run_phase:
  assumes inv: "http_inv s" and t: "http_run i s = Some t"
  shows "http_phase s = http_phase t \<or> phase_step None (http_phase s) (http_phase t)"
proof -
  have ok: "http_srv_ok (hy_srv s)" and set: "app_set (hy_srv s)" using http_inv_facts(1,2) [OF inv] .
  show ?thesis
  proof (cases "hy_pc s i")
    case (HpServeCalled l)
    then show ?thesis
      using t by (cases "app_state (hy_srv s)")
        (auto simp: http_run_def http_sections http_move http_phase_def phase_start split: if_splits)
  next
    case (HpServeExit e)
    then have "app_serveDone (hy_srv s) = Some ChanOpen" using http_inv_facts(3) [OF inv, of i] by simp
    then show ?thesis
      using HpServeExit t ok by (cases "app_state (hy_srv s)")
        (auto simp: http_run_def http_sections http_move http_phase_def http_srv_ok_def phase_exit)
  next
    case (HpShutdownCalled c)
    then show ?thesis
      using t set ok by (cases "app_state (hy_srv s)"; cases "http_isNilInterface (sc_value c)"; cases "sc_bounded c")
        (auto simp: http_run_def http_sections http_move http_phase_def http_srv_ok_def Let_def
          phase_never_started phase_drain split: option.splits)
  next
    case (HpFinish r)
    then have "app_state (hy_srv s) = HTTP_stateStopping" using http_inv_facts(4) [OF inv, of i] by simp
    then show ?thesis
      using HpFinish t ok by (auto simp: http_run_def http_sections http_move http_phase_def http_srv_ok_def phase_finish)
  qed (use t in \<open>auto simp: http_run_def http_move http_phase_def split: outcome.splits if_splits\<close>)
qed

interpretation http_single_use: single_use "\<lambda>s. s = http_init" http_trans http_inv http_phase None
proof
  show "s = http_init \<Longrightarrow> http_phase s = Fresh" for s
    by (simp add: http_phase_def http_init_def http_new_server_def)
  fix s t :: http_sys
  assume inv: "http_inv s" and "http_trans s t"
  then obtain e where e: "http_event_step e s = Some t" by (auto simp: http_trans_def)
  show "http_phase s = http_phase t \<or> phase_step None (http_phase s) (http_phase t)"
  proof (cases e)
    case (HEvRun i)
    then show ?thesis using http_run_phase [OF inv] e by simp
  next
    case (HEvHook i)
    then show ?thesis
      using e by (cases "app_state (hy_srv s)")
        (auto simp: http_before_serve_def http_move http_phase_def split: http_pc.splits)
  qed (use e in \<open>auto simp: http_move http_phase_def split: if_splits http_pc.splits option.splits\<close>)
qed

subsection \<open>Progress and the bound on a caller's steps\<close>

text \<open>
  What a caller of \<open>Shutdown\<close> may wait for: its own code, the return of \<open>listener.Close\<close> and of
  \<open>ShutdownWithContext\<close>, and the deadline of its context. The return of \<open>Serve\<close> is not among
  them.
\<close>

fun http_promised :: "http_sys \<Rightarrow> http_event \<Rightarrow> bool" where
  "http_promised s (HEvRun i) \<longleftrightarrow> True"
| "http_promised s (HEvListenerClosed i r) \<longleftrightarrow> True"
| "http_promised s (HEvDrainReturns i r) \<longleftrightarrow> True"
| "http_promised s (HEvExpired i) \<longleftrightarrow> True"
| "http_promised s (HEvCtxDone c e) \<longleftrightarrow> (\<exists>i x. hy_pc s i = HpAwait c x)"
| "http_promised s _ \<longleftrightarrow> False"

fun http_in_shutdown :: "http_pc \<Rightarrow> bool" where
  "http_in_shutdown (HpShutdownCalled c) \<longleftrightarrow> True"
| "http_in_shutdown HpWait \<longleftrightarrow> True"
| "http_in_shutdown HpWoken \<longleftrightarrow> True"
| "http_in_shutdown p \<longleftrightarrow> http_draining p"

lemma http_draining_enabled:
  assumes "http_draining (hy_pc s i)"
  shows "\<exists>e t. http_event_step e s = Some t \<and> http_promised s e"
proof (cases "hy_pc s i")
  case (HpAbort c l)
  then have "http_event_step (HEvListenerClosed i None) s \<noteq> None" by simp
  then show ?thesis using http_promised.simps(2) by blast
next
  case (HpDrain c)
  then have "http_event_step (HEvDrainReturns i None) s \<noteq> None" by simp
  then show ?thesis using http_promised.simps(3) by blast
next
  case (HpAwait c x)
  show ?thesis
  proof (cases "hy_ctx s c")
    case None
    then have "http_event_step (HEvCtxDone c (Std ContextDeadlineExceeded)) s \<noteq> None" by simp
    moreover have "http_promised s (HEvCtxDone c (Std ContextDeadlineExceeded))" using HpAwait by auto
    ultimately show ?thesis by blast
  next
    case (Some e)
    then have "http_event_step (HEvExpired i) s \<noteq> None" using HpAwait by simp
    then show ?thesis using http_promised.simps(4) by blast
  qed
next
  case (HpFinish r)
  then have "http_event_step (HEvRun i) s \<noteq> None" by (simp add: http_run_def split: outcome.splits)
  then show ?thesis using http_promised.simps(1) by blast
qed (use assms in auto)

fun http_caller :: "http_event \<Rightarrow> nat option" where
  "http_caller (HEvServe i l) = Some i"
| "http_caller (HEvShutdown i c) = Some i"
| "http_caller (HEvRun i) = Some i"
| "http_caller (HEvHook i) = Some i"
| "http_caller (HEvListenReturns i r) = Some i"
| "http_caller (HEvListenerClosed i r) = Some i"
| "http_caller (HEvDrainReturns i r) = Some i"
| "http_caller (HEvServeGone i) = Some i"
| "http_caller (HEvExpired i) = Some i"
| "http_caller (HEvCtxDone c e) = None"

fun http_rank :: "http_pc \<Rightarrow> nat" where
  "http_rank HpIdle = 6"
| "http_rank (HpServeCalled l) = 5"
| "http_rank (HpMustApp l) = 4"
| "http_rank (HpStarting l) = 3"
| "http_rank (HpServing l) = 2"
| "http_rank (HpRefused l e) = 2"
| "http_rank (HpServeExit e) = 1"
| "http_rank (HpServeReturned e) = 0"
| "http_rank (HpShutdownCalled c) = 4"
| "http_rank (HpAbort c l) = 3"
| "http_rank (HpDrain c) = 3"
| "http_rank (HpAwait c e) = 2"
| "http_rank (HpFinish r) = 1"
| "http_rank HpWait = 2"
| "http_rank HpWoken = 1"
| "http_rank (HpShutdownReturned r) = 0"
| "http_rank (HpShutdownRefused e) = 0"
| "http_rank (HpPanicked m) = 0"

lemma http_event_rank:
  assumes "http_event_step e s = Some t"
  shows "http_rank (hy_pc t i) + (if http_caller e = Some i then 1 else 0) \<le> http_rank (hy_pc s i)"
proof (cases e)
  case (HEvRun j)
  then have "http_run j s = Some t" using assms by simp
  then show ?thesis
    using HEvRun by (cases "hy_pc s j")
      (auto simp: http_run_def http_move
        split: outcome.splits option.splits if_splits prod.splits http_serve_next.splits http_shutdown_next.splits)
qed (use assms in \<open>auto simp: http_move split: if_splits http_pc.splits option.splits prod.splits\<close>)

lemma http_events_rank:
  "http_events es s = Some t \<Longrightarrow>
     length (filter (\<lambda>e. http_caller e = Some i) es) + http_rank (hy_pc t i) \<le> http_rank (hy_pc s i)"
proof (induction es arbitrary: s)
  case (Cons e es)
  then obtain u where u: "http_event_step e s = Some u" "http_events es u = Some t"
    by (auto simp: bind_eq_Some_conv)
  show ?case using Cons.IH [OF u(2)] http_event_rank [OF u(1), of i] by auto
qed simp

lemma http_events_steps: "http_events es s = Some t \<Longrightarrow> http_trans\<^sup>*\<^sup>* s t"
proof (induction es arbitrary: s)
  case (Cons e es)
  then obtain u where "http_event_step e s = Some u" "http_events es u = Some t"
    by (auto simp: bind_eq_Some_conv)
  with Cons.IH show ?case by (meson converse_rtranclp_into_rtranclp http_trans_def)
qed simp

lemma http_events_reach: "http_events es http_init = Some t \<Longrightarrow> reach (\<lambda>s. s = http_init) http_trans t"
  by (rule reach_steps [OF reach_init http_events_steps]) auto

subsection \<open>Runs for the witnesses\<close>

definition http_listener :: listener_arg where
  "http_listener = \<lparr>la_value = Dynamic KPointer False, la_id = 7\<rparr>"

definition http_context :: shutdown_ctx where
  "http_context = \<lparr>sc_value = Dynamic KPointer False, sc_bounded = True, sc_id = 0\<rparr>"

text \<open>A graceful shutdown of a serving server; a shutdown during startup; a drain that finds
  Fiber not running and then the deadline.\<close>

definition http_graceful_run :: "http_event list" where
  "http_graceful_run = [HEvServe 0 http_listener, HEvRun 0, HEvRun 0, HEvHook 0, HEvShutdown 1 http_context, HEvRun 1,
     HEvShutdown 2 http_context, HEvRun 2, HEvDrainReturns 1 None, HEvListenReturns 0 None, HEvRun 0, HEvServeGone 1,
     HEvRun 1, HEvRun 2, HEvRun 2]"

definition http_startup_prefix :: "http_event list" where
  "http_startup_prefix = [HEvServe 0 http_listener, HEvRun 0, HEvRun 0, HEvShutdown 1 http_context, HEvRun 1]"

definition http_startup_suffix :: "http_event list" where
  "http_startup_suffix = [HEvHook 0, HEvListenerClosed 1 (Some (Std NetErrClosed)),
     HEvListenReturns 0 (Some (Sentinel HTTP_ErrServerStopped)), HEvRun 0, HEvServeGone 1, HEvRun 1]"

definition http_not_running_run :: "http_event list" where
  "http_not_running_run = [HEvServe 0 http_listener, HEvRun 0, HEvRun 0, HEvHook 0, HEvShutdown 1 http_context, HEvRun 1,
     HEvDrainReturns 1 (Some (Std FiberErrNotRunning)), HEvCtxDone 0 (Std ContextDeadlineExceeded), HEvExpired 1, HEvRun 1]"

lemmas http_demo = http_graceful_run_def http_startup_prefix_def http_startup_suffix_def http_not_running_run_def
  http_listener_def http_context_def http_init_def http_new_server_def http_run_def http_sections
  http_isNilInterface_def http_move http_drain_err_def http_close_err_def http_serve_result_def
  errors_join_def map_filter_def

lemma http_graceful_run_returns:
  "\<exists>t. http_events http_graceful_run http_init = Some t \<and> hy_pc t 1 = HpShutdownReturned None \<and>
     hy_pc t 2 = HpShutdownReturned None \<and> hy_pc t 0 = HpServeReturned None"
  by (simp add: http_demo)

lemma http_startup_prefix_state:
  "\<exists>s. http_events http_startup_prefix http_init = Some s \<and> app_state (hy_srv s) = HTTP_stateStopping \<and>
     HookAccepted \<notin> set (hy_calls s) \<and> hy_pc s 1 = HpAbort 0 http_listener \<and>
     (\<exists>t. http_events http_startup_suffix s = Some t \<and> hy_pc t 0 = HpServeReturned None \<and>
        hy_pc t 1 = HpShutdownReturned None)"
  by (simp add: http_demo)

lemma http_not_running_state:
  "\<exists>s. http_events http_not_running_run http_init = Some s \<and>
     hy_pc s 1 = HpShutdownReturned (Some (Joined [Std ContextDeadlineExceeded])) \<and>
     hy_pc s 0 = HpServing http_listener \<and> app_state (hy_srv s) = HTTP_stateStopped \<and>
     hy_calls s = [CallListen, HookAccepted, CallAppShutdown 0] \<and> app_set (hy_srv s) \<and> hy_pc s 2 = HpIdle"
  by (simp add: http_demo)

text \<open>Which events log a call: the hook only in \<open>stateStarting\<close>, a teardown only before the
  server is draining or stopped.\<close>

definition http_down :: "http_sys \<Rightarrow> bool" where
  "http_down s \<longleftrightarrow> app_state (hy_srv s) = HTTP_stateStopping \<or> app_state (hy_srv s) = HTTP_stateStopped"

definition http_quiet :: "http_call list \<Rightarrow> http_call list" where
  "http_quiet calls = filter (\<lambda>c. c \<noteq> CallListen \<and> (\<forall>e. c \<noteq> HookRefused e)) calls"

lemma http_event_quiet:
  assumes "http_event_step e s = Some t" and "http_down s"
  shows "http_quiet (hy_calls t) = http_quiet (hy_calls s)"
proof (cases e)
  case (HEvRun i)
  then have t: "http_run i s = Some t" using assms(1) by simp
  show ?thesis
  proof (cases "hy_pc s i")
    case (HpShutdownCalled c)
    with t assms(2) show ?thesis
      by (auto simp: http_run_def http_shutdown_enter_def http_mustApp_def http_move http_down_def Let_def
          split: if_splits)
  qed (use t in \<open>auto simp: http_run_def http_move http_quiet_def
      split: outcome.splits option.splits if_splits prod.splits http_serve_next.splits\<close>)
next
  case (HEvHook i)
  then show ?thesis
    using assms by (auto simp: http_move http_down_def http_before_serve_def http_quiet_def split: http_pc.splits)
qed (use assms in \<open>auto simp: http_move split: if_splits http_pc.splits option.splits\<close>)

lemma http_events_quiet:
  assumes "reach (\<lambda>s. s = http_init) http_trans s" and "http_events es s = Some t" and "http_down s"
  shows "http_quiet (hy_calls t) = http_quiet (hy_calls s) \<and> http_down t"
  using assms
proof (induction es arbitrary: s)
  case (Cons e es)
  then obtain u where u: "http_event_step e s = Some u" "http_events es u = Some t"
    by (auto simp: bind_eq_Some_conv)
  have r: "reach (\<lambda>s. s = http_init) http_trans u"
    using Cons.prems(1) u(1) by (meson http_trans_def reach_step)
  have inv: "http_inv u" by (rule http_discipline.inv_reach [OF r])
  have "http_trans\<^sup>*\<^sup>* s u" using u(1) unfolding http_trans_def by blast
  then have "http_phase u \<noteq> Running \<and> http_phase u \<noteq> Fresh"
    by (rule http_single_use.never_running_again [OF Cons.prems(1)])
      (use Cons.prems(3) in \<open>auto simp: http_phase_def http_down_def\<close>)
  then have "http_down u" by (cases "app_state (hy_srv u)") (auto simp: http_phase_def http_down_def)
  with Cons.IH [OF r u(2)] http_event_quiet [OF u(1) Cons.prems(3)] show ?case by simp
qed simp

subsection \<open>Properties of the HTTP lifecycle\<close>

text \<open>C7: a \<open>Shutdown\<close> that returns nil has shut the server down: in every interleaving, once an
  accepted call has returned nil the state is \<open>stateStopped\<close>, the listener is released and no
  caller is inside \<open>Serve\<close>, before, in or after Fiber.\<close>

theorem http_shutdown_nil_complete:
  assumes "reach (\<lambda>s. s = http_init) http_trans s" and "hy_pc s i = HpShutdownReturned None"
  shows "app_state (hy_srv s) = HTTP_stateStopped \<and> app_listener (hy_srv s) = None \<and>
    (\<forall>j. \<not> http_active (hy_pc s j))"
proof -
  have inv: "http_inv s" by (rule http_discipline.inv_reach [OF assms(1)])
  have st: "app_state (hy_srv s) = HTTP_stateStopped" "app_shutdownErr (hy_srv s) = None"
    using http_inv_facts(6) [OF inv, of i] assms(2) by auto
  have closed: "app_serveDone (hy_srv s) \<noteq> Some ChanOpen" and "app_listener (hy_srv s) = None"
    using http_inv_facts(1) [OF inv] st by (auto simp: http_srv_ok_def)
  with st http_inv_facts(3) [OF inv] show ?thesis by blast
qed

theorem http_shutdown_nil_complete_witness:
  "\<exists>t. http_events http_graceful_run http_init = Some t \<and> app_listener (hy_srv t) = None \<and>
     \<not> http_active (hy_pc t 0)"
  using http_graceful_run_returns http_shutdown_nil_complete [OF http_events_reach] by blast

text \<open>No interleaving makes the HTTP lifecycle of a server made by \<open>New\<close> panic, and Fiber's
  hook never meets an unexpected lifecycle state: what it refuses with is \<open>ErrServerStopped\<close>.\<close>

lemma http_no_panic:
  assumes "reach (\<lambda>s. s = http_init) http_trans s"
  shows "hy_pc s i \<noteq> HpPanicked m \<and> (\<forall>l e. hy_pc s i = HpRefused l e \<longrightarrow> e = Sentinel HTTP_ErrServerStopped)"
  using http_inv_facts(6) [OF http_discipline.inv_reach [OF assms], of i] by auto

text \<open>C24: concurrent and later \<open>Shutdown\<close> calls of the HTTP server return one result: if an
  accepted call has returned \<open>r\<close> and an accepted call returns \<open>r'\<close> in any continuation, then
  \<open>r = r'\<close>.\<close>

theorem http_shutdown_agreement:
  assumes "reach (\<lambda>s. s = http_init) http_trans s" and "http_events es s = Some t"
    and "hy_pc s i = HpShutdownReturned r" and "hy_pc t j = HpShutdownReturned r'"
  shows "r = r'"
proof -
  have steps: "http_trans\<^sup>*\<^sup>* s t" by (rule http_events_steps [OF assms(2)])
  have s: "http_phase s = Terminated r"
    using http_inv_facts(6) [OF http_discipline.inv_reach [OF assms(1)], of i] assms(3)
    by (auto simp: http_phase_def)
  have "http_phase t = Terminated r'"
    using http_inv_facts(6) [OF http_discipline.inv_reach [OF reach_steps [OF assms(1) steps]], of j] assms(4)
    by (auto simp: http_phase_def)
  with http_single_use.terminated_final [OF assms(1) steps s] show ?thesis by simp
qed

theorem http_shutdown_agreement_witness:
  "\<exists>t r. http_events http_graceful_run http_init = Some t \<and> hy_pc t 1 = HpShutdownReturned r \<and>
     hy_pc t 2 = HpShutdownReturned r"
proof -
  obtain t r where t: "http_events http_graceful_run http_init = Some t" "hy_pc t 1 = HpShutdownReturned None"
    "hy_pc t 2 = HpShutdownReturned r" using http_graceful_run_returns by blast
  have "http_events [] t = Some t" by simp
  from http_shutdown_agreement [OF http_events_reach [OF t(1)] this t(2,3)] t show ?thesis by blast
qed

text \<open>A shutdown that arrives during startup wins: once the server is stopping or stopped and
  Fiber's hook has not agreed to serve, it never agrees in any continuation, so no connection
  is accepted.\<close>

theorem http_startup_stop_prevents_serving:
  assumes "reach (\<lambda>s. s = http_init) http_trans s" and "http_events es s = Some t"
    and "app_state (hy_srv s) = HTTP_stateStopping \<or> app_state (hy_srv s) = HTTP_stateStopped"
    and "HookAccepted \<notin> set (hy_calls s)"
  shows "HookAccepted \<notin> set (hy_calls t) \<and> app_state (hy_srv t) \<noteq> HTTP_stateServing"
proof -
  have same: "http_quiet (hy_calls t) = http_quiet (hy_calls s)" and down: "http_down t"
    using http_events_quiet [OF assms(1,2)] assms(3) by (auto simp: http_down_def)
  have quiet: "HookAccepted \<in> set (http_quiet cs) \<longleftrightarrow> HookAccepted \<in> set cs" for cs
    by (simp add: http_quiet_def)
  have "HookAccepted \<notin> set (hy_calls t)"
    using quiet [of "hy_calls s"] quiet [of "hy_calls t"] same assms(4) by simp
  with down show ?thesis by (auto simp: http_down_def)
qed

theorem http_startup_stop_prevents_serving_witness:
  "\<exists>s t. http_events http_startup_prefix http_init = Some s \<and> http_events http_startup_suffix s = Some t \<and>
     HookAccepted \<notin> set (hy_calls t) \<and> hy_pc t 0 = HpServeReturned None"
  using http_startup_prefix_state http_startup_stop_prevents_serving [OF http_events_reach] by blast

text \<open>C22: an HTTP shutdown returns by its deadline: whatever \<open>Serve\<close> does, in every state a run
  reaches with a caller inside \<open>Shutdown\<close> some step that its own code, \<open>listener.Close\<close>,
  \<open>ShutdownWithContext\<close> or the deadline owes it is enabled, and a caller still inside has taken
  fewer than six steps.\<close>

theorem http_shutdown_terminates:
  assumes "http_events es http_init = Some s" and "http_in_shutdown (hy_pc s i)"
  shows "(\<exists>e t. http_event_step e s = Some t \<and> http_promised s e) \<and>
    length (filter (\<lambda>e. http_caller e = Some i) es) < 6"
proof -
  have inv: "http_inv s" by (rule http_discipline.inv_reach [OF http_events_reach [OF assms(1)]])
  have run: "\<exists>e t. http_event_step e s = Some t \<and> http_promised s e" if "http_event_step (HEvRun i) s \<noteq> None"
    using that http_promised.simps(1) by blast
  have enabled: "\<exists>e t. http_event_step e s = Some t \<and> http_promised s e"
  proof (cases "hy_pc s i")
    case (HpShutdownCalled c)
    have "http_event_step (HEvRun i) s \<noteq> None"
      using HpShutdownCalled http_inv_facts(2) [OF inv]
      by (cases "app_state (hy_srv s)") (auto simp: http_run_def http_sections Let_def split: option.splits)
    then show ?thesis by (rule run)
  next
    case HpWait
    then have "app_state (hy_srv s) = HTTP_stateStopping \<or> app_shutdownDone (hy_srv s) = Some ChanClosed"
      using http_inv_facts(6) [OF inv, of i] by auto
    then show ?thesis
    proof
      assume "app_state (hy_srv s) = HTTP_stateStopping"
      then obtain j where "http_draining (hy_pc s j)" using inv by (auto simp: http_inv_def dest: held_iff_ex)
      then show ?thesis by (rule http_draining_enabled)
    next
      assume "app_shutdownDone (hy_srv s) = Some ChanClosed"
      then show ?thesis using HpWait by (intro run) (simp add: http_run_def)
    qed
  next
    case HpWoken
    then show ?thesis by (intro run) (simp add: http_run_def)
  qed (use assms(2) http_draining_enabled [of s i] in auto)
  have "length (filter (\<lambda>e. http_caller e = Some i) es) + http_rank (hy_pc s i) \<le> 6"
    using http_events_rank [OF assms(1), of i] by (simp add: http_init_def)
  moreover have "0 < http_rank (hy_pc s i)" using assms(2) by (cases "hy_pc s i") auto
  ultimately have "length (filter (\<lambda>e. http_caller e = Some i) es) < 6" by linarith
  with enabled show ?thesis by blast
qed

theorem http_shutdown_terminates_witness:
  "\<exists>s e t. http_events http_startup_prefix http_init = Some s \<and> hy_pc s 1 = HpAbort 0 http_listener \<and>
     http_event_step e s = Some t \<and> http_promised s e"
proof -
  obtain s where s: "http_events http_startup_prefix http_init = Some s" "hy_pc s 1 = HpAbort 0 http_listener"
    using http_startup_prefix_state by blast
  then have "http_in_shutdown (hy_pc s 1)" by simp
  from http_shutdown_terminates [OF s(1) this] s show ?thesis by blast
qed

text \<open>C39: a shutdown can give up and leave \<open>Serve\<close> running for good: there is a run in which
  Fiber answers \<open>ShutdownWithContext\<close> with \<open>ErrNotRunning\<close>, because it had agreed to serve and
  not yet begun, in which \<open>Shutdown\<close> takes that answer for success, waits for \<open>Serve\<close> and
  returns only the deadline's error. The state is \<open>stateStopped\<close>, \<open>Serve\<close> is inside Fiber on an
  open listener, and no continuation, further \<open>Shutdown\<close> calls included, closes that listener
  or shuts Fiber down.\<close>

theorem http_shutdown_abandons_serve:
  "\<exists>s. http_events http_not_running_run http_init = Some s \<and>
     hy_pc s 1 = HpShutdownReturned (Some (Joined [Std ContextDeadlineExceeded])) \<and>
     hy_pc s 0 = HpServing http_listener \<and> app_state (hy_srv s) = HTTP_stateStopped \<and>
     CallListenerClose (la_id http_listener) \<notin> set (hy_calls s) \<and>
     (\<forall>es t. http_events es s = Some t \<longrightarrow>
        CallListenerClose (la_id http_listener) \<notin> set (hy_calls t) \<and>
        (\<forall>c. CallAppShutdown c \<in> set (hy_calls t) \<longrightarrow> CallAppShutdown c \<in> set (hy_calls s)))"
proof -
  obtain s where s: "http_events http_not_running_run http_init = Some s"
    "hy_pc s 1 = HpShutdownReturned (Some (Joined [Std ContextDeadlineExceeded]))"
    "hy_pc s 0 = HpServing http_listener" "app_state (hy_srv s) = HTTP_stateStopped"
    "hy_calls s = [CallListen, HookAccepted, CallAppShutdown 0]" using http_not_running_state by blast
  have quiet: "http_quiet (hy_calls t) = [HookAccepted, CallAppShutdown 0]" if "http_events es s = Some t" for es t
    using http_events_quiet [OF http_events_reach [OF s(1)] that] s(4,5)
    by (simp add: http_down_def http_quiet_def)
  have mem: "c \<in> set (http_quiet cs)" if "c \<in> set cs" "c \<noteq> CallListen" "\<forall>e. c \<noteq> HookRefused e" for c cs
    using that by (simp add: http_quiet_def)
  have "CallListenerClose (la_id http_listener) \<notin> set (hy_calls t) \<and>
      (\<forall>c. CallAppShutdown c \<in> set (hy_calls t) \<longrightarrow> CallAppShutdown c \<in> set (hy_calls s))"
    if "http_events es s = Some t" for es t
    using quiet [OF that] mem [of _ "hy_calls t"] s(5) by fastforce
  with s show ?thesis by auto
qed

theorem http_shutdown_abandons_serve_witness:
  "\<exists>s t. http_events http_not_running_run http_init = Some s \<and>
     http_events [HEvShutdown 2 http_context, HEvRun 2] s = Some t \<and>
     CallListenerClose (la_id http_listener) \<notin> set (hy_calls t)"
proof -
  obtain s where s: "http_events http_not_running_run http_init = Some s"
    "\<And>es t. http_events es s = Some t \<Longrightarrow> CallListenerClose (la_id http_listener) \<notin> set (hy_calls t)"
    using http_shutdown_abandons_serve by blast
  from http_not_running_state s(1) have "hy_pc s 2 = HpIdle" "app_set (hy_srv s)"
    "app_state (hy_srv s) = HTTP_stateStopped" by auto
  then obtain t where "http_events [HEvShutdown 2 http_context, HEvRun 2] s = Some t"
    by (auto simp: http_run_def http_shutdown_enter_def http_mustApp_def http_isNilInterface_def http_context_def
        http_move Let_def)
  with s show ?thesis by blast
qed

text \<open>
  A \<open>Server\<close> that was not made by \<open>New\<close>: \<open>Shutdown\<close> panics before it touches the state, but
  \<open>Serve\<close> has already taken \<open>stateStarting\<close> when it panics, so that a later \<open>Serve\<close> finds the
  server in use.
\<close>

lemma http_zero_server_stuck:
  "\<exists>s. http_events [HEvServe 0 http_listener, HEvRun 0, HEvRun 0, HEvServe 1 http_listener, HEvRun 1]
         (http_init\<lparr>hy_srv := http_zero_server\<rparr>) = Some s \<and>
     hy_pc s 0 = HpPanicked ''httpserver: Server must be created with New'' \<and>
     app_state (hy_srv s) = HTTP_stateStarting \<and>
     hy_pc s 1 = HpServeReturned (Some (Sentinel HTTP_ErrServerAlreadyServing))"
  by (simp add: http_demo http_zero_server_def)

end
