(* ===== verification/Logging.thy ===== *)
theory Logging
  imports Go_Errors
begin

section \<open>Structured logging (observability/logging.go)\<close>

text \<open>
  The logger is a configuration of zerolog, which is library code: a zerolog logger, writer or
  event is the term of the calls that built it (\<open>zwriter\<close>, \<open>zlogger\<close>, \<open>zevent\<close>), so what a log
  line may contain can be read off it. What zerolog does with the term is a parameter: whether
  a logger emits a level, and that an emitted event runs the logger's hooks once.
\<close>

datatype log_error = ErrNilLogWriter | ErrInvalidLogLevel | ErrInvalidLogFormat

type_synonym log_err = "log_error go_error"

definition fieldComponent :: string where "fieldComponent = ''component''"
definition fieldEvent :: string where "fieldEvent = ''event''"
definition fieldMonotonicSequence :: string where "fieldMonotonicSequence = ''monotonic_sequence''"
definition fieldTimestamp :: string where "fieldTimestamp = ''timestamp''"

type_synonym log_level = string
type_synonym log_format = string

definition LevelDebug :: log_level where "LevelDebug = ''debug''"
definition LevelInfo :: log_level where "LevelInfo = ''info''"
definition LevelWarn :: log_level where "LevelWarn = ''warn''"
definition LevelError :: log_level where "LevelError = ''error''"
definition LevelDisabled :: log_level where "LevelDisabled = ''disabled''"
definition FormatJSON :: log_format where "FormatJSON = ''json''"
definition FormatConsole :: log_format where "FormatConsole = ''console''"

record LogConfig =
  cfg_level :: log_level
  cfg_format :: log_format

definition DefaultLogConfig :: LogConfig where
  "DefaultLogConfig = \<lparr>cfg_level = LevelInfo, cfg_format = FormatJSON\<rparr>"

lemmas log_level_defs = LevelDebug_def LevelInfo_def LevelWarn_def LevelError_def LevelDisabled_def

lemmas log_format_defs = FormatJSON_def FormatConsole_def

subsection \<open>zerolog as terms\<close>

datatype zlevel = ZDebug | ZInfo | ZWarn | ZError | ZDisabled | ZNoLevel

datatype 'w zwriter = ZSyncWriter 'w | ZConsoleWriter "'w zwriter" bool string

text \<open>A hook is named by the counter cell it advances.\<close>

datatype 'w zlogger =
    ZNop
  | ZNew "'w zwriter"
  | ZLevel "'w zlogger" zlevel
  | ZHook "'w zlogger" nat
  | ZWithStr "'w zlogger" string string

datatype 'w zevent =
    ZStart "'w zlogger" zlevel
  | ZStr "'w zevent" string string
  | ZInt "'w zevent" string int
  | ZUint64 "'w zevent" string uint64

text \<open>A \<open>Logger\<close> value; \<open>None\<close> is the nil \<open>*zerolog.Logger\<close> of an uninitialized one.\<close>

record 'w Logger =
  lg_logger :: "'w zlogger option"

record 'w log_writer =
  lw_value :: interface_value
  lw_out :: 'w

definition isNilWriter :: "'w log_writer \<Rightarrow> bool" where
  "isNilWriter writer =
     (case lw_value writer of
        NilInterface \<Rightarrow> True
      | Dynamic k isnil \<Rightarrow>
          (if k \<in> {KChan, KFunc, KInterface, KMap, KPointer, KSlice} then isnil else False))"

definition parseLevel :: "log_level \<Rightarrow> zlevel \<times> log_err option" where
  "parseLevel level =
     (if level = LevelDebug then (ZDebug, None)
      else if level = LevelInfo then (ZInfo, None)
      else if level = LevelWarn then (ZWarn, None)
      else if level = LevelError then (ZError, None)
      else if level = LevelDisabled then (ZDisabled, None)
      else (ZNoLevel, Some (Errorf ''%w: %q'' [FmtString level] (Sentinel ErrInvalidLogLevel))))"

definition logWriter :: "'w \<Rightarrow> log_format \<Rightarrow> log_err + 'w zwriter" where
  "logWriter out format =
     (let synchronized = ZSyncWriter out in
      if format = FormatJSON then Inr synchronized
      else if format = FormatConsole then
        Inr (ZConsoleWriter synchronized True ''2006-01-02T15:04:05.999999999Z07:00'')
      else Inl (Errorf ''%w: %q'' [FmtString format] (Sentinel ErrInvalidLogFormat)))"

text \<open>\<open>cell\<close> is the counter that this call allocates, at zero.\<close>

definition NewLogger :: "nat \<Rightarrow> 'w log_writer \<Rightarrow> LogConfig \<Rightarrow> log_err + 'w Logger" where
  "NewLogger cell out config =
     (if isNilWriter out then Inl (Sentinel ErrNilLogWriter)
      else case parseLevel (cfg_level config) of
             (_, Some err) \<Rightarrow> Inl err
           | (level, None) \<Rightarrow>
               (case logWriter (lw_out out) (cfg_format config) of
                  Inl err \<Rightarrow> Inl err
                | Inr writer \<Rightarrow> Inr \<lparr>lg_logger = Some (ZHook (ZLevel (ZNew writer) level) cell)\<rparr>))"

definition NopLogger :: "'w Logger" where
  "NopLogger = \<lparr>lg_logger = Some ZNop\<rparr>"

definition mustLogger :: "'w Logger option \<Rightarrow> 'w zlogger outcome" where
  "mustLogger l =
     (case l of
        None \<Rightarrow> Panic ''observability: Logger must be created with NewLogger or NopLogger''
      | Some lg \<Rightarrow>
          (case lg_logger lg of
             None \<Rightarrow> Panic ''observability: Logger must be created with NewLogger or NopLogger''
           | Some z \<Rightarrow> Return z))"

definition log_Component :: "'w Logger option \<Rightarrow> string \<Rightarrow> 'w Logger outcome" where
  "log_Component l name =
     and_then (mustLogger l) (\<lambda>z. Return \<lparr>lg_logger = Some (ZWithStr z fieldComponent name)\<rparr>)"

definition log_Debug :: "'w Logger option \<Rightarrow> string \<Rightarrow> 'w zevent outcome" where
  "log_Debug l event = and_then (mustLogger l) (\<lambda>z. Return (ZStr (ZStart z ZDebug) fieldEvent event))"

definition log_Info :: "'w Logger option \<Rightarrow> string \<Rightarrow> 'w zevent outcome" where
  "log_Info l event = and_then (mustLogger l) (\<lambda>z. Return (ZStr (ZStart z ZInfo) fieldEvent event))"

definition log_Warn :: "'w Logger option \<Rightarrow> string \<Rightarrow> 'w zevent outcome" where
  "log_Warn l event = and_then (mustLogger l) (\<lambda>z. Return (ZStr (ZStart z ZWarn) fieldEvent event))"

definition log_Error :: "'w Logger option \<Rightarrow> string \<Rightarrow> 'w zevent outcome" where
  "log_Error l event = and_then (mustLogger l) (\<lambda>z. Return (ZStr (ZStart z ZError) fieldEvent event))"

text \<open>The hook on one event: it advances the counter and adds the new value; \<open>now\<close> is the
  formatted time.\<close>

definition metadataHook_Run :: "string \<Rightarrow> uint64 \<Rightarrow> 'w zevent \<Rightarrow> 'w zevent \<times> uint64" where
  "metadataHook_Run now sequence event =
     (ZUint64 (ZStr event fieldTimestamp now) fieldMonotonicSequence (sequence + 1), sequence + 1)"

subsection \<open>Emission\<close>

text \<open>
  What zerolog does with an event that it emits: the hooks of the event's logger run in order
  on the event. \<open>emits\<close> is its choice of the events to emit, by the levels.
\<close>

fun zevent_logger :: "'w zevent \<Rightarrow> 'w zlogger" where
  "zevent_logger (ZStart l lvl) = l"
| "zevent_logger (ZStr e k v) = zevent_logger e"
| "zevent_logger (ZInt e k v) = zevent_logger e"
| "zevent_logger (ZUint64 e k v) = zevent_logger e"

fun zlogger_hooks :: "'w zlogger \<Rightarrow> nat list" where
  "zlogger_hooks ZNop = []"
| "zlogger_hooks (ZNew w) = []"
| "zlogger_hooks (ZLevel l lvl) = zlogger_hooks l"
| "zlogger_hooks (ZHook l c) = zlogger_hooks l @ [c]"
| "zlogger_hooks (ZWithStr l k v) = zlogger_hooks l"

fun run_hooks :: "string \<Rightarrow> nat list \<Rightarrow> 'w zevent \<Rightarrow> (nat \<Rightarrow> uint64) \<Rightarrow> 'w zevent \<times> (nat \<Rightarrow> uint64)" where
  "run_hooks now [] e \<sigma> = (e, \<sigma>)"
| "run_hooks now (c # cs) e \<sigma> =
     (let (e', n) = metadataHook_Run now (\<sigma> c) e in run_hooks now cs e' (\<sigma>(c := n)))"

fun emit_all :: "('w zevent \<Rightarrow> bool) \<Rightarrow> (string \<times> 'w zevent) list \<Rightarrow> (nat \<Rightarrow> uint64) \<Rightarrow> 'w zevent list \<times> (nat \<Rightarrow> uint64)" where
  "emit_all emits [] \<sigma> = ([], \<sigma>)"
| "emit_all emits ((now, e) # es) \<sigma> =
     (if emits e then
        let (e', \<sigma>1) = run_hooks now (zlogger_hooks (zevent_logger e)) e \<sigma>;
            (ls, \<sigma>2) = emit_all emits es \<sigma>1
        in (e' # ls, \<sigma>2)
      else emit_all emits es \<sigma>)"

text \<open>The last value an event carries for an unsigned field, and for a string field.\<close>

fun uint_field :: "string \<Rightarrow> 'w zevent \<Rightarrow> uint64 option" where
  "uint_field f (ZStart l lvl) = None"
| "uint_field f (ZStr e k v) = uint_field f e"
| "uint_field f (ZInt e k v) = uint_field f e"
| "uint_field f (ZUint64 e k v) = (if k = f then Some v else uint_field f e)"

fun str_fields :: "'w zevent \<Rightarrow> (string \<times> string) list" where
  "str_fields (ZStart l lvl) = []"
| "str_fields (ZStr e k v) = str_fields e @ [(k, v)]"
| "str_fields (ZInt e k v) = str_fields e"
| "str_fields (ZUint64 e k v) = str_fields e"

text \<open>The loggers that \<open>Component\<close> derives from one logger, in any number of steps.\<close>

inductive component_of :: "'w Logger \<Rightarrow> 'w Logger \<Rightarrow> bool" for root :: "'w Logger" where
  component_root: "component_of root root"
| component_child: "component_of root l \<Longrightarrow> log_Component (Some l) name = Return l' \<Longrightarrow> component_of root l'"

inductive_cases component_childE: "component_of root l"

lemma component_of_hooks:
  "component_of root l \<Longrightarrow> lg_logger root = Some z \<Longrightarrow>
     \<exists>z'. lg_logger l = Some z' \<and> zlogger_hooks z' = zlogger_hooks z"
  by (induction rule: component_of.induct) (auto simp: log_Component_def mustLogger_def)

lemma parseLevel_None: "parseLevel x = (lvl, None) \<Longrightarrow> lvl \<noteq> ZNoLevel"
  by (auto simp: parseLevel_def split: if_splits)

lemma NewLogger_shape:
  assumes "NewLogger cell out cfg = Inr lg"
  shows "\<exists>w lvl. lg_logger lg = Some (ZHook (ZLevel (ZNew w) lvl) cell)"
  using assms by (auto simp: NewLogger_def split: if_splits prod.splits option.splits sum.splits)

text \<open>Events of the logger and of its components: what the program builds with \<open>Debug\<close>, \<open>Info\<close>,
  \<open>Warn\<close> and \<open>Error\<close> and any fields.\<close>

definition logged_by :: "'w Logger \<Rightarrow> 'w zevent \<Rightarrow> bool" where
  "logged_by root e \<longleftrightarrow> (\<exists>l z. component_of root l \<and> lg_logger l = Some z \<and> zevent_logger e = z)"

lemma logged_by_hooks:
  assumes "NewLogger cell out cfg = Inr lg" and "logged_by lg e"
  shows "zlogger_hooks (zevent_logger e) = [cell]"
proof -
  obtain l z where l: "component_of lg l" "lg_logger l = Some z" "zevent_logger e = z"
    using assms(2) by (auto simp: logged_by_def)
  obtain w lvl where "lg_logger lg = Some (ZHook (ZLevel (ZNew w) lvl) cell)"
    using NewLogger_shape [OF assms(1)] by blast
  with component_of_hooks [OF l(1) this] l show ?thesis by auto
qed

lemma logged_by_methods:
  assumes "component_of root l" and "lg_logger root = Some z"
    and "log_Debug (Some l) ev = Return e \<or> log_Info (Some l) ev = Return e \<or>
      log_Warn (Some l) ev = Return e \<or> log_Error (Some l) ev = Return e"
  shows "logged_by root e"
proof -
  from component_of_hooks [OF assms(1,2)] obtain z' where z': "lg_logger l = Some z'" by blast
  then have "zevent_logger e = z'"
    using assms(3)
    by (auto simp: log_Debug_def log_Info_def log_Warn_def log_Error_def mustLogger_def)
  with assms(1) z' show ?thesis by (auto simp: logged_by_def)
qed

lemma emit_all_sequence:
  assumes "\<forall>(now, e) \<in> set es. zlogger_hooks (zevent_logger e) = [cell]"
  shows "map (uint_field fieldMonotonicSequence) (fst (emit_all emits es \<sigma>)) =
           map (\<lambda>k. Some (\<sigma> cell + of_nat (Suc k))) [0..<length (filter (emits \<circ> snd) es)]"
  using assms
proof (induction es arbitrary: \<sigma>)
  case (Cons x es)
  obtain now e where x: "x = (now, e)" by (cases x)
  show ?case
  proof (cases "emits e")
    case True
    let ?\<sigma> = "\<sigma>(cell := \<sigma> cell + 1)"
    have hooks: "\<forall>(now, e) \<in> set es. zlogger_hooks (zevent_logger e) = [cell]" using Cons.prems by simp
    have "map (uint_field fieldMonotonicSequence) (fst (emit_all emits es ?\<sigma>)) =
        map (\<lambda>k. Some (?\<sigma> cell + of_nat (Suc k))) [0..<length (filter (emits \<circ> snd) es)]"
      by (rule Cons.IH [OF hooks])
    moreover have "map (\<lambda>k. Some (?\<sigma> cell + of_nat (Suc k))) [0..<n] = map (\<lambda>k. Some (\<sigma> cell + of_nat (Suc k))) [1..<Suc n]"
      for n by (induction n) (auto simp: algebra_simps)
    ultimately show ?thesis
      using True Cons.prems x
      by (simp add: metadataHook_Run_def split_beta upt_conv_Cons o_def del: upt_Suc)
  next
    case False
    then show ?thesis using Cons x by simp
  qed
qed simp

subsection \<open>Properties\<close>

fun zwriter_sync :: "'w zwriter \<Rightarrow> 'w option" where
  "zwriter_sync (ZSyncWriter w) = Some w"
| "zwriter_sync (ZConsoleWriter z nocolor fmt) = zwriter_sync z"

text \<open>C36: constructing a logger: a missing writer, typed nil pointers included, is refused
  first, then a level and then a format outside the supported ones, each with its own
  sentinel; otherwise the logger writes through a synchronized writer at the level asked for,
  with one counter hook. The defaults are accepted.\<close>

theorem new_logger_outcomes:
  shows "(NewLogger cell out cfg = Inl (Sentinel ErrNilLogWriter) \<longleftrightarrow> isNilWriter out) \<and>
    (errors_is (error_of (NewLogger cell out cfg)) (Sentinel ErrInvalidLogLevel) \<longleftrightarrow>
       \<not> isNilWriter out \<and> cfg_level cfg \<notin> {LevelDebug, LevelInfo, LevelWarn, LevelError, LevelDisabled}) \<and>
    (errors_is (error_of (NewLogger cell out cfg)) (Sentinel ErrInvalidLogFormat) \<longleftrightarrow>
       \<not> isNilWriter out \<and> cfg_level cfg \<in> {LevelDebug, LevelInfo, LevelWarn, LevelError, LevelDisabled} \<and>
       cfg_format cfg \<notin> {FormatJSON, FormatConsole}) \<and>
    ((\<exists>lg w lvl. NewLogger cell out cfg = Inr lg \<and>
         lg_logger lg = Some (ZHook (ZLevel (ZNew w) lvl) cell) \<and> zwriter_sync w = Some (lw_out out) \<and>
         parseLevel (cfg_level cfg) = (lvl, None)) \<longleftrightarrow>
       \<not> isNilWriter out \<and> cfg_level cfg \<in> {LevelDebug, LevelInfo, LevelWarn, LevelError, LevelDisabled} \<and>
       cfg_format cfg \<in> {FormatJSON, FormatConsole}) \<and>
    (isNilWriter out \<or> (\<exists>lg. NewLogger cell out DefaultLogConfig = Inr lg))"
proof -
  have lvl: "snd (parseLevel x) = None \<longleftrightarrow> x \<in> {LevelDebug, LevelInfo, LevelWarn, LevelError, LevelDisabled}"
    and lvl_err: "snd (parseLevel x) = Some e \<Longrightarrow> e = Errorf ''%w: %q'' [FmtString x] (Sentinel ErrInvalidLogLevel)" for x e
    by (auto simp: parseLevel_def split: if_splits)
  have fmt: "(\<exists>w. logWriter (lw_out out) f = Inr w \<and> zwriter_sync w = Some (lw_out out)) \<longleftrightarrow> f \<in> {FormatJSON, FormatConsole}"
    and fmt_err: "logWriter (lw_out out) f = Inl e \<longleftrightarrow> f \<notin> {FormatJSON, FormatConsole} \<and>
        e = Errorf ''%w: %q'' [FmtString f] (Sentinel ErrInvalidLogFormat)" for f e
    by (auto simp: logWriter_def Let_def)
  have default: "parseLevel LevelInfo = (ZInfo, None)" "logWriter (lw_out out) FormatJSON = Inr (ZSyncWriter (lw_out out))"
    by (simp_all add: parseLevel_def logWriter_def log_level_defs)
  consider (nil) "isNilWriter out"
    | (level) e l where "\<not> isNilWriter out" "parseLevel (cfg_level cfg) = (l, Some e)"
    | (format) e l where "\<not> isNilWriter out" "parseLevel (cfg_level cfg) = (l, None)" "logWriter (lw_out out) (cfg_format cfg) = Inl e"
    | (ok) w l where "\<not> isNilWriter out" "parseLevel (cfg_level cfg) = (l, None)" "logWriter (lw_out out) (cfg_format cfg) = Inr w"
    by (metis option.exhaust prod.exhaust sum.exhaust)
  then show ?thesis
  proof cases
    case nil
    then show ?thesis by (simp add: NewLogger_def)
  next
    case level
    then have "e = Errorf ''%w: %q'' [FmtString (cfg_level cfg)] (Sentinel ErrInvalidLogLevel)"
      using lvl_err [of "cfg_level cfg" e] by simp
    moreover have "cfg_level cfg \<notin> {LevelDebug, LevelInfo, LevelWarn, LevelError, LevelDisabled}"
      using lvl [of "cfg_level cfg"] level by simp
    ultimately show ?thesis using level default
      by (simp add: NewLogger_def DefaultLogConfig_def)
  next
    case format
    then show ?thesis
      using lvl [of "cfg_level cfg"] fmt_err [of "cfg_format cfg" e] default
      by (simp add: NewLogger_def DefaultLogConfig_def)
  next
    case ok
    then have "cfg_format cfg \<in> {FormatJSON, FormatConsole}"
      using fmt_err [of "cfg_format cfg"] by (metis sum.distinct(1))
    moreover from this have "zwriter_sync w = Some (lw_out out)"
      using fmt [of "cfg_format cfg"] ok by auto
    ultimately show ?thesis
      using ok lvl [of "cfg_level cfg"] default by (simp add: NewLogger_def DefaultLogConfig_def)
  qed
qed

text \<open>C35: one logger and all the component loggers derived from it number their lines without
  gaps or repetitions: whatever zerolog chooses to emit, by level, of any events of theirs,
  the emitted lines carry the sequence numbers 1, 2, 3, ..., pairwise distinct up to 2^64
  lines.\<close>

theorem log_sequence_gapless:
  assumes "NewLogger cell out cfg = Inr lg" and "\<forall>(now, e) \<in> set es. logged_by lg e" and "\<sigma> cell = 0"
    and "length es < 2 ^ 64"
  shows "map (uint_field fieldMonotonicSequence) (fst (emit_all emits es \<sigma>)) =
           map (\<lambda>k. Some (of_nat (Suc k))) [0..<length (filter (emits \<circ> snd) es)] \<and>
         distinct (map (uint_field fieldMonotonicSequence) (fst (emit_all emits es \<sigma>)))"
proof -
  let ?n = "length (filter (emits \<circ> snd) es)"
  have "\<forall>(now, e) \<in> set es. zlogger_hooks (zevent_logger e) = [cell]"
    using assms(2) logged_by_hooks [OF assms(1)] by auto
  from emit_all_sequence [OF this, of emits \<sigma>] assms(3)
  have seq: "map (uint_field fieldMonotonicSequence) (fst (emit_all emits es \<sigma>)) =
      map (\<lambda>k. Some (of_nat (Suc k))) [0..<?n]" by simp
  have n: "?n < 2 ^ 64" using assms(4) length_filter_le [of "emits \<circ> snd" es] by linarith
  have "inj_on (\<lambda>k. Some (of_nat (Suc k) :: uint64)) (set [0..<?n])"
  proof (rule inj_onI)
    fix i j
    assume i: "i \<in> set [0..<?n]" and j: "j \<in> set [0..<?n]"
      and "Some (of_nat (Suc i) :: uint64) = Some (of_nat (Suc j))"
    then have "unat (of_nat (Suc i) :: uint64) = unat (of_nat (Suc j) :: uint64)" by simp
    moreover have "Suc i < 2 ^ 64" "Suc j < 2 ^ 64" using i j n by auto
    ultimately show "i = j" by (simp add: unsigned_of_nat take_bit_nat_eq_self del: of_nat_Suc)
  qed
  then have "distinct (map (\<lambda>k. Some (of_nat (Suc k) :: uint64)) [0..<?n])" by (simp add: distinct_map)
  with seq show ?thesis by simp
qed

theorem log_sequence_gapless_witness:
  "\<exists>(lg :: unit Logger) l e1 e2.
     NewLogger 0 \<lparr>lw_value = Dynamic KPointer False, lw_out = ()\<rparr> DefaultLogConfig = Inr lg \<and>
     log_Component (Some lg) ''http'' = Return l \<and> log_Info (Some l) ''a'' = Return e1 \<and>
     log_Error (Some lg) ''b'' = Return e2 \<and>
     map (uint_field fieldMonotonicSequence) (fst (emit_all (\<lambda>e. True) [(''t'', e1), (''u'', e2)] (\<lambda>_. 0))) =
       [Some 1, Some 2]"
proof -
  obtain lg :: "unit Logger" and z where
    lg: "NewLogger 0 \<lparr>lw_value = Dynamic KPointer False, lw_out = ()\<rparr> DefaultLogConfig = Inr lg" "lg_logger lg = Some z"
    by (simp add: NewLogger_def isNilWriter_def DefaultLogConfig_def parseLevel_def logWriter_def log_level_defs)
  obtain l where l: "log_Component (Some lg) ''http'' = Return l" using lg(2) by (simp add: log_Component_def mustLogger_def)
  then have "lg_logger l = Some (ZWithStr z fieldComponent ''http'')" using lg(2) by (auto simp: log_Component_def mustLogger_def)
  then obtain e1 e2 where e: "log_Info (Some l) ''a'' = Return e1" "log_Error (Some lg) ''b'' = Return e2"
    using lg(2) by (simp add: log_Info_def log_Error_def mustLogger_def)
  have by_lg: "logged_by lg e1" "logged_by lg e2"
    using logged_by_methods [OF component_child [OF component_root l] lg(2)] logged_by_methods [OF component_root lg(2)] e
    by blast+
  have "map (uint_field fieldMonotonicSequence) (fst (emit_all (\<lambda>e. True) [(''t'', e1), (''u'', e2)] (\<lambda>_. 0))) =
      map (\<lambda>k. Some (of_nat (Suc k))) [0..<length (filter ((\<lambda>e. True) \<circ> snd) [(''t'', e1), (''u'', e2)])]"
    using log_sequence_gapless [OF lg(1), of "[(''t'', e1), (''u'', e2)]" "\<lambda>_. 0" "\<lambda>e. True"] by_lg by simp
  then have "map (uint_field fieldMonotonicSequence) (fst (emit_all (\<lambda>e. True) [(''t'', e1), (''u'', e2)] (\<lambda>_. 0))) =
      [Some 1, Some 2]" by (simp add: upt_rec)
  then show ?thesis by (intro exI conjI) (rule lg(1), rule l, rule e(1), rule e(2))
qed

end
