(* ===== verification/Go_Context.thy ===== *)
theory Go_Context
  imports Go_Errors
begin

section \<open>Contexts\<close>

text \<open>
  The \<open>context\<close> package as the adapters use it. A context is the term of the calls that derived
  it: \<open>CtxExternal\<close> is one the caller supplies (the process root, the one grpc-go gives an
  RPC), and \<open>WithCancel\<close> and \<open>WithTimeout\<close> own a cancellation cell. The mutable part is a
  \<open>ctx_world\<close>: the error of every external context and of every cell, and the functions
  registered with \<open>AfterFunc\<close>.

  The error of a context is that of the nearest of its ancestors that has one; cancelling a
  cell whose context already has an error does nothing, so the first cancellation wins, as in
  the library.
\<close>

datatype go_ctx =
    CtxExternal nat
  | CtxCancel nat go_ctx
  | CtxValue go_ctx string string
  | CtxTimeout nat duration go_ctx

record ctx_world =
  cw_ext :: "nat \<Rightarrow> std_error option"
  cw_ext_value :: "nat \<Rightarrow> string \<Rightarrow> string option"
  cw_cell :: "nat \<Rightarrow> std_error option"
  cw_next :: nat
  cw_after :: "(go_ctx \<times> nat) list"

fun ctx_err :: "ctx_world \<Rightarrow> go_ctx \<Rightarrow> std_error option" where
  "ctx_err w (CtxExternal n) = cw_ext w n"
| "ctx_err w (CtxCancel c p) = (case cw_cell w c of Some e \<Rightarrow> Some e | None \<Rightarrow> ctx_err w p)"
| "ctx_err w (CtxValue p k v) = ctx_err w p"
| "ctx_err w (CtxTimeout c d p) = (case cw_cell w c of Some e \<Rightarrow> Some e | None \<Rightarrow> ctx_err w p)"

fun ctx_value :: "ctx_world \<Rightarrow> go_ctx \<Rightarrow> string \<Rightarrow> string option" where
  "ctx_value w (CtxExternal n) k = cw_ext_value w n k"
| "ctx_value w (CtxCancel c p) k = ctx_value w p k"
| "ctx_value w (CtxValue p k' v) k = (if k' = k then Some v else ctx_value w p k)"
| "ctx_value w (CtxTimeout c d p) k = ctx_value w p k"

text \<open>The derivations, with the cell that the new context owns.\<close>

definition ctx_with_cancel :: "go_ctx \<Rightarrow> ctx_world \<Rightarrow> (go_ctx \<times> nat) \<times> ctx_world" where
  "ctx_with_cancel p w =
     ((CtxCancel (cw_next w) p, cw_next w),
      w\<lparr>cw_next := Suc (cw_next w), cw_cell := (cw_cell w)(cw_next w := None)\<rparr>)"

definition ctx_with_timeout :: "go_ctx \<Rightarrow> duration \<Rightarrow> ctx_world \<Rightarrow> (go_ctx \<times> nat) \<times> ctx_world" where
  "ctx_with_timeout p d w =
     ((CtxTimeout (cw_next w) d p, cw_next w),
      w\<lparr>cw_next := Suc (cw_next w), cw_cell := (cw_cell w)(cw_next w := None)\<rparr>)"

text \<open>Calling a \<open>CancelFunc\<close>: of the context \<open>ctx\<close> that owns the cell \<open>c\<close>.\<close>

definition ctx_cancel :: "go_ctx \<Rightarrow> nat \<Rightarrow> ctx_world \<Rightarrow> ctx_world" where
  "ctx_cancel ctx c w =
     (if ctx_err w ctx = None then w\<lparr>cw_cell := (cw_cell w)(c := Some ContextCanceled)\<rparr> else w)"

text \<open>\<open>AfterFunc\<close>: the registration (the call itself happens at some later moment, a step of the
  environment) and the stop function it returns.\<close>

definition ctx_after_func :: "go_ctx \<Rightarrow> nat \<Rightarrow> ctx_world \<Rightarrow> ctx_world" where
  "ctx_after_func root c w = w\<lparr>cw_after := (root, c) # cw_after w\<rparr>"

definition ctx_stop_after :: "go_ctx \<Rightarrow> nat \<Rightarrow> ctx_world \<Rightarrow> ctx_world" where
  "ctx_stop_after root c w = w\<lparr>cw_after := removeAll (root, c) (cw_after w)\<rparr>"

text \<open>
  What the rest of the process may do to the world meanwhile: cancel or time out contexts that
  have no error yet. A context that has an error keeps it.
\<close>

definition ctx_evolves :: "ctx_world \<Rightarrow> ctx_world \<Rightarrow> bool" where
  "ctx_evolves w w' \<longleftrightarrow>
     (\<forall>n e. cw_ext w n = Some e \<longrightarrow> cw_ext w' n = Some e) \<and>
     (\<forall>c e. c < cw_next w \<and> cw_cell w c = Some e \<longrightarrow> cw_cell w' c = Some e) \<and>
     cw_ext_value w' = cw_ext_value w \<and> cw_next w \<le> cw_next w'"

fun ctx_cells :: "go_ctx \<Rightarrow> nat set" where
  "ctx_cells (CtxExternal n) = {}"
| "ctx_cells (CtxCancel c p) = insert c (ctx_cells p)"
| "ctx_cells (CtxValue p k v) = ctx_cells p"
| "ctx_cells (CtxTimeout c d p) = insert c (ctx_cells p)"

text \<open>A context that exists: its cells have been allocated.\<close>

definition ctx_valid :: "ctx_world \<Rightarrow> go_ctx \<Rightarrow> bool" where
  "ctx_valid w ctx \<longleftrightarrow> (\<forall>c \<in> ctx_cells ctx. c < cw_next w)"

lemma ctx_evolves_refl [simp]: "ctx_evolves w w"
  by (simp add: ctx_evolves_def)

lemma ctx_evolves_trans: "ctx_evolves u v \<Longrightarrow> ctx_evolves v w \<Longrightarrow> ctx_evolves u w"
  by (auto simp: ctx_evolves_def)

lemma ctx_evolves_err:
  "ctx_evolves w w' \<Longrightarrow> ctx_valid w ctx \<Longrightarrow> ctx_err w ctx \<noteq> None \<Longrightarrow> ctx_err w' ctx \<noteq> None"
  by (induction ctx) (auto simp: ctx_evolves_def ctx_valid_def split: option.splits)

lemma ctx_evolves_valid: "ctx_evolves w w' \<Longrightarrow> ctx_valid w ctx \<Longrightarrow> ctx_valid w' ctx"
  by (auto simp: ctx_evolves_def ctx_valid_def)

lemma ctx_evolves_value: "ctx_evolves w w' \<Longrightarrow> ctx_value w' ctx k = ctx_value w ctx k"
  by (induction ctx) (auto simp: ctx_evolves_def)

lemma ctx_err_cong:
  "cw_ext v = cw_ext w \<Longrightarrow> \<forall>c \<in> ctx_cells ctx. cw_cell v c = cw_cell w c \<Longrightarrow> ctx_err v ctx = ctx_err w ctx"
  by (induction ctx) (auto split: option.splits)

lemma ctx_err_fresh_cell: "c \<notin> ctx_cells ctx \<Longrightarrow> ctx_err (w\<lparr>cw_cell := (cw_cell w)(c := x)\<rparr>) ctx = ctx_err w ctx"
  by (induction ctx) (auto split: option.splits)

lemma ctx_err_more [simp]:
  "ctx_err (w\<lparr>cw_next := n\<rparr>) ctx = ctx_err w ctx"
  "ctx_err (w\<lparr>cw_after := a\<rparr>) ctx = ctx_err w ctx"
  by (induction ctx) (auto split: option.splits)

lemma ctx_value_more [simp]:
  "ctx_value (w\<lparr>cw_next := n\<rparr>) ctx k = ctx_value w ctx k"
  "ctx_value (w\<lparr>cw_after := a\<rparr>) ctx k = ctx_value w ctx k"
  "ctx_value (w\<lparr>cw_cell := x\<rparr>) ctx k = ctx_value w ctx k"
  by (induction ctx) auto

lemma ctx_valid_fresh: "ctx_valid w ctx \<Longrightarrow> cw_next w \<notin> ctx_cells ctx"
  by (auto simp: ctx_valid_def)

text \<open>The root context handed to a constructor: what the interface holds, and the context.\<close>

record root_context =
  rc_value :: interface_value
  rc_ctx :: go_ctx

end
