(* ===== verification/Grpc_Interceptors.thy ===== *)
theory Grpc_Interceptors
  imports Go_Context Request_Ids Health_Bridge Grpc_Lifecycle Logging
begin

section \<open>gRPC interceptors (grpcserver/interceptors.go)\<close>

text \<open>
  The interceptors around every RPC as functions from the request and its environment to the
  effects they have, in order, and the result. What grpc-go and the handler do are parameters
  (\<open>rpc_env\<close>): the incoming metadata, \<open>SetHeader\<close>, the handler, the status package; they may
  return anything, and they may panic. \<open>re_meanwhile1\<close> and \<open>re_meanwhile2\<close> are what the rest of
  the process does to the contexts before the two checks of the request context. A method that
  grpc-go does not know, or a header block over its own limit, is answered by grpc-go and does
  not come here.
\<close>

definition healthCheckMethod :: string where "healthCheckMethod = ''/grpc.health.v1.Health/Check''"
definition healthListMethod :: string where "healthListMethod = ''/grpc.health.v1.Health/List''"
definition healthWatchMethod :: string where "healthWatchMethod = ''/grpc.health.v1.Health/Watch''"

lemmas health_method_defs = healthCheckMethod_def healthListMethod_def healthWatchMethod_def

definition grpc_requestIDContextKey :: string where
  "grpc_requestIDContextKey = ''grpcserver.requestIDContextKey''"

text \<open>The exported accessor, on a context or a nil one.\<close>

definition grpc_RequestID :: "ctx_world \<Rightarrow> go_ctx option \<Rightarrow> string" where
  "grpc_RequestID w ctx =
     (case ctx of
        None \<Rightarrow> ''''
      | Some c \<Rightarrow> (case ctx_value w c grpc_requestIDContextKey of Some requestID \<Rightarrow> requestID | None \<Rightarrow> ''''))"

definition safeRPCMethod :: "string \<Rightarrow> string" where
  "safeRPCMethod method =
     (if method = healthCheckMethod \<or> method = healthListMethod \<or> method = healthWatchMethod then method
      else ''unmatched'')"

definition isUnaryHealthMethod :: "string \<Rightarrow> bool" where
  "isUnaryHealthMethod method \<longleftrightarrow> method = healthCheckMethod \<or> method = healthListMethod"

text \<open>The request context, the function that releases it, and the world after the call.\<close>

definition deriveRequestContext ::
  "go_ctx \<Rightarrow> go_ctx \<Rightarrow> duration \<Rightarrow> string \<Rightarrow> ctx_world \<Rightarrow> (go_ctx \<times> (ctx_world \<Rightarrow> ctx_world)) \<times> ctx_world" where
  "deriveRequestContext incoming root timeout requestID w =
     (let ((requestContext, cancelRoot), w1) = ctx_with_cancel incoming w;
          w2 = ctx_after_func root cancelRoot w1;
          w3 = (if ctx_err w2 root \<noteq> None then ctx_cancel requestContext cancelRoot w2 else w2);
          valueContext = CtxValue requestContext grpc_requestIDContextKey requestID
      in if timeout \<le>s 0 then
           ((valueContext,
             ctx_cancel requestContext cancelRoot \<circ> ctx_stop_after root cancelRoot), w3)
         else
           (let ((timeoutContext, cancelTimeout), w4) = ctx_with_timeout valueContext timeout w3
            in ((timeoutContext,
                 ctx_cancel requestContext cancelRoot \<circ> ctx_stop_after root cancelRoot \<circ>
                 ctx_cancel timeoutContext cancelTimeout), w4)))"

text \<open>The \<open>contextServerStream\<close> that a stream handler gets.\<close>

record contextServerStream =
  css_stream :: nat
  css_context :: go_ctx

definition css_Context :: "contextServerStream \<Rightarrow> go_ctx" where
  "css_Context stream = css_context stream"

subsection \<open>The interceptor set and its environment\<close>

type_synonym rpc_err = "grpc_error go_error"

text \<open>
  \<open>healthRefresher\<close> is a function on the state of the bridge, nil or not; \<open>requestIDs\<close> is a
  pointer: the number of a counter cell. Counters and bridge are shared with the rest of the
  process, so their state (\<open>rpc_shared\<close>) goes in with a call and comes out as the call alone changes it.
\<close>

record 'w interceptorSet =
  is_root :: go_ctx
  is_timeout :: duration
  is_metadataLimit :: uint64
  is_logger :: "'w Logger option"
  is_requestIDs :: nat
  is_healthRefresher :: "(health_bridge \<Rightarrow> health_bridge outcome) option"

record rpc_shared =
  sh_counters :: "nat \<Rightarrow> uint64"
  sh_bridge :: health_bridge

record ('md, 'resp) rpc_env =
  re_from_incoming :: "go_ctx \<Rightarrow> 'md option"
  re_get :: "'md \<Rightarrow> string \<Rightarrow> string list"
  re_fields :: "'md \<Rightarrow> (string \<times> string list) list"
  re_set_header :: "string \<Rightarrow> string \<Rightarrow> rpc_err option outcome"
  re_meanwhile1 :: "ctx_world \<Rightarrow> ctx_world"
  re_handler :: "go_ctx \<Rightarrow> ('resp option \<times> rpc_err option) outcome"
  re_meanwhile2 :: "ctx_world \<Rightarrow> ctx_world"
  re_status_code :: "rpc_err option \<Rightarrow> grpc_code"
  re_code_string :: "grpc_code \<Rightarrow> string"
  re_from_context :: "std_error \<Rightarrow> rpc_err option"
  re_duration_ms :: int

datatype 'w rpc_effect =
    EffSetHeader string string
  | EffRefresh
  | EffHandler go_ctx
  | EffLog "'w zevent" string

definition grpc_logPanic :: "'w interceptorSet \<Rightarrow> string \<Rightarrow> string \<Rightarrow> 'w rpc_effect outcome" where
  "grpc_logPanic is method requestID =
     and_then (log_Error (is_logger is) ''grpc_request_panicked'') (\<lambda>e.
       Return (EffLog (ZStr (ZStr (ZStr e ''transport'' ''grpc'') ''method'' method) ''request_id'' requestID)
         ''gRPC request panic recovered''))"

definition grpc_logCompletion ::
  "'w interceptorSet \<Rightarrow> ('md, 'resp) rpc_env \<Rightarrow> string \<Rightarrow> string \<Rightarrow> grpc_code \<Rightarrow> 'w rpc_effect outcome" where
  "grpc_logCompletion is env method requestID code =
     and_then (log_Info (is_logger is) ''grpc_request_completed'') (\<lambda>e.
       Return (EffLog
         (ZInt (ZStr (ZStr (ZStr (ZStr e ''transport'' ''grpc'') ''method'' method)
            ''status_code'' (re_code_string env code)) ''request_id'' requestID)
            ''duration_ms'' (re_duration_ms env))
         ''gRPC request completed''))"

definition internal_error :: rpc_err where
  "internal_error = StatusError CodeInternal ''internal server error''"

definition exhausted_error :: rpc_err where
  "exhausted_error = StatusError CodeResourceExhausted ''request metadata exceeds limit''"

subsection \<open>Unary calls\<close>

text \<open>What runs between the deferred functions' registration and their execution: the effects,
  the returned values or the panic, and the world.\<close>

definition unary_body ::
  "'w interceptorSet \<Rightarrow> ('md, 'resp) rpc_env \<Rightarrow> string \<Rightarrow> go_ctx \<Rightarrow> string \<Rightarrow> health_bridge \<Rightarrow> ctx_world \<Rightarrow>
     'w rpc_effect list \<times> ('resp option \<times> rpc_err option) outcome \<times> health_bridge \<times> ctx_world" where
  "unary_body is env fullMethod requestContext requestID hb w =
     (let effs = [EffSetHeader requestIDMetadataKey requestID] in
      case re_set_header env requestIDMetadataKey requestID of
        Panic m \<Rightarrow> (effs, Panic m, hb, w)
      | Return (Some _) \<Rightarrow> (effs, Return (None, Some internal_error), hb, w)
      | Return None \<Rightarrow>
          if metadataSize (map_option (re_fields env) (re_from_incoming env requestContext)) > is_metadataLimit is
          then (effs, Return (None, Some exhausted_error), hb, w)
          else
            (let (effs, refreshed) =
               (case is_healthRefresher is of
                  Some refresher \<Rightarrow>
                    if isUnaryHealthMethod fullMethod then (effs @ [EffRefresh], refresher hb) else (effs, Return hb)
                | None \<Rightarrow> (effs, Return hb))
             in case refreshed of
                  Panic m \<Rightarrow> (effs, Panic m, hb, w)
                | Return hb \<Rightarrow>
                    (let w1 = re_meanwhile1 env w in
                     case ctx_err w1 requestContext of
                       Some contextErr \<Rightarrow> (effs, Return (None, re_from_context env contextErr), hb, w1)
                     | None \<Rightarrow>
                         (let effs = effs @ [EffHandler requestContext] in
                          case re_handler env requestContext of
                            Panic m \<Rightarrow> (effs, Panic m, hb, w1)
                          | Return (response, err) \<Rightarrow>
                              (let w2 = re_meanwhile2 env w1 in
                               if err = None then
                                 (case ctx_err w2 requestContext of
                                    Some contextErr \<Rightarrow> (effs, Return (None, re_from_context env contextErr), hb, w2)
                                  | None \<Rightarrow> (effs, Return (response, err), hb, w2))
                               else (effs, Return (response, err), hb, w2))))))"

text \<open>The deferred function: recover, then log the completion.\<close>

definition rpc_deferred ::
  "'w interceptorSet \<Rightarrow> ('md, 'resp) rpc_env \<Rightarrow> string \<Rightarrow> string \<Rightarrow> ('resp option \<times> rpc_err option) outcome \<Rightarrow>
     ('w rpc_effect list \<times> 'resp option \<times> rpc_err option) outcome" where
  "rpc_deferred is env method requestID result =
     and_then
       (case result of
          Panic m \<Rightarrow> and_then (grpc_logPanic is method requestID) (\<lambda>l. Return ([l], None, Some internal_error))
        | Return (response, err) \<Rightarrow> Return ([], response, err))
       (\<lambda>(logs, response, err).
         and_then (grpc_logCompletion is env method requestID (re_status_code env err)) (\<lambda>l.
           Return (logs @ [l], response, err)))"

record ('w, 'resp) rpc_result =
  rr_effects :: "'w rpc_effect list"
  rr_response :: "'resp option"
  rr_err :: "rpc_err option"
  rr_shared :: rpc_shared
  rr_world :: ctx_world

definition grpc_unary ::
  "'w interceptorSet \<Rightarrow> ('md, 'resp) rpc_env \<Rightarrow> go_ctx \<Rightarrow> string \<Rightarrow> rpc_shared \<Rightarrow> ctx_world \<Rightarrow> ('w, 'resp) rpc_result outcome" where
  "grpc_unary is env ctx fullMethod shared w =
     (let method = safeRPCMethod fullMethod;
          (requestID, sequence') =
            requestIDFromMetadata (re_get env) (re_from_incoming env ctx) (sh_counters shared (is_requestIDs is));
          ((requestContext, cleanup), w0) = deriveRequestContext ctx (is_root is) (is_timeout is) requestID w;
          (effs, result, hb, w1) = unary_body is env fullMethod requestContext requestID (sh_bridge shared) w0
      in and_then (rpc_deferred is env method requestID result) (\<lambda>(logs, response, err).
           Return \<lparr>rr_effects = effs @ logs, rr_response = response, rr_err = err,
             rr_shared = \<lparr>sh_counters = (sh_counters shared)(is_requestIDs is := sequence'), sh_bridge = hb\<rparr>,
             rr_world = cleanup w1\<rparr>))"

subsection \<open>Streams\<close>

text \<open>The same for a stream: no deadline of its own, a refresh for \<open>Watch\<close> only, no check of
  the context after the handler.\<close>

definition stream_body ::
  "'w interceptorSet \<Rightarrow> ('md, 'resp) rpc_env \<Rightarrow> string \<Rightarrow> contextServerStream \<Rightarrow> string \<Rightarrow> health_bridge \<Rightarrow> ctx_world \<Rightarrow>
     'w rpc_effect list \<times> ('resp option \<times> rpc_err option) outcome \<times> health_bridge \<times> ctx_world" where
  "stream_body is env fullMethod wrapped requestID hb w =
     (let effs = [EffSetHeader requestIDMetadataKey requestID];
          requestContext = css_Context wrapped in
      case re_set_header env requestIDMetadataKey requestID of
        Panic m \<Rightarrow> (effs, Panic m, hb, w)
      | Return (Some _) \<Rightarrow> (effs, Return (None, Some internal_error), hb, w)
      | Return None \<Rightarrow>
          if metadataSize (map_option (re_fields env) (re_from_incoming env requestContext)) > is_metadataLimit is
          then (effs, Return (None, Some exhausted_error), hb, w)
          else
            (let (effs, refreshed) =
               (case is_healthRefresher is of
                  Some refresher \<Rightarrow>
                    if fullMethod = healthWatchMethod then (effs @ [EffRefresh], refresher hb) else (effs, Return hb)
                | None \<Rightarrow> (effs, Return hb))
             in case refreshed of
                  Panic m \<Rightarrow> (effs, Panic m, hb, w)
                | Return hb \<Rightarrow>
                    (let w1 = re_meanwhile1 env w in
                     case ctx_err w1 requestContext of
                       Some contextErr \<Rightarrow> (effs, Return (None, re_from_context env contextErr), hb, w1)
                     | None \<Rightarrow>
                         (let effs = effs @ [EffHandler requestContext] in
                          case re_handler env requestContext of
                            Panic m \<Rightarrow> (effs, Panic m, hb, w1)
                          | Return (_, err) \<Rightarrow> (effs, Return (None, err), hb, re_meanwhile2 env w1)))))"

definition grpc_stream ::
  "'w interceptorSet \<Rightarrow> ('md, 'resp) rpc_env \<Rightarrow> nat \<Rightarrow> go_ctx \<Rightarrow> string \<Rightarrow> rpc_shared \<Rightarrow> ctx_world \<Rightarrow> ('w, 'resp) rpc_result outcome" where
  "grpc_stream is env stream ctx fullMethod shared w =
     (let method = safeRPCMethod fullMethod;
          (requestID, sequence') =
            requestIDFromMetadata (re_get env) (re_from_incoming env ctx) (sh_counters shared (is_requestIDs is));
          ((requestContext, cleanup), w0) = deriveRequestContext ctx (is_root is) 0 requestID w;
          wrapped = \<lparr>css_stream = stream, css_context = requestContext\<rparr>;
          (effs, result, hb, w1) = stream_body is env fullMethod wrapped requestID (sh_bridge shared) w0
      in and_then (rpc_deferred is env method requestID result) (\<lambda>(logs, response, err).
           Return \<lparr>rr_effects = effs @ logs, rr_response = response, rr_err = err,
             rr_shared = \<lparr>sh_counters = (sh_counters shared)(is_requestIDs is := sequence'), sh_bridge = hb\<rparr>,
             rr_world = cleanup w1\<rparr>))"

subsection \<open>The derived context\<close>

text \<open>The world after the cancellation of the root has been passed on.\<close>

definition derived_world :: "go_ctx \<Rightarrow> go_ctx \<Rightarrow> ctx_world \<Rightarrow> ctx_world" where
  "derived_world incoming root w =
     (let w2 = ctx_after_func root (cw_next w) (snd (ctx_with_cancel incoming w))
      in if ctx_err w2 root \<noteq> None then ctx_cancel (CtxCancel (cw_next w) incoming) (cw_next w) w2 else w2)"

definition release_root :: "go_ctx \<Rightarrow> go_ctx \<Rightarrow> nat \<Rightarrow> ctx_world \<Rightarrow> ctx_world" where
  "release_root incoming root c w = ctx_cancel (CtxCancel c incoming) c (ctx_stop_after root c w)"

lemma derived_next: "cw_next (derived_world incoming root w) = Suc (cw_next w)"
  by (simp add: derived_world_def ctx_with_cancel_def ctx_after_func_def ctx_cancel_def Let_def)

lemma derive_plain:
  "timeout \<le>s 0 \<Longrightarrow> deriveRequestContext incoming root timeout rid w =
     ((CtxValue (CtxCancel (cw_next w) incoming) grpc_requestIDContextKey rid, release_root incoming root (cw_next w)),
      derived_world incoming root w)"
  by (simp add: deriveRequestContext_def ctx_with_cancel_def derived_world_def Let_def release_root_def fun_eq_iff)

lemma derive_timed:
  assumes "\<not> timeout \<le>s 0"
  shows "deriveRequestContext incoming root timeout rid w =
     (let rc = CtxTimeout (Suc (cw_next w)) timeout
            (CtxValue (CtxCancel (cw_next w) incoming) grpc_requestIDContextKey rid)
      in ((rc, release_root incoming root (cw_next w) \<circ> ctx_cancel rc (Suc (cw_next w))),
          (derived_world incoming root w)\<lparr>cw_next := Suc (Suc (cw_next w)),
            cw_cell := (cw_cell (derived_world incoming root w))(Suc (cw_next w) := None)\<rparr>))"
proof -
  have "deriveRequestContext incoming root timeout rid w =
     (let ((rc, c), w4) = ctx_with_timeout (CtxValue (CtxCancel (cw_next w) incoming) grpc_requestIDContextKey rid)
            timeout (derived_world incoming root w)
      in ((rc, release_root incoming root (cw_next w) \<circ> ctx_cancel rc c), w4))"
    using assms
    by (simp add: deriveRequestContext_def ctx_with_cancel_def derived_world_def Let_def release_root_def fun_eq_iff
        split: prod.splits)
  then show ?thesis by (simp add: ctx_with_timeout_def derived_next Let_def)
qed

lemma derived_world_err:
  assumes "ctx_valid w incoming" and "ctx_valid w root"
    and "ctx_err w incoming \<noteq> None \<or> ctx_err w root \<noteq> None"
  shows "ctx_err (derived_world incoming root w) (CtxCancel (cw_next w) incoming) \<noteq> None"
proof -
  have keep: "ctx_err (w\<lparr>cw_next := x, cw_cell := (cw_cell w)(cw_next w := y)\<rparr>) ctx = ctx_err w ctx"
    if "ctx_valid w ctx" for ctx x y
    using ctx_valid_fresh [OF that] by (intro ctx_err_cong) auto
  show ?thesis
    using assms
    by (auto simp: derived_world_def ctx_with_cancel_def ctx_after_func_def ctx_cancel_def Let_def keep
        split: option.splits)
qed

lemma release_root_done:
  "ctx_err (release_root incoming root c w) (CtxCancel c incoming) \<noteq> None"
  "(root, c) \<notin> set (cw_after (release_root incoming root c w))"
  by (simp_all add: release_root_def ctx_cancel_def ctx_stop_after_def)

text \<open>What the derived context is: cancelled as soon as either parent was, carrying the request
  identifier, and cancelled for good and unhooked from the root by its release function.\<close>

lemma derive_facts:
  assumes d: "deriveRequestContext incoming root timeout rid w = ((rc, cleanup), w')"
    and valid: "ctx_valid w incoming" "ctx_valid w root"
  shows "ctx_err w incoming \<noteq> None \<or> ctx_err w root \<noteq> None \<Longrightarrow> ctx_err w' rc \<noteq> None"
    and "ctx_value v rc grpc_requestIDContextKey = Some rid"
    and "ctx_valid w' rc"
    and "ctx_err (cleanup v) rc \<noteq> None"
    and "(root, cw_next w) \<notin> set (cw_after (cleanup v))"
proof -
  let ?c = "cw_next w"
  let ?v = "CtxValue (CtxCancel ?c incoming) grpc_requestIDContextKey rid"
  let ?w3 = "derived_world incoming root w"
  consider (plain) "rc = ?v" "w' = ?w3" "cleanup = release_root incoming root ?c"
    | (timed) "rc = CtxTimeout (Suc ?c) timeout ?v"
        "w' = ?w3\<lparr>cw_next := Suc (Suc ?c), cw_cell := (cw_cell ?w3)(Suc ?c := None)\<rparr>"
        "cleanup = release_root incoming root ?c \<circ> ctx_cancel rc (Suc ?c)"
    using d derive_plain [of timeout incoming root rid w] derive_timed [of timeout incoming root rid w]
    by (cases "timeout \<le>s 0") (auto simp: Let_def)
  note shape = this
  have below: "n < ?c" if "n \<in> ctx_cells incoming" for n using valid that by (simp add: ctx_valid_def)
  then have keep: "ctx_err (?w3\<lparr>cw_next := x, cw_cell := (cw_cell ?w3)(Suc ?c := y)\<rparr>) ?v = ctx_err ?w3 ?v" for x y
    by (intro ctx_err_cong) (auto dest: below)
  have same: "ctx_err w' rc = ctx_err ?w3 ?v"
    using shape
  proof cases
    case timed
    have "ctx_err w' rc = ctx_err w' ?v" unfolding timed by simp
    also have "\<dots> = ctx_err ?w3 ?v" unfolding timed(2) by (rule keep)
    finally show ?thesis .
  qed simp
  show "ctx_err w incoming \<noteq> None \<or> ctx_err w root \<noteq> None \<Longrightarrow> ctx_err w' rc \<noteq> None"
    using derived_world_err [OF valid] by (simp add: same)
  show "ctx_value v rc grpc_requestIDContextKey = Some rid" using shape by cases simp_all
  show "ctx_valid w' rc"
    using shape by cases (auto simp: ctx_valid_def derived_next dest: below)
  show "ctx_err (cleanup v) rc \<noteq> None"
    using shape release_root_done(1) by cases (auto split: option.splits)
  show "(root, cw_next w) \<notin> set (cw_after (cleanup v))"
    using shape release_root_done(2) by cases auto
qed

subsection \<open>Both kinds of call\<close>

text \<open>\<open>New\<close> installs one interceptor for each kind of call; an RPC goes through the one of its
  kind.\<close>

definition grpc_rpc ::
  "bool \<Rightarrow> 'w interceptorSet \<Rightarrow> ('md, 'resp) rpc_env \<Rightarrow> go_ctx \<Rightarrow> string \<Rightarrow> rpc_shared \<Rightarrow> ctx_world \<Rightarrow>
     ('w, 'resp) rpc_result outcome" where
  "grpc_rpc streaming is env ctx fullMethod shared w =
     (if streaming then grpc_stream is env 0 ctx fullMethod shared w
      else grpc_unary is env ctx fullMethod shared w)"

definition rpc_refreshes :: "bool \<Rightarrow> string \<Rightarrow> bool" where
  "rpc_refreshes streaming fullMethod \<longleftrightarrow>
     (if streaming then fullMethod = healthWatchMethod else isUnaryHealthMethod fullMethod)"

definition rpc_refresh_effects :: "bool \<Rightarrow> 'w interceptorSet \<Rightarrow> string \<Rightarrow> 'w rpc_effect list" where
  "rpc_refresh_effects streaming is fullMethod =
     (if is_healthRefresher is \<noteq> None \<and> rpc_refreshes streaming fullMethod then [EffRefresh] else [])"

definition rpc_body ::
  "bool \<Rightarrow> 'w interceptorSet \<Rightarrow> ('md, 'resp) rpc_env \<Rightarrow> string \<Rightarrow> go_ctx \<Rightarrow> string \<Rightarrow> health_bridge \<Rightarrow>
     ctx_world \<Rightarrow> 'w rpc_effect list \<times> ('resp option \<times> rpc_err option) outcome \<times> health_bridge \<times> ctx_world" where
  "rpc_body streaming is env fullMethod rc rid hb w =
     (if streaming then stream_body is env fullMethod \<lparr>css_stream = 0, css_context = rc\<rparr> rid hb w
      else unary_body is env fullMethod rc rid hb w)"

lemma grpc_rpc_eq:
  "grpc_rpc streaming is env ctx fullMethod shared w =
     (let (rid, sequence') =
            requestIDFromMetadata (re_get env) (re_from_incoming env ctx) (sh_counters shared (is_requestIDs is));
          ((rc, cleanup), w0) = deriveRequestContext ctx (is_root is) (if streaming then 0 else is_timeout is) rid w;
          (effs, result, hb, w1) = rpc_body streaming is env fullMethod rc rid (sh_bridge shared) w0
      in and_then (rpc_deferred is env (safeRPCMethod fullMethod) rid result) (\<lambda>(logs, response, err).
           Return \<lparr>rr_effects = effs @ logs, rr_response = response, rr_err = err,
             rr_shared = \<lparr>sh_counters = (sh_counters shared)(is_requestIDs is := sequence'), sh_bridge = hb\<rparr>,
             rr_world = cleanup w1\<rparr>))"
  by (simp add: grpc_rpc_def grpc_unary_def grpc_stream_def rpc_body_def Let_def split_beta)

text \<open>What the guarded part did, by how far it came.\<close>

datatype rpc_progress = StoppedAtHeader | StoppedAtLimit | StoppedAtRefresh | StoppedAtContext | Handled

definition rpc_reached ::
  "bool \<Rightarrow> 'w interceptorSet \<Rightarrow> ('md, 'resp) rpc_env \<Rightarrow> string \<Rightarrow> go_ctx \<Rightarrow> string \<Rightarrow>
     health_bridge \<Rightarrow> ctx_world \<Rightarrow> rpc_progress" where
  "rpc_reached streaming is env fullMethod rc rid hb w =
     (if re_set_header env requestIDMetadataKey rid \<noteq> Return None then StoppedAtHeader
      else if metadataSize (map_option (re_fields env) (re_from_incoming env rc)) > is_metadataLimit is then StoppedAtLimit
      else if rpc_refreshes streaming fullMethod \<and> (\<exists>f m. is_healthRefresher is = Some f \<and> f hb = Panic m) then StoppedAtRefresh
      else if ctx_err (re_meanwhile1 env w) rc \<noteq> None then StoppedAtContext
      else Handled)"

lemma rpc_body_effects:
  assumes "rpc_body streaming is env fullMethod rc rid hb w = (effs, result, hb1, w1)"
  shows "effs = (case rpc_reached streaming is env fullMethod rc rid hb w of
      StoppedAtHeader \<Rightarrow> [EffSetHeader requestIDMetadataKey rid]
    | StoppedAtLimit \<Rightarrow> [EffSetHeader requestIDMetadataKey rid]
    | StoppedAtRefresh \<Rightarrow> EffSetHeader requestIDMetadataKey rid # rpc_refresh_effects streaming is fullMethod
    | StoppedAtContext \<Rightarrow> EffSetHeader requestIDMetadataKey rid # rpc_refresh_effects streaming is fullMethod
    | Handled \<Rightarrow> EffSetHeader requestIDMetadataKey rid # rpc_refresh_effects streaming is fullMethod @ [EffHandler rc])"
  using assms
  by (cases streaming)
    (auto simp: rpc_body_def unary_body_def stream_body_def rpc_reached_def rpc_refresh_effects_def rpc_refreshes_def
      Let_def css_Context_def split: outcome.splits option.splits if_splits)

text \<open>What the guarded part returned, by the same cases.\<close>

lemma rpc_body_result:
  assumes "rpc_body streaming is env fullMethod rc rid hb w = (effs, result, hb1, w1)" and "result = Return (response, err)"
  shows "case rpc_reached streaming is env fullMethod rc rid hb w of
      StoppedAtHeader \<Rightarrow> response = None \<and> err = Some internal_error
    | StoppedAtLimit \<Rightarrow> response = None \<and> err = Some exhausted_error
    | StoppedAtRefresh \<Rightarrow> False
    | StoppedAtContext \<Rightarrow> response = None \<and> (\<exists>e. ctx_err (re_meanwhile1 env w) rc = Some e \<and> err = re_from_context env e)
    | Handled \<Rightarrow>
        (case re_handler env rc of
           Panic m \<Rightarrow> False
         | Return (r, e) \<Rightarrow>
             if streaming then response = None \<and> err = e
             else if e \<noteq> None then response = r \<and> err = e
             else (case ctx_err (re_meanwhile2 env (re_meanwhile1 env w)) rc of
                 None \<Rightarrow> response = r \<and> err = None
               | Some x \<Rightarrow> response = None \<and> err = re_from_context env x))"
  using assms
  by (cases streaming)
    (auto simp: rpc_body_def unary_body_def stream_body_def rpc_reached_def rpc_refreshes_def Let_def css_Context_def
      split: outcome.splits option.splits if_splits)

lemma rpc_body_panic:
  assumes "rpc_body streaming is env fullMethod rc rid hb w = (effs, Panic m, hb1, w1)"
  shows "re_set_header env requestIDMetadataKey rid = Panic m \<or> (\<exists>f. is_healthRefresher is = Some f \<and> f hb = Panic m) \<or>
    re_handler env rc = Panic m"
  using assms
  by (cases streaming)
    (auto simp: rpc_body_def unary_body_def stream_body_def Let_def css_Context_def
      split: outcome.splits option.splits if_splits)

text \<open>What it did to the bridge: the refresher's change when it called it, nothing otherwise.\<close>

lemma rpc_body_bridge:
  assumes "rpc_body streaming is env fullMethod rc rid hb w = (effs, result, hb1, w1)"
  shows "case rpc_reached streaming is env fullMethod rc rid hb w of
      StoppedAtHeader \<Rightarrow> hb1 = hb
    | StoppedAtLimit \<Rightarrow> hb1 = hb
    | StoppedAtRefresh \<Rightarrow> hb1 = hb
    | _ \<Rightarrow> (case is_healthRefresher is of
          Some refresher \<Rightarrow> (if rpc_refreshes streaming fullMethod then refresher hb else Return hb) = Return hb1
        | None \<Rightarrow> hb1 = hb)"
  using assms
  by (cases streaming)
    (auto simp: rpc_body_def unary_body_def stream_body_def rpc_reached_def rpc_refreshes_def Let_def css_Context_def
      split: outcome.splits option.splits if_splits)

text \<open>The deferred function never panics on a logger made by the observability package.\<close>

definition completion_event ::
  "'w zlogger \<Rightarrow> ('md, 'resp) rpc_env \<Rightarrow> string \<Rightarrow> string \<Rightarrow> rpc_err option \<Rightarrow> 'w zevent" where
  "completion_event z env method rid err =
     ZInt (ZStr (ZStr (ZStr (ZStr (ZStr (ZStart z ZInfo) fieldEvent ''grpc_request_completed'')
       ''transport'' ''grpc'') ''method'' method) ''status_code'' (re_code_string env (re_status_code env err)))
       ''request_id'' rid) ''duration_ms'' (re_duration_ms env)"

definition panic_event :: "'w zlogger \<Rightarrow> string \<Rightarrow> string \<Rightarrow> 'w zevent" where
  "panic_event z method rid =
     ZStr (ZStr (ZStr (ZStr (ZStart z ZError) fieldEvent ''grpc_request_panicked'')
       ''transport'' ''grpc'') ''method'' method) ''request_id'' rid"

lemma rpc_deferred_eq:
  assumes "is_logger is = Some lg" and "lg_logger lg = Some z"
  shows "rpc_deferred is env method rid result =
    (case result of
       Panic m \<Rightarrow> Return ([EffLog (panic_event z method rid) ''gRPC request panic recovered'',
           EffLog (completion_event z env method rid (Some internal_error)) ''gRPC request completed''],
           None, Some internal_error)
     | Return (response, err) \<Rightarrow>
         Return ([EffLog (completion_event z env method rid err) ''gRPC request completed''], response, err))"
  using assms
  by (auto simp: rpc_deferred_def grpc_logPanic_def grpc_logCompletion_def log_Error_def log_Info_def mustLogger_def
      panic_event_def completion_event_def split: outcome.splits prod.splits)

text \<open>The documented behaviour of \<open>metadata.FromIncomingContext\<close>: the metadata is a value of the
  context, so a derived context has its parent's.\<close>

definition incoming_contract :: "(go_ctx \<Rightarrow> 'md option) \<Rightarrow> bool" where
  "incoming_contract from_incoming \<longleftrightarrow>
     (\<forall>c d k v p. from_incoming (CtxCancel c p) = from_incoming p \<and>
        from_incoming (CtxTimeout c d p) = from_incoming p \<and>
        from_incoming (CtxValue p k v) = from_incoming p)"

lemma derive_incoming:
  assumes "incoming_contract f" and "deriveRequestContext ctx root timeout rid w = ((rc, cleanup), w')"
  shows "f rc = f ctx"
  using assms derive_plain [of timeout ctx root rid w] derive_timed [of timeout ctx root rid w]
  by (cases "timeout \<le>s 0") (auto simp: incoming_contract_def Let_def)

text \<open>One RPC taken apart: its identifier, its context, the guarded part and the log lines.\<close>

lemma grpc_rpc_cases:
  assumes res: "grpc_rpc streaming is env ctx m shared w = Return res"
    and log: "is_logger is = Some lg" "lg_logger lg = Some z"
  obtains rid rc cleanup w0 effs result hb w1 where
    "fst (requestIDFromMetadata (re_get env) (re_from_incoming env ctx) (sh_counters shared (is_requestIDs is))) = rid"
    "deriveRequestContext ctx (is_root is) (if streaming then 0 else is_timeout is) rid w = ((rc, cleanup), w0)"
    "rpc_body streaming is env m rc rid (sh_bridge shared) w0 = (effs, result, hb, w1)"
    "rr_effects res = effs @ (case result of Panic x \<Rightarrow>
        [EffLog (panic_event z (safeRPCMethod m) rid) ''gRPC request panic recovered''] | Return y \<Rightarrow> []) @
        [EffLog (completion_event z env (safeRPCMethod m) rid (rr_err res)) ''gRPC request completed'']"
    "(rr_response res, rr_err res) =
       (case result of Panic x \<Rightarrow> (None, Some internal_error) | Return y \<Rightarrow> y)"
    "rr_world res = cleanup w1" "sh_bridge (rr_shared res) = hb"
proof -
  obtain rid seq' where id: "requestIDFromMetadata (re_get env) (re_from_incoming env ctx) (sh_counters shared (is_requestIDs is)) = (rid, seq')"
    by fastforce
  obtain rc cleanup w0 where d:
    "deriveRequestContext ctx (is_root is) (if streaming then 0 else is_timeout is) rid w = ((rc, cleanup), w0)"
    by (metis prod.exhaust)
  obtain effs result hb w1 where b: "rpc_body streaming is env m rc rid (sh_bridge shared) w0 = (effs, result, hb, w1)"
    by (metis prod.exhaust)
  note eq = res [unfolded grpc_rpc_eq id d Let_def prod.case b rpc_deferred_eq [OF log]]
  show thesis
  proof (rule that [OF _ d b])
    show "fst (requestIDFromMetadata (re_get env) (re_from_incoming env ctx) (sh_counters shared (is_requestIDs is))) = rid" by (simp add: id)
  qed (use eq in \<open>auto split: outcome.splits\<close>)
qed

lemma grpc_rpc_returns:
  assumes "is_logger is = Some lg" and "lg_logger lg = Some z"
  shows "\<exists>res. grpc_rpc streaming is env ctx m shared w = Return res"
  by (simp add: grpc_rpc_eq rpc_deferred_eq [OF assms] split: prod.splits outcome.splits)

subsection \<open>Properties\<close>

text \<open>C11: what stands between a client and a handler, for unary calls and streams alike: whatever
  grpc-go, the health service and the handler do, if the handler runs then neither the
  incoming context nor the process root had ended when the call arrived, the incoming
  metadata is within the limit, the response header with the request identifier was set
  first, the refresh came before it (exactly for the health methods of the call's kind) and left
  the bridge as the refresher leaves it, untouched where there was none, the identifier that the handler reads from its context is that one, safe to log, and the handler
  runs once.\<close>

theorem grpc_handler_guarded:
  assumes res: "grpc_rpc streaming is env ctx m shared w = Return res"
    and log: "is_logger is = Some lg" "lg_logger lg = Some z"
    and valid: "ctx_valid w ctx" "ctx_valid w (is_root is)"
    and env: "incoming_contract (re_from_incoming env)" "\<And>v. ctx_evolves v (re_meanwhile1 env v)"
    and handled: "EffHandler c \<in> set (rr_effects res)"
  shows "ctx_err w ctx = None \<and> ctx_err w (is_root is) = None \<and>
    metadataSize (map_option (re_fields env) (re_from_incoming env ctx)) \<le> is_metadataLimit is \<and>
    safe_id (grpc_RequestID w (Some c)) \<and>
    (\<exists>refresh logs. rr_effects res =
        EffSetHeader requestIDMetadataKey (grpc_RequestID w (Some c)) # refresh @ EffHandler c # logs \<and>
      refresh = (if is_healthRefresher is \<noteq> None \<and> rpc_refreshes streaming m then [EffRefresh] else []) \<and>
      (\<forall>d. EffHandler d \<notin> set logs)) \<and>
    (case is_healthRefresher is of
       Some refresher \<Rightarrow>
         (if rpc_refreshes streaming m then refresher (sh_bridge shared) else Return (sh_bridge shared)) =
           Return (sh_bridge (rr_shared res))
     | None \<Rightarrow> sh_bridge (rr_shared res) = sh_bridge shared)"
proof -
  obtain rid rc cleanup w0 effs result hb w1 where id:
      "fst (requestIDFromMetadata (re_get env) (re_from_incoming env ctx) (sh_counters shared (is_requestIDs is))) = rid"
    and d: "deriveRequestContext ctx (is_root is) (if streaming then 0 else is_timeout is) rid w = ((rc, cleanup), w0)"
    and b: "rpc_body streaming is env m rc rid (sh_bridge shared) w0 = (effs, result, hb, w1)"
    and e: "rr_effects res = effs @ (case result of Panic x \<Rightarrow>
        [EffLog (panic_event z (safeRPCMethod m) rid) ''gRPC request panic recovered''] | Return y \<Rightarrow> []) @
        [EffLog (completion_event z env (safeRPCMethod m) rid (rr_err res)) ''gRPC request completed'']"
    and bridge: "sh_bridge (rr_shared res) = hb"
    by (rule grpc_rpc_cases [OF res log])
  have "EffHandler c \<in> set effs" using handled e by (auto split: outcome.splits)
  then have reached: "rpc_reached streaming is env m rc rid (sh_bridge shared) w0 = Handled" and c: "c = rc"
    and effs: "effs = EffSetHeader requestIDMetadataKey rid # rpc_refresh_effects streaming is m @ [EffHandler rc]"
    using rpc_body_effects [OF b]
    by (auto simp: rpc_refresh_effects_def split: rpc_progress.splits if_splits)
  note ctx = derive_facts [OF d valid]
  have "ctx_err (re_meanwhile1 env w0) rc = None"
    using reached by (auto simp: rpc_reached_def split: if_splits)
  with ctx_evolves_err [OF env(2) ctx(3)] have "ctx_err w0 rc = None" by blast
  with ctx(1) have live: "ctx_err w ctx = None" "ctx_err w (is_root is) = None" by blast+
  have size: "metadataSize (map_option (re_fields env) (re_from_incoming env ctx)) \<le> is_metadataLimit is"
    using reached by (auto simp: rpc_reached_def derive_incoming [OF env(1) d] split: if_splits)
  have rid: "grpc_RequestID w (Some c) = rid" using ctx(2) [of w] by (simp add: grpc_RequestID_def c)
  have "safe_id rid" using id grpc_ids.assign_safe by blast
  moreover have "\<exists>logs. rr_effects res =
      EffSetHeader requestIDMetadataKey rid # rpc_refresh_effects streaming is m @ EffHandler c # logs \<and>
      (\<forall>d. EffHandler d \<notin> set logs)"
    using e effs c by (auto split: outcome.splits)
  moreover have "case is_healthRefresher is of
       Some refresher \<Rightarrow>
         (if rpc_refreshes streaming m then refresher (sh_bridge shared) else Return (sh_bridge shared)) =
           Return (sh_bridge (rr_shared res))
     | None \<Rightarrow> sh_bridge (rr_shared res) = sh_bridge shared"
    using rpc_body_bridge [OF b] reached bridge by (simp split: option.splits if_splits)
  ultimately show ?thesis using live size by (auto simp: rid rpc_refresh_effects_def)
qed

text \<open>C10: failures are contained: with a logger made by the observability package an RPC always
  returns, whatever panics inside it; a panic yields the one internal error, without
  response and without a trace of what panicked; exactly one completion line is logged, as
  the last effect, with a method from a fixed set, a safe identifier and the code of the
  error returned.\<close>

theorem grpc_failures_contained:
  assumes log: "is_logger is = Some lg" "lg_logger lg = Some z"
  shows "\<exists>res rid effs. grpc_rpc streaming is env ctx m shared w = Return res \<and> safe_id rid \<and>
    rr_effects res = effs @ [EffLog (completion_event z env (safeRPCMethod m) rid (rr_err res)) ''gRPC request completed''] \<and>
    (\<forall>ev msg. EffLog ev msg \<in> set effs \<longrightarrow>
       ev = panic_event z (safeRPCMethod m) rid \<and> rr_response res = None \<and> rr_err res = Some internal_error) \<and>
    (\<forall>c p. EffHandler c \<in> set effs \<and> re_handler env c = Panic p \<longrightarrow>
       rr_response res = None \<and> rr_err res = Some internal_error) \<and>
    safeRPCMethod m \<in> {healthCheckMethod, healthListMethod, healthWatchMethod, ''unmatched''}"
proof -
  obtain res where res: "grpc_rpc streaming is env ctx m shared w = Return res" using grpc_rpc_returns [OF log] by blast
  obtain rid rc cleanup w0 effs result hb w1 where id:
      "fst (requestIDFromMetadata (re_get env) (re_from_incoming env ctx) (sh_counters shared (is_requestIDs is))) = rid"
    and "deriveRequestContext ctx (is_root is) (if streaming then 0 else is_timeout is) rid w = ((rc, cleanup), w0)"
    and b: "rpc_body streaming is env m rc rid (sh_bridge shared) w0 = (effs, result, hb, w1)"
    and e: "rr_effects res = effs @ (case result of Panic x \<Rightarrow>
        [EffLog (panic_event z (safeRPCMethod m) rid) ''gRPC request panic recovered''] | Return y \<Rightarrow> []) @
        [EffLog (completion_event z env (safeRPCMethod m) rid (rr_err res)) ''gRPC request completed'']"
    and r: "(rr_response res, rr_err res) = (case result of Panic x \<Rightarrow> (None, Some internal_error) | Return y \<Rightarrow> y)"
    by (rule grpc_rpc_cases [OF res log])
  let ?pl = "case result of Panic x \<Rightarrow>
        [EffLog (panic_event z (safeRPCMethod m) rid) ''gRPC request panic recovered''] | Return y \<Rightarrow> []"
  have nolog: "EffLog ev msg \<notin> set effs" for ev msg
    using rpc_body_effects [OF b] by (auto simp: rpc_refresh_effects_def split: rpc_progress.splits if_splits)
  have panic: "\<exists>x. result = Panic x" if "EffHandler c \<in> set effs" "re_handler env c = Panic p" for c p
  proof -
    have "rpc_reached streaming is env m rc rid (sh_bridge shared) w0 = Handled" "c = rc"
      using that(1) rpc_body_effects [OF b]
      by (auto simp: rpc_refresh_effects_def split: rpc_progress.splits if_splits)
    with that(2) rpc_body_result [OF b] show ?thesis by (cases result) (auto split: prod.splits)
  qed
  have safe: "safe_id rid" using id grpc_ids.assign_safe by blast
  have logs: "\<forall>ev msg. EffLog ev msg \<in> set (effs @ ?pl) \<longrightarrow>
       ev = panic_event z (safeRPCMethod m) rid \<and> rr_response res = None \<and> rr_err res = Some internal_error"
    using nolog r by (auto split: outcome.splits)
  have panics: "\<forall>c p. EffHandler c \<in> set (effs @ ?pl) \<and> re_handler env c = Panic p \<longrightarrow>
       rr_response res = None \<and> rr_err res = Some internal_error"
    using panic r by (auto split: outcome.splits)
  have all: "rr_effects res = (effs @ ?pl) @
      [EffLog (completion_event z env (safeRPCMethod m) rid (rr_err res)) ''gRPC request completed'']"
    using e by simp
  show ?thesis
    by (intro exI conjI) (rule res, rule safe, rule all, rule logs, rule panics, simp add: safeRPCMethod_def)
qed

text \<open>C26: a success is the handler's, and the call leaves nothing behind: an RPC that returns no
  error has run its handler, which returned no error, with the handler's response when it is
  unary; and when an RPC that ran its handler is over, the context the handler was given has
  ended and the function that the call registered on the process root is gone.\<close>

theorem grpc_success_and_release:
  assumes res: "grpc_rpc streaming is env ctx m shared w = Return res"
    and log: "is_logger is = Some lg" "lg_logger lg = Some z"
    and valid: "ctx_valid w ctx" "ctx_valid w (is_root is)"
    and status: "\<And>e. re_from_context env e \<noteq> None"
  shows "(rr_err res = None \<longrightarrow>
      (\<exists>c r. EffHandler c \<in> set (rr_effects res) \<and> re_handler env c = Return (r, None) \<and>
         rr_response res = (if streaming then None else r))) \<and>
    (\<forall>c. EffHandler c \<in> set (rr_effects res) \<longrightarrow>
       ctx_err (rr_world res) c \<noteq> None \<and> (is_root is, cw_next w) \<notin> set (cw_after (rr_world res)))"
proof -
  obtain rid rc cleanup w0 effs result hb w1 where
        d: "deriveRequestContext ctx (is_root is) (if streaming then 0 else is_timeout is) rid w = ((rc, cleanup), w0)"
    and b: "rpc_body streaming is env m rc rid (sh_bridge shared) w0 = (effs, result, hb, w1)"
    and e: "rr_effects res = effs @ (case result of Panic x \<Rightarrow>
        [EffLog (panic_event z (safeRPCMethod m) rid) ''gRPC request panic recovered''] | Return y \<Rightarrow> []) @
        [EffLog (completion_event z env (safeRPCMethod m) rid (rr_err res)) ''gRPC request completed'']"
    and r: "(rr_response res, rr_err res) = (case result of Panic x \<Rightarrow> (None, Some internal_error) | Return y \<Rightarrow> y)"
    and w: "rr_world res = cleanup w1"
    by (rule grpc_rpc_cases [OF res log])
  have handled: "c = rc \<and> rpc_reached streaming is env m rc rid (sh_bridge shared) w0 = Handled"
    if "EffHandler c \<in> set (rr_effects res)" for c
    using that e rpc_body_effects [OF b]
    by (auto simp: rpc_refresh_effects_def split: rpc_progress.splits if_splits outcome.splits)
  have ran: "EffHandler rc \<in> set (rr_effects res)" if "rpc_reached streaming is env m rc rid (sh_bridge shared) w0 = Handled"
    using that e rpc_body_effects [OF b] by simp
  have "\<exists>r. EffHandler rc \<in> set (rr_effects res) \<and> re_handler env rc = Return (r, None) \<and>
         rr_response res = (if streaming then None else r)" if ok: "rr_err res = None"
  proof -
    have result: "result = Return (rr_response res, None)"
      using r ok by (cases result) (auto split: prod.splits)
    have never: "None \<noteq> re_from_context env e" for e using status [of e] by (metis)
    have "rpc_reached streaming is env m rc rid (sh_bridge shared) w0 = Handled"
      using rpc_body_result [OF b result] never by (cases "rpc_reached streaming is env m rc rid (sh_bridge shared) w0") auto
    with ran rpc_body_result [OF b result] never show ?thesis
      by (auto split: outcome.splits prod.splits option.splits if_splits)
  qed
  moreover have "ctx_err (rr_world res) c \<noteq> None \<and> (is_root is, cw_next w) \<notin> set (cw_after (rr_world res))"
    if "EffHandler c \<in> set (rr_effects res)" for c
    using handled [OF that] derive_facts(4,5) [OF d valid, of w1] w by simp
  ultimately show ?thesis by blast
qed

subsection \<open>Witnesses\<close>

definition demo_logger :: "unit Logger" where
  "demo_logger = \<lparr>lg_logger = Some (ZHook (ZLevel (ZNew (ZSyncWriter ())) ZInfo) 0)\<rparr>"

definition demo_set :: "unit interceptorSet" where
  "demo_set = \<lparr>is_root = CtxExternal 1, is_timeout = 5, is_metadataLimit = 1024,
     is_logger = Some demo_logger, is_requestIDs = 0,
     is_healthRefresher = Some (hb_refresh (Some NewTracker))\<rparr>"

definition demo_env :: "(nat option \<times> rpc_err option) outcome \<Rightarrow> (unit, nat) rpc_env" where
  "demo_env handler = \<lparr>re_from_incoming = (\<lambda>_. None), re_get = (\<lambda>_ _. []), re_fields = (\<lambda>_. []),
     re_set_header = (\<lambda>_ _. Return None), re_meanwhile1 = (\<lambda>w. w), re_handler = (\<lambda>_. handler),
     re_meanwhile2 = (\<lambda>w. w), re_status_code = (\<lambda>e. case e of Some (StatusError c m) \<Rightarrow> c | None \<Rightarrow> CodeOK | _ \<Rightarrow> CodeUnknown),
     re_code_string = (\<lambda>_. ''OK''), re_from_context = (\<lambda>_. Some (StatusError CodeCanceled '''')), re_duration_ms = 1\<rparr>"

definition demo_world :: ctx_world where
  "demo_world = \<lparr>cw_ext = (\<lambda>_. None), cw_ext_value = (\<lambda>_ _. None), cw_cell = (\<lambda>_. None), cw_next = 0, cw_after = []\<rparr>"

definition demo_shared :: rpc_shared where
  "demo_shared = \<lparr>sh_counters = (\<lambda>_. 0), sh_bridge = newHealthBridge\<rparr>"

lemma demo_refresh: "hb_refresh (Some NewTracker) newHealthBridge = Return (refresh_publish NOT_SERVING newHealthBridge)"
  by (simp add: hb_refresh_def refresh_status_tracker NewTracker_def zero_Tracker_def decode_def tracker_state_defs)

lemma demo_logger_set: "is_logger demo_set = Some demo_logger"
  "lg_logger demo_logger = Some (ZHook (ZLevel (ZNew (ZSyncWriter ())) ZInfo) 0)"
  by (simp_all add: demo_set_def demo_logger_def)

lemma demo_valid: "ctx_valid demo_world (CtxExternal 0)" "ctx_valid demo_world (is_root demo_set)"
  by (simp_all add: ctx_valid_def demo_set_def)

lemma demo_rpc:
  "\<exists>res c. grpc_rpc False demo_set (demo_env (Return (Some 3, None))) (CtxExternal 0) healthCheckMethod demo_shared demo_world = Return res \<and>
     EffHandler c \<in> set (rr_effects res) \<and> rr_err res = None"
proof -
  let ?env = "demo_env (Return (Some 3, None))"
  obtain res where res: "grpc_rpc False demo_set ?env (CtxExternal 0) healthCheckMethod demo_shared demo_world = Return res"
    using grpc_rpc_returns [OF demo_logger_set] by blast
  obtain rid rc cleanup w0 effs result hb w1 where
        d: "deriveRequestContext (CtxExternal 0) (is_root demo_set) (if False then 0 else is_timeout demo_set) rid demo_world =
            ((rc, cleanup), w0)"
    and b: "rpc_body False demo_set ?env healthCheckMethod rc rid (sh_bridge demo_shared) w0 = (effs, result, hb, w1)"
    and e: "rr_effects res = effs @ (case result of Panic x \<Rightarrow>
        [EffLog (panic_event (ZHook (ZLevel (ZNew (ZSyncWriter ())) ZInfo) 0) (safeRPCMethod healthCheckMethod) rid)
           ''gRPC request panic recovered''] | Return y \<Rightarrow> []) @
        [EffLog (completion_event (ZHook (ZLevel (ZNew (ZSyncWriter ())) ZInfo) 0) ?env (safeRPCMethod healthCheckMethod)
           rid (rr_err res)) ''gRPC request completed'']"
    and r: "(rr_response res, rr_err res) = (case result of Panic x \<Rightarrow> (None, Some internal_error) | Return y \<Rightarrow> y)"
    by (rule grpc_rpc_cases [OF res demo_logger_set])
  have rc: "ctx_err w0 rc = None"
    using d by (auto simp: deriveRequestContext_def ctx_with_cancel_def ctx_after_func_def ctx_with_timeout_def
        demo_world_def demo_set_def Let_def split: if_splits)
  then have "rpc_reached False demo_set ?env healthCheckMethod rc rid (sh_bridge demo_shared) w0 = Handled"
    by (simp add: rpc_reached_def demo_env_def demo_set_def demo_shared_def demo_refresh metadataSize_def)
  then have effs: "EffHandler rc \<in> set effs" using rpc_body_effects [OF b] by simp
  have "result = Return (Some 3, None)"
    using b rc by (auto simp: rpc_body_def unary_body_def demo_env_def demo_set_def demo_shared_def demo_refresh metadataSize_def
        isUnaryHealthMethod_def Let_def)
  with r have "rr_err res = None" by simp
  with res effs e show ?thesis by auto
qed

theorem grpc_handler_guarded_witness:
  "\<exists>res c. grpc_rpc False demo_set (demo_env (Return (Some 3, None))) (CtxExternal 0) healthCheckMethod demo_shared demo_world = Return res \<and>
     EffHandler c \<in> set (rr_effects res) \<and> safe_id (grpc_RequestID demo_world (Some c)) \<and>
     sh_bridge (rr_shared res) = refresh_publish NOT_SERVING newHealthBridge"
proof -
  obtain res c where res: "grpc_rpc False demo_set (demo_env (Return (Some 3, None))) (CtxExternal 0) healthCheckMethod demo_shared
      demo_world = Return res" and c: "EffHandler c \<in> set (rr_effects res)" using demo_rpc by blast
  have env: "incoming_contract (re_from_incoming (demo_env (Return (Some 3, None))))"
    "\<And>v. ctx_evolves v (re_meanwhile1 (demo_env (Return (Some 3, None))) v)"
    by (simp_all add: incoming_contract_def demo_env_def)
  have "is_healthRefresher demo_set = Some (hb_refresh (Some NewTracker))" "sh_bridge demo_shared = newHealthBridge"
    "rpc_refreshes False healthCheckMethod"
    by (simp_all add: demo_set_def demo_shared_def rpc_refreshes_def isUnaryHealthMethod_def)
  with grpc_handler_guarded [OF res demo_logger_set demo_valid env c] res c show ?thesis
    by (auto simp: demo_refresh)
qed

theorem grpc_failures_contained_witness:
  "\<exists>res. grpc_rpc False demo_set (demo_env (Panic ''secret'')) (CtxExternal 0) healthCheckMethod demo_shared demo_world = Return res"
  using grpc_failures_contained [OF demo_logger_set] by blast

theorem grpc_success_and_release_witness:
  "\<exists>res c. grpc_rpc False demo_set (demo_env (Return (Some 3, None))) (CtxExternal 0) healthCheckMethod demo_shared demo_world = Return res \<and>
     EffHandler c \<in> set (rr_effects res) \<and> rr_response res = Some 3 \<and> ctx_err (rr_world res) c \<noteq> None"
proof -
  let ?env = "demo_env (Return (Some 3, None))"
  obtain res c where res: "grpc_rpc False demo_set ?env (CtxExternal 0) healthCheckMethod demo_shared demo_world = Return res"
    and c: "EffHandler c \<in> set (rr_effects res)" "rr_err res = None" using demo_rpc by blast
  have status: "\<And>e. re_from_context ?env e \<noteq> None" by (simp add: demo_env_def)
  have "rr_response res = Some 3"
    using grpc_success_and_release [OF res demo_logger_set demo_valid status] c(2) by (auto simp: demo_env_def)
  with grpc_success_and_release [OF res demo_logger_set demo_valid status] res c show ?thesis by blast
qed

end
