(* ===== verification/Grpc_New.thy ===== *)
theory Grpc_New
  imports Grpc_Interceptors
begin

section \<open>Building the gRPC adapter (grpcserver/server.go, New)\<close>





lemma grpc_new_server_health [simp]:
  "grpc_new_server\<lparr>srv_health := Some newHealthBridge\<rparr> = grpc_new_server"
  "srv_health grpc_new_server = Some newHealthBridge"
  by (simp_all add: grpc_new_server_def)




end
