(* ===== verification/Http_Handlers.thy ===== *)
theory Http_Handlers
  imports Go_Context Request_Ids Readiness_Tracker Http_Lifecycle Logging
begin

section \<open>HTTP middleware and handlers (httpserver/server.go)\<close>

text \<open>
  A request runs through the chain that \<open>New\<close> registers: request context, access log,
  recovery, body check, and the handler that Fiber's router picks. A handler maps the state of
  the request (\<open>http_rq\<close>: Fiber's context, the log lines so far, the contexts, the identifier
  counter) to its error or panic and the state it leaves, which a panic keeps.

  Fiber is library code: its router and its JSON encoder are parameters (\<open>http_env\<close>); a JSON
  body is the list of the members it has. The chain is about the requests that Fiber passes to
  the registered handlers: one that Fiber refuses before that (by \<open>GETOnly\<close>, \<open>BodyLimit\<close> or
  \<open>ReadBufferSize\<close>, with 405, 413 or 431) is Fiber's to answer and outside the model.
\<close>

definition livezPath :: string where "livezPath = ''/livez''"
definition readyzPath :: string where "readyzPath = ''/readyz''"
definition requestIDHeader :: string where "requestIDHeader = ''X-Request-ID''"

definition http_requestIDContextKey :: string where
  "http_requestIDContextKey = ''httpserver.requestIDContextKey''"

definition http_RequestID :: "ctx_world \<Rightarrow> go_ctx option \<Rightarrow> string" where
  "http_RequestID w ctx =
     (case ctx of
        None \<Rightarrow> ''''
      | Some c \<Rightarrow> (case ctx_value w c http_requestIDContextKey of Some requestID \<Rightarrow> requestID | None \<Rightarrow> ''''))"

subsection \<open>Error responses\<close>

definition errorStatus :: "http_err \<Rightarrow> go_int" where
  "errorStatus err =
     (case errors_as_fiber err of
        Some (Some (code, message)) \<Rightarrow> (if 400 \<le>s code \<and> code \<le>s 599 then code else 500)
      | _ \<Rightarrow> 500)"

definition errorCode :: "go_int \<Rightarrow> string" where
  "errorCode status =
     (if status = 400 then ''invalid_request''
      else if status = 404 then ''not_found''
      else if status = 405 then ''method_not_allowed''
      else if status = 408 then ''request_timeout''
      else if status = 413 then ''request_too_large''
      else if status = 431 then ''request_headers_too_large''
      else if status = 503 then ''service_unavailable''
      else ''internal_error'')"

definition safeMethod :: "string \<Rightarrow> string" where
  "safeMethod method =
     (if method \<in> {''GET'', ''HEAD'', ''POST'', ''PUT'', ''PATCH'', ''DELETE'', ''OPTIONS'', ''CONNECT'', ''TRACE''}
      then method else ''OTHER'')"

text \<open>The JSON members of the two response types; \<open>reason\<close> is omitted when empty.\<close>

record probeResponse =
  pr_status :: string
  pr_reason :: reason

definition probe_members :: "probeResponse \<Rightarrow> (string \<times> string) list" where
  "probe_members r = (''status'', pr_status r) # (if pr_reason r = '''' then [] else [(''reason'', pr_reason r)])"

record errorResponse =
  er_error :: string

definition error_members :: "errorResponse \<Rightarrow> (string \<times> string) list" where
  "error_members r = [(''error'', er_error r)]"

subsection \<open>The state of a request\<close>

record fiber_ctx =
  fc_get :: "string \<Rightarrow> string"
  fc_method :: string
  fc_content_length :: int
  fc_request_body :: string
  fc_route :: string
  fc_context :: "go_ctx option"
  fc_headers :: "(string \<times> string) list"
  fc_status :: go_int
  fc_body :: "(string \<times> string) list"

record 'w http_rq =
  rq_fiber :: fiber_ctx
  rq_logs :: "('w zevent \<times> string) list"
  rq_world :: ctx_world
  rq_sequence :: uint64

datatype probe = ProbeLive | ProbeReady

text \<open>\<open>he_match\<close> is Fiber's router: the route it settles on, and the handler of that route or
  the error it answers with. \<open>he_json_err\<close> is the error of encoding a body.\<close>

record http_env =
  he_match :: "fiber_ctx \<Rightarrow> (string \<times> (http_err + probe)) outcome"
  he_json_err :: "(string \<times> string) list \<Rightarrow> http_err option"
  he_body_len :: "(string \<times> string) list \<Rightarrow> int"
  he_duration_ms :: int

type_synonym 'w http_handler = "'w http_rq \<Rightarrow> http_err option outcome \<times> 'w http_rq"

definition with_fiber :: "(fiber_ctx \<Rightarrow> fiber_ctx) \<Rightarrow> 'w http_rq \<Rightarrow> 'w http_rq" where
  "with_fiber f rq = rq\<lparr>rq_fiber := f (rq_fiber rq)\<rparr>"

text \<open>\<open>ctx.Status(status).JSON(body)\<close>: the status stays set when the encoding fails.\<close>

definition fiber_json :: "http_env \<Rightarrow> go_int \<Rightarrow> (string \<times> string) list \<Rightarrow> 'w http_handler" where
  "fiber_json env status members rq =
     (let rq1 = with_fiber (\<lambda>c. c\<lparr>fc_status := status\<rparr>) rq in
      case he_json_err env members of
        Some e \<Rightarrow> (Return (Some e), rq1)
      | None \<Rightarrow> (Return None, with_fiber (\<lambda>c. c\<lparr>fc_body := members\<rparr>) rq1))"

definition stableErrorHandler :: "http_env \<Rightarrow> http_err \<Rightarrow> 'w http_handler" where
  "stableErrorHandler env err rq =
     (let status = errorStatus err
      in fiber_json env status (error_members \<lparr>er_error = errorCode status\<rparr>) rq)"

definition safeRoute :: "fiber_ctx \<Rightarrow> string" where
  "safeRoute ctx =
     (if fc_route ctx = livezPath then livezPath
      else if fc_route ctx = readyzPath then readyzPath
      else ''unmatched'')"

subsection \<open>Handlers\<close>

definition liveHandler :: "http_env \<Rightarrow> 'w http_handler" where
  "liveHandler env rq = fiber_json env 200 (probe_members \<lparr>pr_status = ''live'', pr_reason = ''''\<rparr>) rq"

definition readyHandler :: "http_env \<Rightarrow> Tracker option \<Rightarrow> 'w http_handler" where
  "readyHandler env provider rq =
     (case tracker_Snapshot provider of
        Panic m \<Rightarrow> (Panic m, rq)
      | Return readiness \<Rightarrow>
          (if Ready readiness
           then fiber_json env 200 (probe_members \<lparr>pr_status = ''ready'', pr_reason = ''''\<rparr>) rq
           else fiber_json env 503 (probe_members \<lparr>pr_status = ''not_ready'', pr_reason = Reason readiness\<rparr>) rq))"

text \<open>Fiber's own step: match the request and run the handler registered for the route.\<close>

definition fiber_dispatch :: "http_env \<Rightarrow> Tracker option \<Rightarrow> 'w http_handler" where
  "fiber_dispatch env provider rq =
     (case he_match env (rq_fiber rq) of
        Panic m \<Rightarrow> (Panic m, rq)
      | Return (route, target) \<Rightarrow>
          (let rq1 = with_fiber (\<lambda>c. c\<lparr>fc_route := route\<rparr>) rq in
           case target of
             Inl err \<Rightarrow> (Return (Some err), rq1)
           | Inr ProbeLive \<Rightarrow> liveHandler env rq1
           | Inr ProbeReady \<Rightarrow> readyHandler env provider rq1))"

subsection \<open>Middleware\<close>

text \<open>\<open>fiber.ErrBadRequest\<close> and \<open>fiber.ErrInternalServerError\<close>.\<close>

definition fiber_ErrBadRequest :: http_err where
  "fiber_ErrBadRequest = FiberError (Some (400, ''Bad Request''))"

definition fiber_ErrInternalServerError :: http_err where
  "fiber_ErrInternalServerError = FiberError (Some (500, ''Internal Server Error''))"

definition rejectProbeBodyMiddleware :: "'w http_handler \<Rightarrow> 'w http_handler" where
  "rejectProbeBodyMiddleware next rq =
     (if fc_content_length (rq_fiber rq) > 0 \<or> length (fc_request_body (rq_fiber rq)) > 0
      then (Return (Some fiber_ErrBadRequest), rq) else next rq)"

definition http_panic_line :: "'w Logger option \<Rightarrow> 'w http_rq \<Rightarrow> ('w zevent \<times> string) outcome" where
  "http_panic_line logger rq =
     and_then (log_Error logger ''http_request_panicked'') (\<lambda>e.
       Return (ZStr (ZStr (ZStr (ZStr e ''transport'' ''http'') ''method'' (safeMethod (fc_method (rq_fiber rq))))
         ''route'' (safeRoute (rq_fiber rq)))
         ''request_id'' (http_RequestID (rq_world rq) (fc_context (rq_fiber rq))), ''HTTP request panic recovered''))"

definition recoverMiddleware :: "'w Logger option \<Rightarrow> 'w http_handler \<Rightarrow> 'w http_handler" where
  "recoverMiddleware logger next rq =
     (case next rq of
        (Return err, rq1) \<Rightarrow> (Return err, rq1)
      | (Panic _, rq1) \<Rightarrow>
          (case http_panic_line logger rq1 of
             Panic m \<Rightarrow> (Panic m, rq1)
           | Return line \<Rightarrow>
               (Return (Some fiber_ErrInternalServerError), rq1\<lparr>rq_logs := rq_logs rq1 @ [line]\<rparr>)))"

definition http_access_line :: "'w Logger option \<Rightarrow> http_env \<Rightarrow> 'w http_rq \<Rightarrow> ('w zevent \<times> string) outcome" where
  "http_access_line logger env rq =
     and_then (log_Info logger ''http_request_completed'') (\<lambda>e.
       Return (ZInt (ZInt (ZStr (ZInt (ZStr (ZStr (ZStr e ''transport'' ''http'')
         ''method'' (safeMethod (fc_method (rq_fiber rq))))
         ''route'' (safeRoute (rq_fiber rq)))
         ''status_code'' (sint (fc_status (rq_fiber rq))))
         ''request_id'' (http_RequestID (rq_world rq) (fc_context (rq_fiber rq))))
         ''duration_ms'' (he_duration_ms env))
         ''response_bytes'' (he_body_len env (fc_body (rq_fiber rq))), ''HTTP request completed''))"

definition accessLogMiddleware :: "'w Logger option \<Rightarrow> http_env \<Rightarrow> 'w http_handler \<Rightarrow> 'w http_handler" where
  "accessLogMiddleware logger env next rq =
     (let finish = (\<lambda>rq1.
            case http_access_line logger env rq1 of
              Panic m \<Rightarrow> (Panic m, rq1)
            | Return line \<Rightarrow> (Return None, rq1\<lparr>rq_logs := rq_logs rq1 @ [line]\<rparr>))
      in case next rq of
           (Panic m, rq1) \<Rightarrow> (Panic m, rq1)
         | (Return None, rq1) \<Rightarrow> finish rq1
         | (Return (Some err), rq1) \<Rightarrow>
             (case stableErrorHandler env err rq1 of
                (Panic m, rq2) \<Rightarrow> (Panic m, rq2)
              | (Return (Some responseErr), rq2) \<Rightarrow> (Return (Some responseErr), rq2)
              | (Return None, rq2) \<Rightarrow> finish rq2))"

definition requestContextMiddleware :: "go_ctx \<Rightarrow> duration \<Rightarrow> 'w http_handler \<Rightarrow> 'w http_handler" where
  "requestContextMiddleware root timeout next rq =
     (let (requestID, sequence) = http_request_id (fc_get (rq_fiber rq) requestIDHeader) (rq_sequence rq);
          valueContext = CtxValue root http_requestIDContextKey requestID;
          ((requestContext, cancel), w) = ctx_with_timeout valueContext timeout (rq_world rq);
          rq1 = with_fiber (\<lambda>c. c\<lparr>fc_context := Some requestContext,
                  fc_headers := fc_headers c @ [(requestIDHeader, requestID), (''Cache-Control'', ''no-store''),
                    (''X-Content-Type-Options'', ''nosniff'')]\<rparr>)
                  (rq\<lparr>rq_world := w, rq_sequence := sequence\<rparr>);
          (result, rq2) = next rq1
      in (result, rq2\<lparr>rq_world := ctx_cancel requestContext cancel (rq_world rq2)\<rparr>))"

text \<open>The chain in the order of \<open>app.Use\<close>, for a request that reaches it.\<close>

definition http_chain ::
  "go_ctx \<Rightarrow> duration \<Rightarrow> 'w Logger option \<Rightarrow> Tracker option \<Rightarrow> http_env \<Rightarrow> 'w http_handler" where
  "http_chain root timeout httpLogger readiness env =
     requestContextMiddleware root timeout
       (accessLogMiddleware httpLogger env
         (recoverMiddleware httpLogger
           (rejectProbeBodyMiddleware (fiber_dispatch env readiness))))"

subsection \<open>What every stage leaves alone\<close>

definition same_request :: "'w http_rq \<Rightarrow> 'w http_rq \<Rightarrow> bool" where
  "same_request rq rq1 \<longleftrightarrow>
     rq_world rq1 = rq_world rq \<and> rq_sequence rq1 = rq_sequence rq \<and>
     fc_get (rq_fiber rq1) = fc_get (rq_fiber rq) \<and> fc_method (rq_fiber rq1) = fc_method (rq_fiber rq) \<and>
     fc_context (rq_fiber rq1) = fc_context (rq_fiber rq) \<and> fc_headers (rq_fiber rq1) = fc_headers (rq_fiber rq)"

text \<open>The responses there are: the probes' and, for a status in 400..599, the error code of that
  status. None of them carries anything of an error or a panic.\<close>

definition not_ready_reasons :: "reason set" where
  "not_ready_reasons = {ReasonUnavailable, ReasonRuntimeUnavailable, ReasonRecovering, ReasonDraining, ReasonFailed}"

definition error_response :: "fiber_ctx \<Rightarrow> bool" where
  "error_response c \<longleftrightarrow> 400 \<le> sint (fc_status c) \<and> sint (fc_status c) \<le> 599 \<and>
     fc_body c = [(''error'', errorCode (fc_status c))]"

definition probe_response :: "fiber_ctx \<Rightarrow> bool" where
  "probe_response c \<longleftrightarrow>
     fc_status c = 200 \<and> (fc_body c = [(''status'', ''live'')] \<or> fc_body c = [(''status'', ''ready'')]) \<or>
     fc_status c = 503 \<and> (\<exists>r \<in> not_ready_reasons. fc_body c = [(''status'', ''not_ready''), (''reason'', r)])"

lemma same_request_refl [simp]: "same_request rq rq"
  by (simp add: same_request_def)

lemma same_request_trans: "same_request a b \<Longrightarrow> same_request b c \<Longrightarrow> same_request a c"
  by (simp add: same_request_def)

lemma fiber_json_ok:
  "he_json_err env members = None \<Longrightarrow> fiber_json env status members rq =
     (Return None, rq\<lparr>rq_fiber := (rq_fiber rq)\<lparr>fc_status := status, fc_body := members\<rparr>\<rparr>)"
  by (simp add: fiber_json_def with_fiber_def)

lemma errorStatus_bounds: "400 \<le> sint (errorStatus err) \<and> sint (errorStatus err) \<le> 599"
  by (auto simp: errorStatus_def word_sle_eq split: option.splits)

lemma not_ready_reason:
  "tracker_Snapshot t = Return r \<Longrightarrow> \<not> Ready r \<Longrightarrow> Reason r \<in> not_ready_reasons \<and> Reason r \<noteq> ''''"
  by (auto simp: tracker_Snapshot_def decode_def not_ready_reasons_def reason_defs split: option.splits if_splits)

lemma liveHandler_ok:
  assumes "\<And>m. he_json_err env m = None" and "liveHandler env rq = (r, rq1)"
  shows "r = Return None \<and> same_request rq rq1 \<and> rq_logs rq1 = rq_logs rq \<and>
    fc_route (rq_fiber rq1) = fc_route (rq_fiber rq) \<and>
    fc_status (rq_fiber rq1) = 200 \<and> fc_body (rq_fiber rq1) = [(''status'', ''live'')]"
  using assms by (auto simp: liveHandler_def fiber_json_ok probe_members_def same_request_def)

lemma readyHandler_ok:
  assumes "\<And>m. he_json_err env m = None" and "readyHandler env (Some t) rq = (r, rq1)"
  shows "r = Return None \<and> same_request rq rq1 \<and> rq_logs rq1 = rq_logs rq \<and>
    fc_route (rq_fiber rq1) = fc_route (rq_fiber rq) \<and>
    (\<exists>s. tracker_Snapshot (Some t) = Return s \<and>
       (if Ready s then fc_status (rq_fiber rq1) = 200 \<and> fc_body (rq_fiber rq1) = [(''status'', ''ready'')]
        else fc_status (rq_fiber rq1) = 503 \<and>
          fc_body (rq_fiber rq1) = [(''status'', ''not_ready''), (''reason'', Reason s)]))"
proof -
  obtain s where s: "tracker_Snapshot (Some t) = Return s" by (simp add: tracker_Snapshot_def)
  then have "\<not> Ready s \<Longrightarrow> Reason s \<noteq> ''''" using not_ready_reason by blast
  with assms s show ?thesis
    by (auto simp: readyHandler_def fiber_json_ok probe_members_def same_request_def split: if_splits)
qed

lemma dispatch_frame:
  assumes json: "\<And>m. he_json_err env m = None" and d: "fiber_dispatch env provider rq = (r, rq1)"
  shows "same_request rq rq1 \<and> rq_logs rq1 = rq_logs rq \<and> (r = Return None \<longrightarrow> probe_response (rq_fiber rq1))"
proof (cases "he_match env (rq_fiber rq)")
  case (Panic m)
  with d show ?thesis by (auto simp: fiber_dispatch_def)
next
  case (Return x)
  obtain route target where x: "x = (route, target)" by (cases x)
  let ?rq = "with_fiber (\<lambda>c. c\<lparr>fc_route := route\<rparr>) rq"
  have start: "same_request rq ?rq" "rq_logs ?rq = rq_logs rq" by (simp_all add: with_fiber_def same_request_def)
  show ?thesis
  proof (cases target)
    case (Inl err)
    with Return x d start show ?thesis by (auto simp: fiber_dispatch_def)
  next
    case (Inr p)
    show ?thesis
    proof (cases p)
      case ProbeLive
      with Return x Inr d have "liveHandler env ?rq = (r, rq1)" by (simp add: fiber_dispatch_def)
      from liveHandler_ok [OF json this] start show ?thesis
        by (auto simp: probe_response_def dest: same_request_trans)
    next
      case ProbeReady
      with Return x Inr d have h: "readyHandler env provider ?rq = (r, rq1)" by (simp add: fiber_dispatch_def)
      show ?thesis
      proof (cases provider)
        case None
        with h start show ?thesis by (auto simp: readyHandler_def tracker_Snapshot_def)
      next
        case (Some t)
        obtain s where s: "tracker_Snapshot (Some t) = Return s" by (simp add: tracker_Snapshot_def)
        from readyHandler_ok [OF json h [unfolded Some]] start s not_ready_reason [OF s] show ?thesis
          by (auto simp: probe_response_def split: if_splits dest: same_request_trans)
      qed
    qed
  qed
qed

definition http_panic_event :: "'w zlogger \<Rightarrow> string \<Rightarrow> string \<Rightarrow> string \<Rightarrow> 'w zevent" where
  "http_panic_event z method route rid =
     ZStr (ZStr (ZStr (ZStr (ZStr (ZStart z ZError) fieldEvent ''http_request_panicked'') ''transport'' ''http'')
       ''method'' method) ''route'' route) ''request_id'' rid"

definition http_access_event ::
  "'w zlogger \<Rightarrow> string \<Rightarrow> string \<Rightarrow> int \<Rightarrow> string \<Rightarrow> int \<Rightarrow> int \<Rightarrow> 'w zevent" where
  "http_access_event z method route status rid ms bytes =
     ZInt (ZInt (ZStr (ZInt (ZStr (ZStr (ZStr (ZStr (ZStart z ZInfo) fieldEvent ''http_request_completed'')
       ''transport'' ''http'') ''method'' method) ''route'' route) ''status_code'' status) ''request_id'' rid)
       ''duration_ms'' ms) ''response_bytes'' bytes"

lemma http_lines:
  assumes "logger = Some lg" and "lg_logger lg = Some z"
  shows "http_panic_line logger rq = Return (http_panic_event z (safeMethod (fc_method (rq_fiber rq))) (safeRoute (rq_fiber rq))
           (http_RequestID (rq_world rq) (fc_context (rq_fiber rq))), ''HTTP request panic recovered'')"
    and "http_access_line logger env rq = Return (http_access_event z (safeMethod (fc_method (rq_fiber rq)))
           (safeRoute (rq_fiber rq)) (sint (fc_status (rq_fiber rq)))
           (http_RequestID (rq_world rq) (fc_context (rq_fiber rq)))
           (he_duration_ms env) (he_body_len env (fc_body (rq_fiber rq))), ''HTTP request completed'')"
  using assms
  by (simp_all add: http_panic_line_def http_access_line_def log_Error_def log_Info_def mustLogger_def
      http_panic_event_def http_access_event_def)

text \<open>The recovered part: it returns, and a panic has left one line.\<close>

lemma recovered_frame:
  assumes json: "\<And>m. he_json_err env m = None" and log: "logger = Some lg" "lg_logger lg = Some z"
    and r: "recoverMiddleware logger (rejectProbeBodyMiddleware (fiber_dispatch env provider)) rq = (r, rq1)"
  shows "\<exists>e panics. r = Return e \<and> same_request rq rq1 \<and> rq_logs rq1 = rq_logs rq @ panics \<and>
    (e = None \<longrightarrow> panics = [] \<and> probe_response (rq_fiber rq1)) \<and>
    (panics = [] \<or> panics = [(http_panic_event z (safeMethod (fc_method (rq_fiber rq))) (safeRoute (rq_fiber rq1))
       (http_RequestID (rq_world rq) (fc_context (rq_fiber rq))), ''HTTP request panic recovered'')])"
proof -
  obtain r0 rq0 where d: "rejectProbeBodyMiddleware (fiber_dispatch env provider) rq = (r0, rq0)" by fastforce
  have f: "same_request rq rq0 \<and> rq_logs rq0 = rq_logs rq \<and> (r0 = Return None \<longrightarrow> probe_response (rq_fiber rq0))"
    using d dispatch_frame [OF json] by (auto simp: rejectProbeBodyMiddleware_def split: if_splits)
  show ?thesis
  proof (cases r0)
    case (Return e)
    with r d f show ?thesis by (auto simp: recoverMiddleware_def)
  next
    case (Panic m)
    with r d have "r = Return (Some fiber_ErrInternalServerError)"
      "rq1 = rq0\<lparr>rq_logs := rq_logs rq0 @ [(http_panic_event z (safeMethod (fc_method (rq_fiber rq0)))
         (safeRoute (rq_fiber rq0)) (http_RequestID (rq_world rq0) (fc_context (rq_fiber rq0))),
         ''HTTP request panic recovered'')]\<rparr>"
      by (simp_all add: recoverMiddleware_def http_lines [OF log])
    with f show ?thesis by (auto simp: same_request_def)
  qed
qed

text \<open>With the access log around it: a response and one line more.\<close>

lemma logged_frame:
  assumes json: "\<And>m. he_json_err env m = None" and log: "logger = Some lg" "lg_logger lg = Some z"
    and r: "accessLogMiddleware logger env (recoverMiddleware logger
        (rejectProbeBodyMiddleware (fiber_dispatch env provider))) rq = (r, rq1)"
  shows "\<exists>panics. r = Return None \<and> same_request rq rq1 \<and>
    rq_logs rq1 = rq_logs rq @ panics @ [(http_access_event z (safeMethod (fc_method (rq_fiber rq))) (safeRoute (rq_fiber rq1))
       (sint (fc_status (rq_fiber rq1))) (http_RequestID (rq_world rq) (fc_context (rq_fiber rq)))
       (he_duration_ms env) (he_body_len env (fc_body (rq_fiber rq1))), ''HTTP request completed'')] \<and>
    (error_response (rq_fiber rq1) \<or> panics = [] \<and> probe_response (rq_fiber rq1)) \<and>
    (panics = [] \<or> panics = [(http_panic_event z (safeMethod (fc_method (rq_fiber rq))) (safeRoute (rq_fiber rq1))
       (http_RequestID (rq_world rq) (fc_context (rq_fiber rq))), ''HTTP request panic recovered'')])"
proof -
  obtain r0 rq0 where d: "recoverMiddleware logger (rejectProbeBodyMiddleware (fiber_dispatch env provider)) rq = (r0, rq0)"
    by fastforce
  from recovered_frame [OF json log d] obtain e panics where e: "r0 = Return e" and same: "same_request rq rq0"
    and logs: "rq_logs rq0 = rq_logs rq @ panics" and probe: "e = None \<longrightarrow> panics = [] \<and> probe_response (rq_fiber rq0)"
    and panics: "panics = [] \<or> panics = [(http_panic_event z (safeMethod (fc_method (rq_fiber rq))) (safeRoute (rq_fiber rq0))
       (http_RequestID (rq_world rq) (fc_context (rq_fiber rq))), ''HTTP request panic recovered'')]" by blast
  show ?thesis
  proof (cases e)
    case None
    with r d e http_lines(2) [OF log] have "r = Return None"
      "rq1 = rq0\<lparr>rq_logs := rq_logs rq0 @ [(http_access_event z (safeMethod (fc_method (rq_fiber rq0)))
           (safeRoute (rq_fiber rq0)) (sint (fc_status (rq_fiber rq0)))
           (http_RequestID (rq_world rq0) (fc_context (rq_fiber rq0)))
           (he_duration_ms env) (he_body_len env (fc_body (rq_fiber rq0))), ''HTTP request completed'')]\<rparr>"
      by (simp_all add: accessLogMiddleware_def)
    with None same logs probe panics show ?thesis by (auto simp: same_request_def)
  next
    case (Some err)
    let ?st = "errorStatus err"
    let ?rq = "rq0\<lparr>rq_fiber := (rq_fiber rq0)\<lparr>fc_status := ?st, fc_body := [(''error'', errorCode ?st)]\<rparr>\<rparr>"
    have h: "stableErrorHandler env err rq0 = (Return None, ?rq)"
      using json by (simp add: stableErrorHandler_def fiber_json_ok error_members_def Let_def)
    with r d e Some http_lines(2) [OF log, of env ?rq] have "r = Return None"
      "rq1 = ?rq\<lparr>rq_logs := rq_logs ?rq @ [(http_access_event z (safeMethod (fc_method (rq_fiber ?rq)))
           (safeRoute (rq_fiber ?rq)) (sint (fc_status (rq_fiber ?rq)))
           (http_RequestID (rq_world ?rq) (fc_context (rq_fiber ?rq)))
           (he_duration_ms env) (he_body_len env (fc_body (rq_fiber ?rq))), ''HTTP request completed'')]\<rparr>"
      by (simp_all add: accessLogMiddleware_def)
    with same logs panics errorStatus_bounds [of err] show ?thesis
      by (auto simp: same_request_def error_response_def safeRoute_def)
  qed
qed

text \<open>The whole chain: what the request context adds around the rest.\<close>

definition request_start :: "go_ctx \<Rightarrow> duration \<Rightarrow> 'w http_rq \<Rightarrow> 'w http_rq" where
  "request_start root timeout rq =
     (let (rid, n) = http_request_id (fc_get (rq_fiber rq) requestIDHeader) (rq_sequence rq);
          ((rc, c), w) = ctx_with_timeout (CtxValue root http_requestIDContextKey rid) timeout (rq_world rq)
      in rq\<lparr>rq_world := w, rq_sequence := n,
            rq_fiber := (rq_fiber rq)\<lparr>fc_context := Some rc,
              fc_headers := fc_headers (rq_fiber rq) @ [(requestIDHeader, rid), (''Cache-Control'', ''no-store''),
                (''X-Content-Type-Options'', ''nosniff'')]\<rparr>\<rparr>)"

lemma request_context_eq:
  "requestContextMiddleware root timeout next rq =
     (let (result, rq2) = next (request_start root timeout rq);
          c = the (fc_context (rq_fiber (request_start root timeout rq)))
      in (result, rq2\<lparr>rq_world := ctx_cancel c (cw_next (rq_world rq)) (rq_world rq2)\<rparr>))"
  by (simp add: requestContextMiddleware_def request_start_def ctx_with_timeout_def with_fiber_def Let_def split_beta)

lemma request_start_id:
  "http_RequestID (rq_world (request_start root timeout rq)) (fc_context (rq_fiber (request_start root timeout rq))) =
     fst (http_request_id (fc_get (rq_fiber rq) requestIDHeader) (rq_sequence rq))"
  by (simp add: request_start_def ctx_with_timeout_def http_RequestID_def split_beta Let_def)

lemma request_start_fiber:
  "fc_headers (rq_fiber (request_start root timeout rq)) = fc_headers (rq_fiber rq) @
     [(requestIDHeader, fst (http_request_id (fc_get (rq_fiber rq) requestIDHeader) (rq_sequence rq))),
      (''Cache-Control'', ''no-store''), (''X-Content-Type-Options'', ''nosniff'')]"
  "fc_method (rq_fiber (request_start root timeout rq)) = fc_method (rq_fiber rq)"
  "fc_content_length (rq_fiber (request_start root timeout rq)) = fc_content_length (rq_fiber rq)"
  "fc_request_body (rq_fiber (request_start root timeout rq)) = fc_request_body (rq_fiber rq)"
  "rq_logs (request_start root timeout rq) = rq_logs rq"
  "\<exists>p. fc_context (rq_fiber (request_start root timeout rq)) = Some (CtxTimeout (cw_next (rq_world rq)) timeout p)"
  by (simp_all add: request_start_def ctx_with_timeout_def split_beta Let_def)

text \<open>\<open>/readyz\<close> through the chain, as the root theory uses it.\<close>

lemma readyz_answer:
  assumes json: "\<And>m. he_json_err env m = None" and log: "logger = Some lg" "lg_logger lg = Some z"
    and route: "\<And>c. he_match env c = Return (readyzPath, Inr ProbeReady)"
    and snap: "tracker_Snapshot (Some t) = Return s"
  shows "\<exists>rq1. http_chain root timeout logger (Some t) env rq = (Return None, rq1) \<and>
    (if fc_content_length (rq_fiber rq) > 0 \<or> fc_request_body (rq_fiber rq) \<noteq> ''''
     then fc_status (rq_fiber rq1) = 400 \<and> fc_body (rq_fiber rq1) = [(''error'', ''invalid_request'')]
     else if Ready s then fc_status (rq_fiber rq1) = 200 \<and> fc_body (rq_fiber rq1) = [(''status'', ''ready'')]
     else fc_status (rq_fiber rq1) = 503 \<and>
       fc_body (rq_fiber rq1) = [(''status'', ''not_ready''), (''reason'', Reason s)])"
proof -
  let ?start = "request_start root timeout rq"
  let ?body = "fc_content_length (rq_fiber rq) > 0 \<or> fc_request_body (rq_fiber rq) \<noteq> ''''"
  have access: "\<exists>rq1. accessLogMiddleware logger env nxt ?start = (Return None, rq1) \<and> fc_status (rq_fiber rq1) = st \<and>
      fc_body (rq_fiber rq1) = b"
    if "\<exists>rq0. nxt ?start = (Return None, rq0) \<and> fc_status (rq_fiber rq0) = st \<and> fc_body (rq_fiber rq0) = b"
    for nxt st b
    using that by (auto simp: accessLogMiddleware_def http_lines [OF log])
  have chain: "\<exists>rq1. http_chain root timeout logger (Some t) env rq = (Return None, rq1) \<and>
      fc_status (rq_fiber rq1) = st \<and> fc_body (rq_fiber rq1) = b"
    if "\<exists>rq1. accessLogMiddleware logger env (recoverMiddleware logger
        (rejectProbeBodyMiddleware (fiber_dispatch env (Some t)))) ?start = (Return None, rq1) \<and>
      fc_status (rq_fiber rq1) = st \<and> fc_body (rq_fiber rq1) = b" for st b
    using that by (auto simp: http_chain_def request_context_eq)
  show ?thesis
  proof (cases ?body)
    case True
    have "errorStatus fiber_ErrBadRequest = 400" by (simp add: errorStatus_def fiber_ErrBadRequest_def word_sle_eq)
    moreover have "errorCode 400 = ''invalid_request''" by (simp add: errorCode_def)
    ultimately have "\<exists>rq1. accessLogMiddleware logger env (recoverMiddleware logger
        (rejectProbeBodyMiddleware (fiber_dispatch env (Some t)))) ?start = (Return None, rq1) \<and>
      fc_status (rq_fiber rq1) = 400 \<and> fc_body (rq_fiber rq1) = [(''error'', ''invalid_request'')]"
      using True json
      by (simp add: accessLogMiddleware_def recoverMiddleware_def rejectProbeBodyMiddleware_def request_start_fiber
          stableErrorHandler_def fiber_json_ok error_members_def http_lines [OF log])
    from chain [OF this] True show ?thesis by auto
  next
    case False
    let ?mid = "with_fiber (\<lambda>c. c\<lparr>fc_route := readyzPath\<rparr>) ?start"
    obtain r rq0 where h: "readyHandler env (Some t) ?mid = (r, rq0)" by fastforce
    have "recoverMiddleware logger (rejectProbeBodyMiddleware (fiber_dispatch env (Some t))) ?start = (Return None, rq0)"
      using False h readyHandler_ok [OF json h]
      by (simp add: recoverMiddleware_def rejectProbeBodyMiddleware_def fiber_dispatch_def route request_start_fiber)
    with readyHandler_ok [OF json h] snap
    have "\<exists>rq0. recoverMiddleware logger (rejectProbeBodyMiddleware (fiber_dispatch env (Some t))) ?start = (Return None, rq0) \<and>
        fc_status (rq_fiber rq0) = (if Ready s then 200 else 503) \<and>
        fc_body (rq_fiber rq0) = (if Ready s then [(''status'', ''ready'')]
          else [(''status'', ''not_ready''), (''reason'', Reason s)])" by (auto split: if_splits)
    from access [where nxt = "recoverMiddleware logger (rejectProbeBodyMiddleware (fiber_dispatch env (Some t)))"
        and st = "if Ready s then 200 else 503" and b = "if Ready s then [(''status'', ''ready'')]
          else [(''status'', ''not_ready''), (''reason'', Reason s)]", OF this] have "\<exists>rq1. accessLogMiddleware logger env (recoverMiddleware logger
        (rejectProbeBodyMiddleware (fiber_dispatch env (Some t)))) ?start = (Return None, rq1) \<and>
      fc_status (rq_fiber rq1) = (if Ready s then 200 else 503) \<and>
      fc_body (rq_fiber rq1) = (if Ready s then [(''status'', ''ready'')]
        else [(''status'', ''not_ready''), (''reason'', Reason s)])" .
    from chain [OF this] False show ?thesis by (auto split: if_splits)
  qed
qed

subsection \<open>Properties\<close>

text \<open>C12: every HTTP request that reaches the registered chain gets one well-formed answer:
  whatever Fiber's router does, error and panic included, the chain returns without error or panic; the response is a probe
  response or, for a status in 400..599, the fixed error code of that status, so nothing of an
  error or a panic is disclosed; the identifier is safe, is the response's header and the one
  logged; exactly one access line is logged, last, with a method and a route from fixed sets,
  after at most one panic line; and the request context has ended.\<close>

theorem http_request_contained:
  assumes json: "\<And>m. he_json_err env m = None" and log: "logger = Some lg" "lg_logger lg = Some z"
  shows "\<exists>rq1 rid panics method route c. http_chain root timeout logger readiness env rq = (Return None, rq1) \<and>
    safe_id rid \<and>
    fc_headers (rq_fiber rq1) = fc_headers (rq_fiber rq) @
      [(requestIDHeader, rid), (''Cache-Control'', ''no-store''), (''X-Content-Type-Options'', ''nosniff'')] \<and>
    (error_response (rq_fiber rq1) \<or> panics = [] \<and> probe_response (rq_fiber rq1)) \<and>
    rq_logs rq1 = rq_logs rq @ panics @ [(http_access_event z method route (sint (fc_status (rq_fiber rq1))) rid
       (he_duration_ms env) (he_body_len env (fc_body (rq_fiber rq1))), ''HTTP request completed'')] \<and>
    (panics = [] \<or> panics = [(http_panic_event z method route rid, ''HTTP request panic recovered'')]) \<and>
    method = safeMethod (fc_method (rq_fiber rq)) \<and> route \<in> {livezPath, readyzPath, ''unmatched''} \<and>
    fc_context (rq_fiber rq1) = Some c \<and> ctx_err (rq_world rq1) c \<noteq> None"
proof -
  let ?start = "request_start root timeout rq"
  obtain r rq0 where inner: "accessLogMiddleware logger env (recoverMiddleware logger
      (rejectProbeBodyMiddleware (fiber_dispatch env readiness))) ?start = (r, rq0)" by fastforce
  from logged_frame [OF json log inner] obtain panics where f: "r = Return None" "same_request ?start rq0"
    and logs: "rq_logs rq0 = rq_logs ?start @ panics @ [(http_access_event z (safeMethod (fc_method (rq_fiber ?start)))
       (safeRoute (rq_fiber rq0)) (sint (fc_status (rq_fiber rq0))) (http_RequestID (rq_world ?start) (fc_context (rq_fiber ?start)))
       (he_duration_ms env) (he_body_len env (fc_body (rq_fiber rq0))), ''HTTP request completed'')]"
    and resp: "error_response (rq_fiber rq0) \<or> panics = [] \<and> probe_response (rq_fiber rq0)"
    and panics: "panics = [] \<or> panics = [(http_panic_event z (safeMethod (fc_method (rq_fiber ?start)))
       (safeRoute (rq_fiber rq0)) (http_RequestID (rq_world ?start) (fc_context (rq_fiber ?start))),
       ''HTTP request panic recovered'')]" by blast
  obtain p where c: "fc_context (rq_fiber ?start) = Some (CtxTimeout (cw_next (rq_world rq)) timeout p)"
    using request_start_fiber(6) by blast
  let ?c = "CtxTimeout (cw_next (rq_world rq)) timeout p"
  let ?rq1 = "rq0\<lparr>rq_world := ctx_cancel ?c (cw_next (rq_world rq)) (rq_world rq0)\<rparr>"
  let ?rid = "fst (http_request_id (fc_get (rq_fiber rq) requestIDHeader) (rq_sequence rq))"
  have "http_chain root timeout logger readiness env rq = (Return None, ?rq1)"
    using inner f c by (simp add: http_chain_def request_context_eq)
  moreover have "safe_id ?rid" by (rule http_ids.assign_safe)
  moreover have "safeRoute (rq_fiber rq0) \<in> {livezPath, readyzPath, ''unmatched''}" by (simp add: safeRoute_def)
  moreover have "fc_context (rq_fiber ?rq1) = Some ?c" "ctx_err (rq_world ?rq1) ?c \<noteq> None"
    using f(2) c by (auto simp: same_request_def ctx_cancel_def split: option.splits)
  moreover have "fc_headers (rq_fiber ?rq1) = fc_headers (rq_fiber rq) @
      [(requestIDHeader, ?rid), (''Cache-Control'', ''no-store''), (''X-Content-Type-Options'', ''nosniff'')]"
    using f(2) by (simp add: same_request_def request_start_fiber)
  ultimately show ?thesis
    using logs resp panics
    by (intro exI [of _ ?rq1] exI [of _ ?rid] exI [of _ panics] exI [of _ "safeMethod (fc_method (rq_fiber rq))"]
        exI [of _ "safeRoute (rq_fiber rq0)"] exI [of _ ?c])
      (simp add: request_start_id request_start_fiber)
qed

text \<open>A router that sends everything to \<open>/readyz\<close>, an encoder that never fails, and a request for
  it.\<close>

definition http_demo_env :: http_env where
  "http_demo_env = \<lparr>he_match = (\<lambda>_. Return (readyzPath, Inr ProbeReady)), he_json_err = (\<lambda>_. None),
     he_body_len = (\<lambda>_. 18), he_duration_ms = 1\<rparr>"

definition http_demo_request :: "unit http_rq" where
  "http_demo_request = \<lparr>rq_fiber = \<lparr>fc_get = (\<lambda>_. ''probe-1''), fc_method = ''GET'', fc_content_length = 0,
       fc_request_body = '''', fc_route = '''', fc_context = None, fc_headers = [], fc_status = 200, fc_body = []\<rparr>,
     rq_logs = [],
     rq_world = \<lparr>cw_ext = (\<lambda>_. None), cw_ext_value = (\<lambda>_ _. None), cw_cell = (\<lambda>_. None),
       cw_next = 0, cw_after = []\<rparr>, rq_sequence = 0\<rparr>"

theorem http_request_contained_witness:
  "\<exists>rq1 rid. http_chain (CtxExternal 0) 1 (Some NopLogger) (Some NewTracker) http_demo_env http_demo_request = (Return None, rq1) \<and>
     safe_id rid \<and> fc_headers (rq_fiber rq1) =
       [(requestIDHeader, rid), (''Cache-Control'', ''no-store''), (''X-Content-Type-Options'', ''nosniff'')]"
  using http_request_contained [of http_demo_env "Some NopLogger" NopLogger _ "CtxExternal 0" 1 "Some NewTracker" http_demo_request]
  by (fastforce simp: http_demo_env_def http_demo_request_def NopLogger_def)

end
