(* ===== verification/Http_New.thy ===== *)
theory Http_New
  imports Http_Handlers
begin

section \<open>Building the HTTP adapter (httpserver/server.go, New)\<close>

text \<open>
  \<open>New\<close> checks its arguments, configures Fiber and registers the middleware and the two probe
  routes. Its result holds the configuration it passes to Fiber and what it registers, in
  order. How Fiber serves a request is Fiber's own: by this configuration (\<open>GETOnly\<close>,
  \<open>BodyLimit\<close>, \<open>ReadBufferSize\<close>) it refuses some requests before any registered handler runs,
  and no definition here says which.
\<close>

datatype 'w fiber_registration =
    FiberUse "http_env \<Rightarrow> 'w http_handler \<Rightarrow> 'w http_handler"
  | FiberGet string "http_env \<Rightarrow> 'w http_handler"

record 'w fiber_config =
  fcfg_ServerHeader :: string
  fcfg_StrictRouting :: bool
  fcfg_CaseSensitive :: bool
  fcfg_DisableHeadAutoRegister :: bool
  fcfg_BodyLimit :: go_int
  fcfg_Concurrency :: go_int
  fcfg_GETOnly :: bool
  fcfg_ReadTimeout :: duration
  fcfg_WriteTimeout :: duration
  fcfg_IdleTimeout :: duration
  fcfg_ReadBufferSize :: go_int
  fcfg_ErrorHandler :: "http_env \<Rightarrow> http_err \<Rightarrow> 'w http_handler"

text \<open>\<open>bh_requestIDs\<close> is the counter the request-context middleware owns.\<close>

record 'w http_build =
  bh_server :: HttpServer
  bh_config :: "'w fiber_config"
  bh_registered :: "'w fiber_registration list"
  bh_requestIDs :: uint64

definition http_New ::
  "root_context \<Rightarrow> HttpConfig \<Rightarrow> Tracker option \<Rightarrow> 'w Logger option \<Rightarrow> (http_err + 'w http_build) outcome" where
  "http_New root config readiness logger =
     (if http_isNilInterface (rc_value root) then Return (Inl (Sentinel HTTP_ErrNilRootContext))
      else if readiness = None then Return (Inl (Sentinel HTTP_ErrNilReadinessTracker))
      else if logger = None then Return (Inl (Sentinel HTTP_ErrNilLogger))
      else case http_validate config of
        Some err \<Rightarrow> Return (Inl err)
      | None \<Rightarrow>
          and_then (log_Component logger ''http'') (\<lambda>httpLogger.
            let cfg = \<lparr>fcfg_ServerHeader = '''', fcfg_StrictRouting = True, fcfg_CaseSensitive = True,
                  fcfg_DisableHeadAutoRegister = True, fcfg_BodyLimit = ReadBufferBytes config,
                  fcfg_Concurrency = MaxConnections config, fcfg_GETOnly = True,
                  fcfg_ReadTimeout = ReadTimeout config, fcfg_WriteTimeout = WriteTimeout config,
                  fcfg_IdleTimeout = IdleTimeout config, fcfg_ReadBufferSize = ReadBufferBytes config,
                  fcfg_ErrorHandler = stableErrorHandler\<rparr>;
                registered =
                  [FiberUse (\<lambda>_. requestContextMiddleware (rc_ctx root) (RequestTimeout config)),
                   FiberUse (accessLogMiddleware (Some httpLogger)),
                   FiberUse (\<lambda>_. recoverMiddleware (Some httpLogger)),
                   FiberUse (\<lambda>_. rejectProbeBodyMiddleware),
                   FiberGet livezPath liveHandler,
                   FiberGet readyzPath (\<lambda>env. readyHandler env readiness)]
            in Return (Inr \<lparr>bh_server = http_new_server, bh_config = cfg, bh_registered = registered,
                 bh_requestIDs = 0\<rparr>)))"

text \<open>
  Middleware that is registered one after the other, with \<open>final\<close> behind the last: what
  \<open>ctx.Next()\<close> runs in one of them is the one registered next.
\<close>

definition fiber_chain :: "http_env \<Rightarrow> (http_env \<Rightarrow> 'w http_handler \<Rightarrow> 'w http_handler) list \<Rightarrow> 'w http_handler \<Rightarrow> 'w http_handler" where
  "fiber_chain env uses final = foldr (\<lambda>middleware next. middleware env next) uses final"

subsection \<open>Properties\<close>

text \<open>C30: what \<open>New\<close> gives and refuses: with an initialized logger it returns, refusing a nil root
  (typed nil included), tracker, logger and an invalid configuration in that order, each with
  its own error. The adapter it gives has not been started; it tells Fiber to accept GET only, to
  route exactly, to read at most 64 KiB of headers and of body, to buffer at most 64 MiB over
  all its connections and to bound every read, write and idle time by at most ten minutes. It
  registers first the middleware, in the order request context (under the given root, with a
  positive limit of at most ten minutes), access log, recovery (both with the component
  logger) and body check, then exactly the two probe routes, the second over the given
  tracker; and an error that leaves the chain is answered by the fixed error responses.\<close>

theorem http_New_outcomes:
  assumes "\<And>l. logger = Some l \<Longrightarrow> lg_logger l \<noteq> None"
  shows "\<exists>out. http_New root config readiness logger = Return out \<and>
      (case out of
         Inl e \<Rightarrow>
           e = (if http_isNilInterface (rc_value root) then Sentinel HTTP_ErrNilRootContext
                else if readiness = None then Sentinel HTTP_ErrNilReadinessTracker
                else if logger = None then Sentinel HTTP_ErrNilLogger else the (http_validate config)) \<and>
           (http_isNilInterface (rc_value root) \<or> readiness = None \<or> logger = None \<or> http_validate config \<noteq> None)
       | Inr b \<Rightarrow>
           \<not> http_isNilInterface (rc_value root) \<and> readiness \<noteq> None \<and> logger \<noteq> None \<and> http_validate config = None \<and>
           bh_server b = hy_srv http_init \<and> bh_requestIDs b = 0 \<and> fcfg_GETOnly (bh_config b) \<and>
           fcfg_StrictRouting (bh_config b) \<and> fcfg_CaseSensitive (bh_config b) \<and>
           fcfg_DisableHeadAutoRegister (bh_config b) \<and> fcfg_ServerHeader (bh_config b) = '''' \<and>
           1 \<le> sint (fcfg_BodyLimit (bh_config b)) \<and> sint (fcfg_BodyLimit (bh_config b)) \<le> 65536 \<and>
           fcfg_ReadBufferSize (bh_config b) = fcfg_BodyLimit (bh_config b) \<and>
           sint (fcfg_ReadBufferSize (bh_config b)) * sint (fcfg_Concurrency (bh_config b)) \<le> 64 * 1024 * 1024 \<and>
           positive_up_to_ten_minutes (fcfg_ReadTimeout (bh_config b)) \<and>
           positive_up_to_ten_minutes (fcfg_WriteTimeout (bh_config b)) \<and>
           positive_up_to_ten_minutes (fcfg_IdleTimeout (bh_config b)) \<and>
           fcfg_ErrorHandler (bh_config b) = stableErrorHandler \<and>
           (\<exists>uses timeout httpLogger.
              bh_registered b = map FiberUse uses @
                [FiberGet livezPath liveHandler, FiberGet readyzPath (\<lambda>env. readyHandler env readiness)] \<and>
              positive_up_to_ten_minutes timeout \<and> log_Component logger ''http'' = Return httpLogger \<and>
              (\<forall>env final. fiber_chain env uses final =
                 requestContextMiddleware (rc_ctx root) timeout
                   (accessLogMiddleware (Some httpLogger) env
                     (recoverMiddleware (Some httpLogger) (rejectProbeBodyMiddleware final))))))"
proof (cases "http_isNilInterface (rc_value root) \<or> readiness = None \<or> logger = None \<or> http_validate config \<noteq> None")
  case True
  then show ?thesis by (auto simp: http_New_def split: option.splits)
next
  case False
  then obtain t l where tl: "readiness = Some t" "logger = Some l" by auto
  with assms obtain z where z: "lg_logger l = Some z" by auto
  from False have ok: "http_validate config = None" by simp
  obtain hl where hl: "log_Component logger ''http'' = Return hl" using tl z by (simp add: log_Component_def mustLogger_def)
  let ?uses = "[\<lambda>_. requestContextMiddleware (rc_ctx root) (RequestTimeout config), accessLogMiddleware (Some hl),
    \<lambda>_. recoverMiddleware (Some hl), \<lambda>_. rejectProbeBodyMiddleware]"
  obtain b where b: "http_New root config readiness logger = Return (Inr b)" and fields: "bh_server b = http_new_server"
    "bh_requestIDs b = 0" "fcfg_GETOnly (bh_config b)" "fcfg_BodyLimit (bh_config b) = ReadBufferBytes config"
    "fcfg_StrictRouting (bh_config b)" "fcfg_CaseSensitive (bh_config b)" "fcfg_DisableHeadAutoRegister (bh_config b)"
    "fcfg_ServerHeader (bh_config b) = ''''"
    "fcfg_ReadBufferSize (bh_config b) = ReadBufferBytes config" "fcfg_Concurrency (bh_config b) = MaxConnections config"
    "fcfg_ReadTimeout (bh_config b) = ReadTimeout config" "fcfg_WriteTimeout (bh_config b) = WriteTimeout config"
    "fcfg_IdleTimeout (bh_config b) = IdleTimeout config" "fcfg_ErrorHandler (bh_config b) = stableErrorHandler"
    "bh_registered b = map FiberUse ?uses @
       [FiberGet livezPath liveHandler, FiberGet readyzPath (\<lambda>env. readyHandler env readiness)]"
    using False hl by (auto simp: http_New_def)
  have chain: "fiber_chain env ?uses final = requestContextMiddleware (rc_ctx root) (RequestTimeout config)
      (accessLogMiddleware (Some hl) env (recoverMiddleware (Some hl) (rejectProbeBodyMiddleware final)))" for env final
    by (simp add: fiber_chain_def)
  note bounds = iffD1 [OF http_validate_accepts ok]
  have ex: "\<exists>uses timeout httpLogger.
      bh_registered b = map FiberUse uses @
        [FiberGet livezPath liveHandler, FiberGet readyzPath (\<lambda>env. readyHandler env readiness)] \<and>
      positive_up_to_ten_minutes timeout \<and> log_Component logger ''http'' = Return httpLogger \<and>
      (\<forall>env final. fiber_chain env uses final =
         requestContextMiddleware (rc_ctx root) timeout
           (accessLogMiddleware (Some httpLogger) env
             (recoverMiddleware (Some httpLogger) (rejectProbeBodyMiddleware final))))"
    by (intro exI [of _ ?uses] exI [of _ "RequestTimeout config"] exI [of _ hl] conjI allI chain fields(15) hl)
      (use bounds in simp)
  show ?thesis unfolding b using False fields(1-14) bounds ex by (simp add: http_init_def)
qed

theorem http_New_outcomes_witness:
  "\<exists>b. http_New \<lparr>rc_value = Dynamic KPointer False, rc_ctx = CtxExternal 0\<rparr> http_DefaultConfig (Some NewTracker)
       (Some (NopLogger :: unit Logger)) = Return (Inr b) \<and> fcfg_GETOnly (bh_config b) \<and>
     last (bh_registered b) = FiberGet readyzPath (\<lambda>env. readyHandler env (Some NewTracker))"
proof -
  have log: "lg_logger l \<noteq> None" if "Some (NopLogger :: unit Logger) = Some l" for l
    using that by (auto simp: NopLogger_def)
  let ?root = "\<lparr>rc_value = Dynamic KPointer False, rc_ctx = CtxExternal 0\<rparr>"
  let ?root = "\<lparr>rc_value = Dynamic KPointer False, rc_ctx = CtxExternal 0\<rparr>"
  note fact = http_New_outcomes [of "Some (NopLogger :: unit Logger)" ?root http_DefaultConfig "Some NewTracker", OF log]
  obtain out where out: "http_New ?root http_DefaultConfig (Some NewTracker) (Some (NopLogger :: unit Logger)) = Return out"
    and c: "\<And>e. out \<noteq> Inl e"
      "\<And>b. out = Inr b \<Longrightarrow> fcfg_GETOnly (bh_config b) \<and>
        (\<exists>uses. bh_registered b = map FiberUse uses @
          [FiberGet livezPath liveHandler, FiberGet readyzPath (\<lambda>env. readyHandler env (Some NewTracker))])"
    by (rule exE [OF fact], assumption, erule conjE)
      (rule that, assumption, auto simp: http_default_accepted http_isNilInterface_def split: sum.splits)
  from c(1) obtain b where b: "out = Inr b" by (cases out) auto
  with c(2) [OF b] out show ?thesis by auto
qed

end
