(* ===== verification/Go_Json.thy ===== *)
theory Go_Json
  imports Go_Strings
begin

section \<open>JSON of flat string objects\<close>

text \<open>
  What \<open>encoding/json\<close> writes for a struct of strings with HTML escaping off: control
  characters, quote and backslash are escaped, a byte that starts no valid UTF-8 encoding
  becomes U+FFFD, U+2028 and U+2029 are escaped, everything else is copied. The reader at the
  end reads back such objects as long as their strings are ASCII.
\<close>

definition quote_char :: char where "quote_char = CHR 0x22"
definition backslash :: char where "backslash = CHR 0x5C"

definition hex_digit :: "nat \<Rightarrow> char" where
  "hex_digit n = ''0123456789abcdef'' ! n"

definition json_escape_ascii :: "nat \<Rightarrow> string" where
  "json_escape_ascii b =
     (if b = 0x22 \<or> b = 0x5C then [backslash, char_of b]
      else if b = 0x08 then [backslash, CHR ''b'']
      else if b = 0x0C then [backslash, CHR ''f'']
      else if b = 0x0A then [backslash, CHR ''n'']
      else if b = 0x0D then [backslash, CHR ''r'']
      else if b = 0x09 then [backslash, CHR ''t'']
      else if b < 0x20 then [backslash, CHR ''u'', CHR ''0'', CHR ''0'', hex_digit (b div 16), hex_digit (b mod 16)]
      else [char_of b])"

function json_escape :: "nat list \<Rightarrow> string" where
  "json_escape [] = []"
| "json_escape (b # bs) =
     (if b < 0x80 then json_escape_ascii b @ json_escape bs
      else
        (let (r, w) = decode_rune b bs
         in (if r = rune_error \<and> w = 1 then backslash # ''ufffd''
             else if r = 0x2028 \<or> r = 0x2029 then backslash # ''u202'' @ [hex_digit (r mod 16)]
             else map char_of (take w (b # bs))) @
            json_escape (drop (w - 1) bs)))"
  by pat_completeness auto
termination
  by (relation "measure length") auto

definition json_string :: "string \<Rightarrow> string" where
  "json_string s = quote_char # json_escape (map byte s) @ [quote_char]"

definition json_member :: "string \<times> string \<Rightarrow> string" where
  "json_member m = json_string (fst m) @ '':'' @ json_string (snd m)"

fun json_members :: "(string \<times> string) list \<Rightarrow> string" where
  "json_members [] = []"
| "json_members [m] = json_member m"
| "json_members (m # ms) = json_member m @ '','' @ json_members ms"

definition json_object :: "(string \<times> string) list \<Rightarrow> string" where
  "json_object ms = ''{'' @ json_members ms @ ''}''"

subsection \<open>Reading it back\<close>

definition hex_value :: "char \<Rightarrow> nat option" where
  "hex_value c = (if c \<in> set ''0123456789abcdef'' then Some (digit_value c) else None)"

definition unescape_char :: "char \<Rightarrow> char option" where
  "unescape_char c =
     (if c = quote_char \<or> c = backslash \<or> c = CHR ''/'' then Some c
      else if c = CHR ''b'' then Some (CHR 0x08)
      else if c = CHR ''f'' then Some (CHR 0x0C)
      else if c = CHR ''n'' then Some (CHR 0x0A)
      else if c = CHR ''r'' then Some (CHR 0x0D)
      else if c = CHR ''t'' then Some (CHR 0x09)
      else None)"

text \<open>One character of a JSON string, and what follows it.\<close>

definition read_char :: "string \<Rightarrow> (char \<times> string) option" where
  "read_char s =
     (case s of
        [] \<Rightarrow> None
      | c # s1 \<Rightarrow>
          (if c \<noteq> backslash then Some (c, s1)
           else case s1 of
             [] \<Rightarrow> None
           | e # s2 \<Rightarrow>
               (if e \<noteq> CHR ''u'' then map_option (\<lambda>d. (d, s2)) (unescape_char e)
                else case s2 of
                  z1 # z2 # h # l # s3 \<Rightarrow>
                    (case (hex_value h, hex_value l) of
                       (Some n, Some m) \<Rightarrow>
                         (if z1 = CHR ''0'' \<and> z2 = CHR ''0'' \<and> n < 8 then Some (char_of (16 * n + m), s3) else None)
                     | _ \<Rightarrow> None)
                | _ \<Rightarrow> None)))"

lemma read_char_shorter: "read_char s = Some (c, s') \<Longrightarrow> length s' < length s"
  by (auto simp: read_char_def split: list.splits if_splits option.splits)

function read_chars :: "string \<Rightarrow> (string \<times> string) option" where
  "read_chars s =
     (case s of
        [] \<Rightarrow> None
      | q # s1 \<Rightarrow>
          (if q = quote_char then Some ([], s1)
           else case read_char s of
             None \<Rightarrow> None
           | Some (c, s2) \<Rightarrow> map_option (\<lambda>(cs, r). (c # cs, r)) (read_chars s2)))"
  by pat_completeness auto
termination
  by (relation "measure length") (auto dest: read_char_shorter)

declare read_chars.simps [simp del]

fun expect :: "string \<Rightarrow> string \<Rightarrow> string option" where
  "expect [] s = Some s"
| "expect (c # cs) (d # s) = (if c = d then expect cs s else None)"
| "expect (c # cs) [] = None"

text \<open>The members with the given names, in that order, after the separator \<open>sep\<close>.\<close>

fun read_members :: "string \<Rightarrow> string list \<Rightarrow> string \<Rightarrow> string list option" where
  "read_members sep [] s = (if s = ''}'' then Some [] else None)"
| "read_members sep (n # ns) s =
     (case expect (sep @ json_string n @ '':'' @ [quote_char]) s of
        None \<Rightarrow> None
      | Some s1 \<Rightarrow>
          (case read_chars s1 of
             None \<Rightarrow> None
           | Some (v, s2) \<Rightarrow> map_option ((#) v) (read_members '','' ns s2)))"

lemma expect_append [simp]: "expect (p @ q) (p @ s) = expect q s"
  by (induction p) auto

definition ascii :: "string \<Rightarrow> bool" where
  "ascii s \<longleftrightarrow> (\<forall>c \<in> set s. byte c < 0x80)"

text \<open>An ASCII character, escaped, reads back as itself; checked for each of the 128.\<close>

lemma escape_ascii_table:
  "\<forall>n \<in> set [0..<128]. json_escape_ascii n \<noteq> [] \<and> hd (json_escape_ascii n) \<noteq> quote_char \<and>
     read_char (json_escape_ascii n) = Some (char_of n, [])"
  by code_simp

lemma read_char_append: "read_char s = Some (c, s') \<Longrightarrow> read_char (s @ r) = Some (c, s' @ r)"
  by (auto simp: read_char_def split: list.splits if_splits option.splits)

lemma read_chars_escape:
  "ascii s \<Longrightarrow> read_chars (json_escape (map byte s) @ quote_char # r) = Some (s, r)"
proof (induction s)
  case Nil
  show ?case by (simp add: read_chars.simps)
next
  case (Cons c s)
  then have c: "byte c < 0x80" and s: "ascii s" by (auto simp: ascii_def)
  let ?e = "json_escape_ascii (byte c)"
  from c have "byte c \<in> set [0..<128]" by simp
  with escape_ascii_table have e: "?e \<noteq> []" "hd ?e \<noteq> quote_char" "read_char ?e = Some (char_of (byte c), [])" by blast+
  have "char_of (byte c) = c" by (simp add: byte_def)
  moreover obtain e0 es where "?e = e0 # es" "e0 \<noteq> quote_char" using e by (cases ?e) auto
  ultimately show ?case
    using c e(3) Cons.IH [OF s] read_char_append [OF e(3), of "json_escape (map byte s) @ quote_char # r"]
    by (subst read_chars.simps) simp
qed

text \<open>So an object whose values are ASCII reads back, member by member.\<close>

lemma read_members_tail:
  assumes "\<forall>m \<in> set ms. ascii (snd m)"
  shows "read_members '','' (map fst ms) (concat (map (\<lambda>m. '','' @ json_member m) ms) @ ''}'') = Some (map snd ms)"
  using assms
  by (induction ms) (simp_all add: json_member_def json_string_def read_chars_escape)

lemma json_members_concat:
  "json_members (m # ms) = json_member m @ concat (map (\<lambda>m. '','' @ json_member m) ms)"
  by (induction ms arbitrary: m) auto

lemma read_json_object:
  assumes "ms \<noteq> []" and "\<forall>m \<in> set ms. ascii (snd m)"
  shows "read_members ''{'' (map fst ms) (json_object ms) = Some (map snd ms)"
proof -
  obtain m ms' where "ms = m # ms'" using assms(1) by (cases ms) auto
  then show ?thesis
    using assms(2) read_members_tail [of ms']
    by (simp add: json_object_def json_members_concat json_member_def json_string_def read_chars_escape)
qed

end
