(* ===== verification/Build_Cli.thy ===== *)
theory Build_Cli
  imports Go_Json Go_Errors
begin

section \<open>The node command (internal/cli, internal/buildinfo, cmd/finalweave-node)\<close>

text \<open>
  The binary has a root command, which refuses to run a node, and \<open>version\<close>. Cobra is library
  code: a command is what the code stores in it, and \<open>Execute\<close> is a parameter, of which
  \<open>cobra_contract\<close> says what its documentation promises for the fields that the code sets. The
  writers of the process are functions from the bytes written to the bytes that arrive and the
  error of the write.
\<close>

datatype cli_error = CLI_ErrNodeRuntimeUnavailable

type_synonym cli_err = "cli_error go_error"
type_synonym io_writer = "string \<Rightarrow> string \<times> cli_err option"

subsection \<open>Build metadata\<close>

record Info =
  info_Version :: string
  info_Commit :: string
  info_Date :: string
  info_GoVersion :: string
  info_OS :: string
  info_Arch :: string

text \<open>The package variables that a release build sets, and what \<open>runtime\<close> reports.\<close>

record build_vars =
  bv_version :: string
  bv_commit :: string
  bv_date :: string

definition default_build_vars :: build_vars where
  "default_build_vars = \<lparr>bv_version = ''dev'', bv_commit = ''none'', bv_date = ''unknown''\<rparr>"

record runtime_facts =
  rt_Version :: string
  rt_GOOS :: string
  rt_GOARCH :: string

definition info_Current :: "build_vars \<Rightarrow> runtime_facts \<Rightarrow> Info" where
  "info_Current v rt =
     \<lparr>info_Version = bv_version v, info_Commit = bv_commit v, info_Date = bv_date v,
      info_GoVersion = rt_Version rt, info_OS = rt_GOOS rt, info_Arch = rt_GOARCH rt\<rparr>"

definition info_members :: "Info \<Rightarrow> (string \<times> string) list" where
  "info_members info =
     [(''version'', info_Version info), (''commit'', info_Commit info), (''date'', info_Date info),
      (''go'', info_GoVersion info), (''os'', info_OS info), (''arch'', info_Arch info)]"

subsection \<open>Commands\<close>

record flag_spec =
  flag_name :: string
  flag_shorthand :: string
  flag_default :: string
  flag_usage :: string

text \<open>\<open>cmd_RunE\<close> takes the writer of \<open>OutOrStdout\<close> and the value of the command's flag.\<close>

record command_fields =
  cmd_Use :: string
  cmd_Short :: string
  cmd_Long :: string
  cmd_SilenceErrors :: bool
  cmd_SilenceUsage :: bool
  cmd_NoArgs :: bool
  cmd_DisableDefaultCmd :: bool
  cmd_flags :: "flag_spec list"
  cmd_RunE :: "io_writer \<Rightarrow> string \<Rightarrow> string \<times> cli_err option"

datatype cobra_command = Command command_fields "cobra_command list"

fun command_fields_of :: "cobra_command \<Rightarrow> command_fields" where
  "command_fields_of (Command f subs) = f"

fun subcommands :: "cobra_command \<Rightarrow> cobra_command list" where
  "subcommands (Command f subs) = subs"

definition outputText :: string where "outputText = ''text''"
definition outputJSON :: string where "outputJSON = ''json''"

definition newline :: string where "newline = [CHR 0x0A]"

definition version_text :: "Info \<Rightarrow> string" where
  "version_text info =
     ''finalweave-node '' @ info_Version info @ newline @ ''commit: '' @ info_Commit info @ newline @
     ''built: '' @ info_Date info @ newline @ ''go: '' @ info_GoVersion info @ newline @
     ''platform: '' @ info_OS info @ ''/'' @ info_Arch info @ newline"

definition version_json :: "Info \<Rightarrow> string" where
  "version_json info = json_object (info_members info) @ newline"

definition version_RunE :: "Info \<Rightarrow> io_writer \<Rightarrow> string \<Rightarrow> string \<times> cli_err option" where
  "version_RunE info out output =
     (if output = outputText then out (version_text info)
      else if output = outputJSON then out (version_json info)
      else ('''', Some (Plain ''unsupported output format %q: use text or json'' [FmtString output])))"

definition newVersionCommand :: "Info \<Rightarrow> cobra_command" where
  "newVersionCommand info =
     Command \<lparr>cmd_Use = ''version'', cmd_Short = ''Show build version information'', cmd_Long = '''',
        cmd_SilenceErrors = False, cmd_SilenceUsage = False, cmd_NoArgs = True, cmd_DisableDefaultCmd = False,
        cmd_flags = [\<lparr>flag_name = ''output'', flag_shorthand = ''o'', flag_default = outputText,
          flag_usage = ''output format: text or json''\<rparr>],
        cmd_RunE = version_RunE info\<rparr> []"

text \<open>The tree with the writers set on its root.\<close>

record node_command =
  nc_tree :: cobra_command
  nc_out :: io_writer
  nc_err :: io_writer

definition NewNodeCommand :: "io_writer \<Rightarrow> io_writer \<Rightarrow> Info \<Rightarrow> node_command" where
  "NewNodeCommand out errOut info =
     \<lparr>nc_tree = Command
        \<lparr>cmd_Use = ''finalweave-node'', cmd_Short = ''FinalWeave node bootstrap diagnostics'',
         cmd_Long = ''FinalWeave node bootstrap diagnostics. The consensus runtime is not implemented yet.'',
         cmd_SilenceErrors = True, cmd_SilenceUsage = True, cmd_NoArgs = True, cmd_DisableDefaultCmd = True,
         cmd_flags = [],
         cmd_RunE = (\<lambda>_ _. ('''', Some (Sentinel CLI_ErrNodeRuntimeUnavailable)))\<rparr>
        [newVersionCommand info],
      nc_out = out, nc_err = errOut\<rparr>"

subsection \<open>Execute and main\<close>

text \<open>
  What cobra may make of the arguments: a refusal of its own (an unknown flag, an argument that
  \<open>Args\<close> does not allow), help, an answer to a shell's completion request (the hidden
  \<open>__complete\<close>), the script of the default \<open>completion\<close> command, or the \<open>RunE\<close> of the command at a path
  of names below the root, with the positional arguments and the flag value it was given.
\<close>

datatype cobra_way =
    CobraRefuse cli_err
  | CobraHelp string
  | CobraComplete string
  | CobraCompletionScript string
  | CobraRun "string list" "string list" "string option"

text \<open>One execution: what was written to the output writer, the error that \<open>Execute\<close> returned, the
  errors it printed itself, and whether it printed the usage because of an error.\<close>

record cobra_execution =
  cx_way :: cobra_way
  cx_stdout :: string
  cx_err :: "cli_err option"
  cx_printed :: "cli_err list"
  cx_usage :: bool

type_synonym cobra = "node_command \<Rightarrow> string list \<Rightarrow> cobra_execution"

fun find_command :: "cobra_command \<Rightarrow> string list \<Rightarrow> cobra_command option" where
  "find_command c [] = Some c"
| "find_command c (n # ns) =
     (case find (\<lambda>d. cmd_Use (command_fields_of d) = n) (subcommands c) of
        None \<Rightarrow> None
      | Some d \<Rightarrow> find_command d ns)"

definition flag_value :: "command_fields \<Rightarrow> string option \<Rightarrow> string" where
  "flag_value f given =
     (case given of Some v \<Rightarrow> v | None \<Rightarrow> (case cmd_flags f of [] \<Rightarrow> '''' | spec # _ \<Rightarrow> flag_default spec))"

text \<open>
  The documented behaviour of cobra, for each way: a command that runs exists, gets no positional
  argument when its \<open>Args\<close> is \<open>NoArgs\<close>, and its \<open>RunE\<close> decides output and error; a refusal
  returns its error and writes nothing; help and completion requests return no error; there is
  a \<open>completion\<close> command only where it is not disabled. Of its own accord cobra prints errors
  only where there is one and the root's \<open>SilenceErrors\<close> is not set, and the usage (on the
  output writer) only where \<open>SilenceUsage\<close> is not.
\<close>

definition cobra_way_ok :: "node_command \<Rightarrow> cobra_execution \<Rightarrow> bool" where
  "cobra_way_ok cmd x \<longleftrightarrow>
     (case cx_way x of
        CobraRefuse e \<Rightarrow> cx_err x = Some e \<and> (\<not> cx_usage x \<longrightarrow> cx_stdout x = '''')
      | CobraHelp t \<Rightarrow> cx_err x = None \<and> cx_stdout x = fst (nc_out cmd t)
      | CobraComplete t \<Rightarrow> cx_err x = None \<and> cx_stdout x = fst (nc_out cmd t)
      | CobraCompletionScript t \<Rightarrow> \<not> cmd_DisableDefaultCmd (command_fields_of (nc_tree cmd))
      | CobraRun path positional given \<Rightarrow>
          (case find_command (nc_tree cmd) path of
             None \<Rightarrow> False
           | Some c \<Rightarrow>
               (cmd_NoArgs (command_fields_of c) \<longrightarrow> positional = []) \<and>
               (let result = cmd_RunE (command_fields_of c) (nc_out cmd) (flag_value (command_fields_of c) given)
                in cx_err x = snd result \<and> (\<not> cx_usage x \<longrightarrow> cx_stdout x = fst result))))"

definition cobra_contract :: "cobra \<Rightarrow> bool" where
  "cobra_contract execute \<longleftrightarrow>
     (\<forall>cmd args. let x = execute cmd args; root = command_fields_of (nc_tree cmd) in
        cobra_way_ok cmd x \<and>
        (cx_printed x \<noteq> [] \<longrightarrow> cx_err x \<noteq> None \<and> \<not> cmd_SilenceErrors root) \<and>
        (cx_usage x \<longrightarrow> cx_err x \<noteq> None \<and> \<not> cmd_SilenceUsage root))"

text \<open>What the process leaves: standard output, the errors printed on standard error, whether a
  usage was printed with them, the exit code.\<close>

record process_result =
  px_stdout :: string
  px_stderr :: "cli_err list"
  px_usage :: bool
  px_exit :: nat

definition node_main ::
  "cobra \<Rightarrow> io_writer \<Rightarrow> io_writer \<Rightarrow> build_vars \<Rightarrow> runtime_facts \<Rightarrow> string list \<Rightarrow> process_result" where
  "node_main execute stdout stderr vars rt args =
     (let x = execute (NewNodeCommand stdout stderr (info_Current vars rt)) args in
      case cx_err x of
        Some err \<Rightarrow> \<lparr>px_stdout = cx_stdout x, px_stderr = cx_printed x @ [err], px_usage = cx_usage x, px_exit = 1\<rparr>
      | None \<Rightarrow> \<lparr>px_stdout = cx_stdout x, px_stderr = cx_printed x, px_usage = cx_usage x, px_exit = 0\<rparr>)"

subsection \<open>What can be run\<close>

lemma commands_there_are:
  "find_command (nc_tree (NewNodeCommand out err info)) path =
     (if path = [] then Some (nc_tree (NewNodeCommand out err info))
      else if path = [''version''] then Some (newVersionCommand info) else None)"
proof (cases path)
  case (Cons n ns)
  then show ?thesis by (cases ns) (auto simp: NewNodeCommand_def newVersionCommand_def)
qed simp

text \<open>What the contract gives for this tree.\<close>

lemma node_execution:
  fixes out errOut info args
  assumes "cobra_contract execute"
  defines "x \<equiv> execute (NewNodeCommand out errOut info) args"
  shows "cx_printed x = []" and "\<not> cx_usage x" and "\<And>t. cx_way x \<noteq> CobraCompletionScript t"
    and "cobra_way_ok (NewNodeCommand out errOut info) x"
proof -
  have way: "cobra_way_ok (NewNodeCommand out errOut info) x"
    and flags: "cx_printed x \<noteq> [] \<longrightarrow> \<not> cmd_SilenceErrors (command_fields_of (nc_tree (NewNodeCommand out errOut info)))"
      "cx_usage x \<longrightarrow> \<not> cmd_SilenceUsage (command_fields_of (nc_tree (NewNodeCommand out errOut info)))"
    using assms unfolding cobra_contract_def Let_def by blast+
  show "cx_printed x = []" "\<not> cx_usage x" using flags by (auto simp: NewNodeCommand_def)
  show "cobra_way_ok (NewNodeCommand out errOut info) x" by (rule way)
  show "cx_way x \<noteq> CobraCompletionScript t" for t
    using way by (auto simp: cobra_way_ok_def NewNodeCommand_def)
qed

lemma node_run:
  assumes way: "cobra_way_ok (NewNodeCommand out errOut info) x" and "\<not> cx_usage x"
    and run: "cx_way x = CobraRun path positional given"
  shows "positional = [] \<and>
    (path = [] \<and> cx_stdout x = '''' \<and> cx_err x = Some (Sentinel CLI_ErrNodeRuntimeUnavailable) \<or>
     path = [''version''] \<and>
       cx_stdout x = fst (version_RunE info out (case given of Some v \<Rightarrow> v | None \<Rightarrow> outputText)) \<and>
       cx_err x = snd (version_RunE info out (case given of Some v \<Rightarrow> v | None \<Rightarrow> outputText)))"
proof -
  let ?cmd = "NewNodeCommand out errOut info"
  from way run obtain c where c: "find_command (nc_tree ?cmd) path = Some c"
    by (auto simp: cobra_way_ok_def split: option.splits)
  then consider "path = []" "c = nc_tree ?cmd" | "path = [''version'']" "c = newVersionCommand info"
    by (auto simp: commands_there_are split: if_splits)
  then show ?thesis
  proof cases
    case 1
    with way assms(2) run c show ?thesis
      by (simp add: cobra_way_ok_def Let_def del: find_command.simps) (simp add: NewNodeCommand_def)
  next
    case 2
    moreover have "nc_out ?cmd = out" by (simp add: NewNodeCommand_def)
    ultimately show ?thesis
      using way assms(2) run c
      by (simp add: cobra_way_ok_def Let_def del: find_command.simps)
        (simp add: newVersionCommand_def flag_value_def split: option.splits)
  qed
qed

subsection \<open>Properties\<close>

text \<open>C37: the bootstrap binary never passes for a running node: whatever the arguments, the build
  and the writers are, and however cobra, within its documentation, handles them, the process
  exits with 0 exactly when it printed help, answered a completion request or wrote the
  version, without arguments, in one of the two known formats and without a write error;
  every other run exits with 1; on standard error there is exactly one error then and none
  otherwise, and no usage; no completion command runs; a command runs without positional
  arguments only, a failed run that is not a \<open>version\<close> has written nothing, and a run of the root
  command reports \<open>ErrNodeRuntimeUnavailable\<close>.\<close>

theorem node_fails_closed:
  assumes cobra: "cobra_contract execute"
  shows "let info = info_Current vars rt;
       way = cx_way (execute (NewNodeCommand stdout stderr info) args);
       res = node_main execute stdout stderr vars rt args
   in (px_exit res = 0 \<longleftrightarrow>
        (\<exists>t. way = CobraHelp t \<or> way = CobraComplete t) \<or>
        (way = CobraRun [''version''] [] None \<or> way = CobraRun [''version''] [] (Some outputText)) \<and>
          snd (stdout (version_text info)) = None \<or>
        way = CobraRun [''version''] [] (Some outputJSON) \<and> snd (stdout (version_json info)) = None) \<and>
      (px_exit res = 0 \<longleftrightarrow> px_stderr res = []) \<and> (px_exit res = 1 \<longleftrightarrow> (\<exists>e. px_stderr res = [e])) \<and>
      (px_exit res = 0 \<or> px_exit res = 1) \<and> \<not> px_usage res \<and>
      (\<forall>t. way \<noteq> CobraCompletionScript t) \<and>
      (\<forall>path positional given. way = CobraRun path positional given \<longrightarrow> positional = []) \<and>
      (px_exit res = 1 \<and> (\<forall>given. way \<noteq> CobraRun [''version''] [] given) \<longrightarrow> px_stdout res = '''') \<and>
      (\<forall>positional given. way = CobraRun [] positional given \<longrightarrow>
         px_stdout res = '''' \<and> px_stderr res = [Sentinel CLI_ErrNodeRuntimeUnavailable] \<and> px_exit res = 1)"
proof -
  let ?cmd = "NewNodeCommand stdout stderr (info_Current vars rt)"
  let ?x = "execute ?cmd args"
  note x = node_execution [OF cobra, of stdout stderr "info_Current vars rt" args]
  have formats: "outputText \<noteq> outputJSON" by (simp add: outputText_def outputJSON_def)
  show ?thesis
  proof (cases "cx_way ?x")
    case (CobraRun path positional given)
    show ?thesis
      using node_run [OF x(4,2) CobraRun] x(1,2) CobraRun formats
      by (auto simp: node_main_def version_RunE_def Let_def split: option.splits if_splits) metis+
  qed (use x in \<open>auto simp: node_main_def cobra_way_ok_def Let_def split: option.splits\<close>)
qed

text \<open>A cobra that runs the command named by the arguments and refuses everything else: it keeps the
  contract.\<close>

definition demo_cobra :: cobra where
  "demo_cobra cmd args =
     (case find_command (nc_tree cmd) args of
        None \<Rightarrow> \<lparr>cx_way = CobraRefuse (Foreign ''unknown command'' []), cx_stdout = '''',
          cx_err = Some (Foreign ''unknown command'' []), cx_printed = [], cx_usage = False\<rparr>
      | Some c \<Rightarrow>
          (let result = cmd_RunE (command_fields_of c) (nc_out cmd) (flag_value (command_fields_of c) None)
           in \<lparr>cx_way = CobraRun args [] None, cx_stdout = fst result, cx_err = snd result,
                cx_printed = [], cx_usage = False\<rparr>))"

lemma demo_cobra_contract: "cobra_contract demo_cobra"
  by (simp add: cobra_contract_def cobra_way_ok_def demo_cobra_def Let_def split: option.splits)

theorem node_fails_closed_witness:
  "node_main demo_cobra (\<lambda>s. (s, None)) (\<lambda>s. (s, None))
     default_build_vars \<lparr>rt_Version = ''go1.26'', rt_GOOS = ''linux'', rt_GOARCH = ''amd64''\<rparr> [] =
   \<lparr>px_stdout = '''', px_stderr = [Sentinel CLI_ErrNodeRuntimeUnavailable], px_usage = False, px_exit = 1\<rparr> \<and>
   px_exit (node_main demo_cobra (\<lambda>s. (s, None)) (\<lambda>s. (s, None))
     default_build_vars \<lparr>rt_Version = ''go1.26'', rt_GOOS = ''linux'', rt_GOARCH = ''amd64''\<rparr> [''version'']) = 0"
proof -
  let ?rt = "\<lparr>rt_Version = ''go1.26'', rt_GOOS = ''linux'', rt_GOARCH = ''amd64''\<rparr>" and ?w = "\<lambda>s. (s, None)"
  have way: "cx_way (demo_cobra (NewNodeCommand ?w ?w info) path) = CobraRun path [] None"
    if "path = [] \<or> path = [''version'']" for info path
    using that by (auto simp: demo_cobra_def commands_there_are Let_def)
  note fact = node_fails_closed [OF demo_cobra_contract, of default_build_vars ?rt ?w ?w, unfolded Let_def]
  show ?thesis
    using fact [of "[]"] fact [of "[''version'']"] way by simp
qed

text \<open>\<open>version --output json\<close> writes one object and a newline, and the object reads back, member
  by member and in order, as the metadata of the binary when that is ASCII.\<close>

theorem version_json_roundtrip:
  assumes "ascii (info_Version info)" "ascii (info_Commit info)" "ascii (info_Date info)"
    "ascii (info_GoVersion info)" "ascii (info_OS info)" "ascii (info_Arch info)"
  shows "\<exists>line. version_RunE info out outputJSON = out (line @ newline) \<and>
      read_members ''{'' [''version'', ''commit'', ''date'', ''go'', ''os'', ''arch''] line =
        Some [info_Version info, info_Commit info, info_Date info, info_GoVersion info, info_OS info, info_Arch info]"
proof -
  have "read_members ''{'' (map fst (info_members info)) (json_object (info_members info)) = Some (map snd (info_members info))"
    by (rule read_json_object) (use assms in \<open>simp_all add: info_members_def\<close>)
  then have "read_members ''{'' [''version'', ''commit'', ''date'', ''go'', ''os'', ''arch''] (json_object (info_members info)) =
      Some [info_Version info, info_Commit info, info_Date info, info_GoVersion info, info_OS info, info_Arch info]"
    by (simp add: info_members_def del: read_members.simps)
  moreover have "version_RunE info out outputJSON = out (json_object (info_members info) @ newline)"
    by (simp add: version_RunE_def version_json_def outputText_def outputJSON_def)
  ultimately show ?thesis by blast
qed

theorem version_json_roundtrip_witness:
  "\<exists>line. version_RunE (info_Current default_build_vars \<lparr>rt_Version = ''go1.26'', rt_GOOS = ''linux'', rt_GOARCH = ''amd64''\<rparr>)
       (\<lambda>s. (s, None)) outputJSON = (line @ newline, None) \<and>
     read_members ''{'' [''version'', ''commit'', ''date'', ''go'', ''os'', ''arch''] line =
       Some [''dev'', ''none'', ''unknown'', ''go1.26'', ''linux'', ''amd64'']"
  using version_json_roundtrip [of "info_Current default_build_vars
      \<lparr>rt_Version = ''go1.26'', rt_GOOS = ''linux'', rt_GOARCH = ''amd64''\<rparr>" "\<lambda>s. (s, None)"]
  by (simp add: info_Current_def default_build_vars_def ascii_def byte_def del: read_members.simps)

end
