(* ===== verification/Spec2Isabelle.thy ===== *)
theory Spec2Isabelle
  imports Quorum_Params Readiness_Tracker Request_Ids Http_Config Grpc_Config Health_Bridge Grpc_Shutdown Http_Shutdown
    Logging Grpc_Interceptors Grpc_New Http_Handlers Http_New Build_Cli
begin

text \<open>
  FinalWeave node: the Go code of the repository, as Isabelle definitions and theorems.

  \<^bold>\<open>The program.\<close> The repository holds the operational shell of a validator node whose consensus
  runtime does not exist yet. \<open>pkg/types/quorum.go\<close> derives the fault-tolerance thresholds.
  \<open>pkg/api/health/readiness.go\<close> keeps the one readiness word of the process. Two adapters show
  it: \<open>pkg/api/httpserver\<close> serves \<open>/livez\<close> and \<open>/readyz\<close> through Fiber, and \<open>pkg/api/grpcserver\<close>
  serves the standard gRPC health service through grpc-go. Both validate a configuration,
  build a middleware chain that assigns request identifiers, bounds time and memory, recovers
  panics and logs (\<open>pkg/observability/logging.go\<close>), and have a single-use lifecycle
  (\<open>Serve\<close>, \<open>Shutdown\<close>) that many goroutines may use at once. \<open>cmd/finalweave-node\<close> runs the cobra
  command of \<open>internal/cli\<close>, which refuses to run a node and prints \<open>internal/buildinfo\<close>.

  \<^bold>\<open>The theories.\<close> Machine integers are words (\<open>int\<close> is a 64-bit word read signed, \<open>uint64\<close> unsigned);
  a Go panic is \<open>Panic\<close> of \<open>outcome\<close>; an error is a \<open>go_error\<close>, nil is \<open>None\<close>.

    \<^item> \<open>Go_Prelude\<close>, \<open>Go_Errors\<close>, \<open>Go_Strings\<close>, \<open>Go_Context\<close>, \<open>Go_Json\<close>: what the code uses of the
      language and its library: outcomes, invariants and terminating runs of transition systems
      (locales \<open>inductive_invariant\<close>, \<open>step_monotone\<close>, \<open>owed_termination\<close>), error trees with \<open>errors.Is\<close>, UTF-8 range loops and
      \<open>FormatUint\<close>, contexts, JSON of flat objects.
    \<^item> \<open>Quorum_Params\<close> (types/quorum.go): \<open>NewQuorumParameters\<close> and its accessors; exactness and
      absence of overflow, and what the numbers are for: quorums intersect in a non-faulty
      member, through a locale of voter sets interpreted on every constructed tuple.
    \<^item> \<open>Readiness_Tracker\<close> (health/readiness.go): the six states of the atomic word, \<open>Store\<close> and
      \<open>Snapshot\<close> against the abstract value last stored.
    \<^item> \<open>Request_Ids\<close> (both servers): \<open>acceptedRequestID\<close> against a specification on bytes, identifier
      assignment behind the locale \<open>request_id_source\<close>, the saturating metadata budget.
    \<^item> \<open>Config_Checks\<close>, \<open>Http_Config\<close>, \<open>Grpc_Config\<close> (\<open>validate\<close>, \<open>DefaultConfig\<close>): each is a list of checks
      (locale \<open>checked_config\<close>); acceptance is characterized without machine arithmetic.
    \<^item> \<open>Health_Bridge\<close> (grpcserver/health.go): \<open>refresh\<close> as two steps interleaved with stores and the
      shutdown; the health service is the list of calls made on it.
    \<^item> \<open>Lifecycle\<close>, then \<open>Grpc_Lifecycle\<close> with \<open>Grpc_Shutdown\<close> (grpcserver/server.go) and
      \<open>Http_Lifecycle\<close> with \<open>Http_Shutdown\<close> (httpserver/server.go): \<open>Serve\<close> and \<open>Shutdown\<close> cut at every
      lock, channel and library call; a caller of the gRPC \<open>Serve\<close> that has released the mutex and
      not yet called grpc-go's \<open>Serve\<close>, and one that is inside \<open>Stop\<close>, have program counters of
      their own (\<open>PcServeUnlocked\<close>, \<open>PcInStop\<close>). A system state holds the shared \<open>Server\<close> record and a
      program counter per caller; an event is a caller's next section or a return of the
      library, with any result. The invariants are proved one section at a time and put into
      the locale \<open>single_use\<close>, whose abstract automaton both servers refine.
    \<^item> \<open>Grpc_Interceptors\<close>, \<open>Grpc_New\<close> (grpcserver/interceptors.go, \<open>New\<close>) and \<open>Http_Handlers\<close>,
      \<open>Http_New\<close> (httpserver/server.go): the way of one request through middleware and handler,
      with log lines, contexts and deferred functions, and the construction of the servers: the
      configuration that \<open>New\<close> hands to Fiber or grpc-go and what it registers there. The
      identifier counters and the health bridge that the gRPC interceptors share (\<open>rpc_shared\<close>)
      go through every call.
    \<^item> \<open>Logging\<close> (observability/logging.go): loggers and events as the terms of the zerolog calls
      that build them, and the sequence numbers the hook writes.
    \<^item> \<open>Build_Cli\<close> (internal/cli, internal/buildinfo, cmd): the command tree with the settings it
      gives cobra, the outputs and the exit code.

  This theory proves what spans components: both adapters refine one lifecycle, none of them
  panics, and the HTTP and gRPC probes agree.

  \<^bold>\<open>What the theorems show.\<close> Quorum arithmetic is exact and safe. Readiness fails closed on every
  path: unknown words, new and zero trackers, stopped bridges. A shutdown that returns nil has
  stopped the server and released its listener, all callers see one result, and \<open>NOT_SERVING\<close> is
  published before the drain. A caller of the gRPC \<open>Shutdown\<close> returns once everybody has done
  what the code and its environment owe, which is a bounded number of steps
  (\<open>grpc_shutdown_returns\<close>); for HTTP some owed step is always enabled and a caller's own steps
  are bounded. Every request that reaches the registered chain or interceptor is answered under
  a safe identifier, with one completion line and with nothing of a panic disclosed. The binary
  exits with 0 only after help, a completion answer or the version. Two theorems show defects: \<open>refresh_lost_update\<close> (a stale
  \<open>SERVING\<close> after overlapping refreshes) and \<open>http_shutdown_abandons_serve\<close> (a \<open>Shutdown\<close> that gives
  up between Fiber's hook and the start of serving leaves \<open>Serve\<close> running on an open listener).

  \<^bold>\<open>Parameters and assumptions.\<close> Fiber, grpc-go, zerolog and cobra are not in the repository. Their
  results are arguments of the definitions or arbitrary events; calls on them are logged
  lists or free terms. Where a theorem needs their documented behaviour it says so in a
  hypothesis: the health service shows the last status set and \<open>NOT_SERVING\<close> after its shutdown
  (\<open>health_service_contract\<close>), incoming metadata is a value of the context
  (\<open>incoming_contract\<close>), cobra obeys \<open>NoArgs\<close>, \<open>SilenceErrors\<close>, \<open>SilenceUsage\<close> and
  \<open>DisableDefaultCmd\<close> (\<open>cobra_contract\<close>), Fiber's JSON encoder succeeds on flat objects of strings. Progress
  theorems name the events that the environment owes. There is no fuel: every function
  terminates structurally or by a measure on its input, and the lifecycles' progress is
  measured by what each caller and its drain goroutine have left to do. Identifiers and log sequence numbers
  are distinct up to 2^64 of them, where the counters wrap.

  \<^bold>\<open>Not modelled.\<close> Which requests Fiber refuses itself by the limits it was given (405, 413, 431) and
  what grpc-go refuses before an interceptor runs. The wall clock and the text of \<open>%q\<close> (a message is its format and its operands);
  sockets and the bytes on the wire; \<open>runtime.Goexit\<close>; memory exhaustion; the Go memory model
  below mutexes, atomics and channels, which are taken as atomic steps. The tests, scripts
  and protocol documents hold no implementation; the consensus protocol that the documents
  describe is not implemented.
\<close>

section \<open>The components together\<close>

lemma grpc_serve_call:
  assumes inv: "grpc_inv s" and e: "grpc_event_step e s = Some t"
    and c: "count_list (gs_calls t) CallServe \<noteq> count_list (gs_calls s) CallServe"
  shows "grpc_phase s = Running \<or> grpc_phase s = Draining"
proof -
  obtain i where r: "grpc_run i s = Some t" using grpc_event_quiet [OF e] c e by (cases "\<exists>i. e = EvRun i") auto
  then obtain l where l: "gs_pc s i = PcServeCalled l \<or> gs_pc s i = PcServeUnlocked l"
    using grpc_run_quiet [OF r] c by blast
  moreover have "gs_pc s i \<noteq> PcServeCalled l"
    using r c by (auto simp: grpc_run_def grpc_move split: outcome.splits prod.splits serve_next.splits option.splits)
  ultimately have "srv_serveDone (gs_srv s) = Some ChanOpen" using grpc_inv_facts(5) [OF inv, of i] by simp
  with inv show ?thesis
    by (cases "srv_state (gs_srv s)") (auto simp: grpc_inv_def grpc_srv_ok_def grpc_phase_def)
qed

lemma http_hook_accepts:
  assumes "http_inv s" and "http_event_step e s = Some t"
  shows "count_list (hy_calls t) HookAccepted = count_list (hy_calls s) HookAccepted +
      (if app_state (hy_srv s) = HTTP_stateStarting \<and> app_state (hy_srv t) = HTTP_stateServing then 1 else 0)"
proof (cases e)
  case (HEvHook i)
  then show ?thesis
    using assms(2) by (cases "app_state (hy_srv s)")
      (auto simp: http_before_serve_def http_move split: http_pc.splits)
next
  case (HEvRun i)
  show ?thesis
    using assms(2) HEvRun by (cases "app_state (hy_srv s)")
      (auto simp: http_run_def http_sections http_move Let_def split: http_pc.splits option.splits if_splits outcome.splits)
qed (use assms in \<open>auto simp: http_move split: if_splits http_pc.splits option.splits\<close>)

subsection \<open>Properties of the whole\<close>

text \<open>C8: both adapters refine one single-use automaton (fresh, running, draining, terminated with
  a result): every step of every interleaving maps to a step of the automaton or to none; an
  accepted \<open>Shutdown\<close> has returned only in the terminated phase and returned its result;
  grpc-go's \<open>Serve\<close> is called at most once, never in a step that finds the server fresh or
  terminated (so after the mutex is released it may come while a \<open>Shutdown\<close> already drains, and
  a terminated server is never served on); and Fiber is told to go on serving exactly in a
  step out of \<open>stateStarting\<close> within the running phase.\<close>

theorem adapters_refine_single_use:
  assumes grpc: "reach (\<lambda>s. s = grpc_init) grpc_trans s" "grpc_event_step e s = Some t"
    and http: "reach (\<lambda>s. s = http_init) http_trans u" "http_event_step f u = Some v"
  shows "(grpc_phase t = grpc_phase s \<or> phase_step None (grpc_phase s) (grpc_phase t)) \<and>
    (http_phase v = http_phase u \<or> phase_step None (http_phase u) (http_phase v)) \<and>
    (gs_pc t i = PcShutdownReturned r \<longrightarrow> grpc_phase t = Terminated r) \<and>
    (hy_pc v j = HpShutdownReturned q \<longrightarrow> http_phase v = Terminated q) \<and>
    count_list (gs_calls t) CallServe \<le> 1 \<and>
    (count_list (gs_calls t) CallServe \<noteq> count_list (gs_calls s) CallServe \<longrightarrow>
      grpc_phase s = Running \<or> grpc_phase s = Draining) \<and>
    count_list (hy_calls v) HookAccepted = count_list (hy_calls u) HookAccepted +
      (if app_state (hy_srv u) = HTTP_stateStarting \<and> app_state (hy_srv v) = HTTP_stateServing then 1 else 0)"
proof -
  have g: "grpc_trans s t" and h: "http_trans u v" using grpc(2) http(2) by (auto simp: grpc_trans_def http_trans_def)
  have gr: "reach (\<lambda>s. s = grpc_init) grpc_trans t" using grpc(1) g by (blast intro: reach_step)
  have gi: "grpc_inv s" "grpc_inv t" by (rule grpc_discipline.inv_reach, use grpc(1) gr in blast)+
  have hi: "http_inv u" "http_inv v" by (rule http_discipline.inv_reach, use http(1) h in \<open>blast intro: reach_step\<close>)+
  show ?thesis
    using grpc_single_use.phase_refines [OF gi(1) g] http_single_use.phase_refines [OF hi(1) h]
      grpc_serve_at_most_once(1) [OF gr] grpc_serve_call [OF gi(1) grpc(2)] http_hook_accepts [OF hi(1) http(2)]
      grpc_inv_facts(7) [OF gi(2), of i] http_inv_facts(6) [OF hi(2), of j]
    by (auto simp: grpc_phase_def http_phase_def)
qed

text \<open>A run in which the \<open>Shutdown\<close> comes between the mutex and the library call: \<open>Serve\<close> is called
  while the server drains.\<close>

theorem adapters_refine_single_use_witness:
  "\<exists>s t u v. grpc_events [EvServe 0 some_listener, EvRun 0, EvShutdown 1 some_context, EvRun 1] grpc_init = Some s \<and>
     grpc_event_step (EvRun 0) s = Some t \<and>
     http_events [HEvServe 0 http_listener, HEvRun 0, HEvRun 0] http_init = Some u \<and> http_event_step (HEvHook 0) u = Some v \<and>
     grpc_phase t = Draining \<and> count_list (gs_calls s) CallServe = 0 \<and> count_list (gs_calls t) CallServe = 1 \<and>
     http_phase v = http_phase u \<and> count_list (hy_calls v) HookAccepted = 1"
proof -
  obtain s t where s: "grpc_events [EvServe 0 some_listener, EvRun 0, EvShutdown 1 some_context, EvRun 1] grpc_init = Some s"
    "grpc_event_step (EvRun 0) s = Some t" "grpc_phase t = Draining"
    "count_list (gs_calls s) CallServe = 0" "count_list (gs_calls t) CallServe = 1"
    by (simp add: grpc_demo grpc_phase_def)
  obtain u v where u: "http_events [HEvServe 0 http_listener, HEvRun 0, HEvRun 0] http_init = Some u"
    "http_event_step (HEvHook 0) u = Some v" "http_phase u = Running" "http_phase v = Running"
    "count_list (hy_calls u) HookAccepted = 0" "app_state (hy_srv u) = HTTP_stateStarting"
    "app_state (hy_srv v) = HTTP_stateServing" by (simp add: http_demo http_phase_def)
  from adapters_refine_single_use [OF grpc_events_reach [OF s(1)] s(2) http_events_reach [OF u(1)] u(2)] s u
  show ?thesis by auto
qed

text \<open>C9: no interleaving of calls makes a server built by either \<open>New\<close> panic: no invalid state,
  no closed or nil channel closed again, no nil bridge or listener is ever met; and what
  Fiber's hook refuses with is \<open>ErrServerStopped\<close>, never an unexpected lifecycle state.\<close>

theorem adapters_never_panic:
  assumes "reach (\<lambda>s. s = grpc_init) grpc_trans s" and "reach (\<lambda>s. s = http_init) http_trans u"
  shows "gs_pc s i \<noteq> PcPanicked m \<and> hy_pc u j \<noteq> HpPanicked m \<and>
    (hy_pc u j = HpRefused l e \<longrightarrow> e = Sentinel HTTP_ErrServerStopped)"
  using grpc_no_panic [OF assms(1), of i m] http_no_panic [OF assms(2), of j m] by blast

theorem adapters_never_panic_witness:
  "\<exists>s u. grpc_events graceful_run grpc_init = Some s \<and> http_events (http_startup_prefix @ [HEvHook 0]) http_init = Some u \<and>
     gs_pc s 0 \<noteq> PcPanicked ''nil pointer dereference'' \<and> hy_pc u 0 = HpRefused http_listener (Sentinel HTTP_ErrServerStopped)"
proof -
  obtain s where s: "grpc_events graceful_run grpc_init = Some s" using graceful_run_returns by blast
  obtain u l e where u: "http_events (http_startup_prefix @ [HEvHook 0]) http_init = Some u"
    "hy_pc u 0 = HpRefused l e" "l = http_listener" by (simp add: http_demo)
  from adapters_never_panic [OF grpc_events_reach [OF s] http_events_reach [OF u(1)], of 0 "''nil pointer dereference''" 0] s u
  show ?thesis by blast
qed

text \<open>C13: the two readiness probes agree with the tracker and with each other: in every reachable
  state of the health bridge, when the router picks \<open>/readyz\<close>, a request without a body is
  answered 200 \<open>ready\<close> exactly when the tracker is ready and 503 with its reason otherwise, a
  request with a body is refused with 400; and a gRPC refresh at that moment makes the
  health service show \<open>SERVING\<close> exactly when the HTTP answer would be 200 and the bridge has
  not been shut down.\<close>

theorem probes_agree:
  assumes json: "\<And>m. he_json_err env m = None" and log: "logger = Some lg" "lg_logger lg = Some z"
    and route: "\<And>c. he_match env c = Return (readyzPath, Inr ProbeReady)"
    and reached: "reach (\<lambda>s. s = hb_init) hb_trans s" and service: "health_service_contract status"
    and snap: "tracker_Snapshot (Some (hs_tracker s)) = Return r"
  shows "\<exists>rq1 b. http_chain root timeout logger (Some (hs_tracker s)) env rq = (Return None, rq1) \<and>
    hb_refresh (Some (hs_tracker s)) (hs_bridge s) = Return b \<and>
    (status (hb_calls b) = SERVING \<longleftrightarrow> Ready r \<and> \<not> hb_stopped (hs_bridge s)) \<and>
    (if fc_content_length (rq_fiber rq) > 0 \<or> fc_request_body (rq_fiber rq) \<noteq> ''''
     then fc_status (rq_fiber rq1) = 400 \<and> fc_body (rq_fiber rq1) = [(''error'', ''invalid_request'')]
     else if Ready r then fc_status (rq_fiber rq1) = 200 \<and> fc_body (rq_fiber rq1) = [(''status'', ''ready'')]
     else fc_status (rq_fiber rq1) = 503 \<and>
       fc_body (rq_fiber rq1) = [(''status'', ''not_ready''), (''reason'', Reason r)])"
proof -
  have "hb_wf (hs_bridge s)" using hb_discipline.inv_reach [OF reached] by (simp add: hb_inv_def)
  from status_of_wf [OF service this] snap
  have "\<exists>b. hb_refresh (Some (hs_tracker s)) (hs_bridge s) = Return b \<and>
      (status (hb_calls b) = SERVING \<longleftrightarrow> Ready r \<and> \<not> hb_stopped (hs_bridge s))"
    by (simp add: hb_refresh_def refresh_status_tracker tracker_Snapshot_def)
  with readyz_answer [OF json log route snap, of root timeout rq] show ?thesis by blast
qed

theorem probes_agree_witness:
  "\<exists>rq1 b. http_chain (CtxExternal 0) 1 (Some NopLogger) (Some NewTracker) http_demo_env http_demo_request = (Return None, rq1) \<and>
     hb_refresh (Some NewTracker) newHealthBridge = Return b \<and> last_status (hb_calls b) \<noteq> SERVING \<and>
     fc_status (rq_fiber rq1) = 503 \<and>
     fc_body (rq_fiber rq1) = [(''status'', ''not_ready''), (''reason'', ReasonRuntimeUnavailable)]"
  using probes_agree [of http_demo_env "Some NopLogger" NopLogger ZNop hb_init last_status
      "\<lparr>Ready = False, Reason = ReasonRuntimeUnavailable\<rparr>" "CtxExternal 0" 1 http_demo_request]
  by (simp add: http_demo_env_def http_demo_request_def NopLogger_def tracker_Snapshot_def NewTracker_def zero_Tracker_def
      decode_def tracker_state_defs hb_init_def reach_init last_status_contract)

end
